(* ===== verification/Prelude.thy ===== *)
theory Prelude
  imports Main
begin

text \<open>
  Shared vocabulary of the development: the transaction monad in which every durable operation
  of the node is written, its weakest-precondition calculus, and the relational tables
  (rows in insertion order, a key column, SQL-style selection and update) with the lemmas the
  components share.

  A Go function that works inside one SQLite transaction returns an error or a value and the
  changed database; \<open>('s, 'a) tx\<close> is exactly that. The transaction is rolled back when the
  function returns an error, so the state of an \<open>Inl\<close> result is not kept.
\<close>

section \<open>Errors and the transaction monad\<close>

text \<open>
  The errors a transaction body returns: the typed \<open>commandFailure\<close> of
  \<open>runtime/command.go\<close> (HTTP status, wire code, message, optional current version and
  state), \<open>sql.ErrNoRows\<close>, a violated schema constraint, and any other \<open>errors.New\<close>.
\<close>

datatype tx_error =
    CommandFailure nat string string "int option" string
  | NoRows
  | Constraint string
  | Internal string

type_synonym ('s, 'a) tx = "'s \<Rightarrow> tx_error + ('a \<times> 's)"

definition tret :: "'a \<Rightarrow> ('s, 'a) tx" where
  "tret a = (\<lambda>s. Inr (a, s))"

definition tfail :: "tx_error \<Rightarrow> ('s, 'a) tx" where
  "tfail e = (\<lambda>s. Inl e)"

definition tbind :: "('s, 'a) tx \<Rightarrow> ('a \<Rightarrow> ('s, 'b) tx) \<Rightarrow> ('s, 'b) tx" where
  "tbind m f = (\<lambda>s. case m s of Inl e \<Rightarrow> Inl e | Inr (a, s') \<Rightarrow> f a s')"

definition tseq :: "('s, 'a) tx \<Rightarrow> ('s, 'b) tx \<Rightarrow> ('s, 'b) tx" where
  "tseq m n = tbind m (\<lambda>_. n)"

definition tgets :: "('s \<Rightarrow> 'a) \<Rightarrow> ('s, 'a) tx" where
  "tgets f = (\<lambda>s. Inr (f s, s))"

definition tmod :: "('s \<Rightarrow> 's) \<Rightarrow> ('s, unit) tx" where
  "tmod f = (\<lambda>s. Inr ((), f s))"

definition tguard :: "bool \<Rightarrow> tx_error \<Rightarrow> ('s, unit) tx" where
  "tguard c e = (if c then tret () else tfail e)"

definition tcheck :: "('s \<Rightarrow> bool) \<Rightarrow> tx_error \<Rightarrow> ('s, unit) tx" where
  "tcheck P e = (\<lambda>s. if P s then Inr ((), s) else Inl e)"

definition tfind :: "('s \<Rightarrow> 'a option) \<Rightarrow> tx_error \<Rightarrow> ('s, 'a) tx" where
  "tfind f e = (\<lambda>s. case f s of None \<Rightarrow> Inl e | Some a \<Rightarrow> Inr (a, s))"

fun tforeach :: "('a \<Rightarrow> ('s, unit) tx) \<Rightarrow> 'a list \<Rightarrow> ('s, unit) tx" where
  "tforeach f [] = tret ()"
| "tforeach f (x # xs) = tseq (f x) (tforeach f xs)"

text \<open>A block of statements, run in order.\<close>

fun tdo :: "('s, unit) tx list \<Rightarrow> ('s, unit) tx" where
  "tdo [] = tret ()"
| "tdo (m # ms) = tseq m (tdo ms)"

declare tdo.simps [simp del]

lemmas tx_defs = tret_def tfail_def tbind_def tseq_def tgets_def tmod_def tguard_def
  tcheck_def tfind_def

text \<open>
  Unfolding with these turns a block into nested case expressions, which evaluation explores one
  branch at a time; the components use the unfolded definitions as code equations.
\<close>

lemmas exec_unfold = tdo.simps tx_defs if_distribR

section \<open>Weakest preconditions\<close>

text \<open>
  \<open>wp m Q s\<close>: if \<open>m\<close> succeeds from \<open>s\<close> then \<open>Q\<close> holds of its value and final state. The
  collection \<open>wp\<close> holds one equation per construct, so \<open>simp add: wp\<close> executes a
  transaction symbolically.
\<close>

definition wp :: "('s, 'a) tx \<Rightarrow> ('a \<Rightarrow> 's \<Rightarrow> bool) \<Rightarrow> 's \<Rightarrow> bool" where
  "wp m Q s = (case m s of Inl e \<Rightarrow> True | Inr (a, s') \<Rightarrow> Q a s')"

named_theorems wp

lemma wp_tret [wp]: "wp (tret a) Q s = Q a s"
  by (simp add: wp_def tret_def)

lemma wp_tfail [wp]: "wp (tfail e) Q s = True"
  by (simp add: wp_def tfail_def)

lemma wp_tbind [wp]: "wp (tbind m f) Q s = wp m (\<lambda>a. wp (f a) Q) s"
  by (simp add: wp_def tbind_def split: sum.split prod.split)

lemma wp_tseq [wp]: "wp (tseq m n) Q s = wp m (\<lambda>_. wp n Q) s"
  by (simp add: tseq_def wp_tbind)

lemma wp_tgets [wp]: "wp (tgets f) Q s = Q (f s) s"
  by (simp add: wp_def tgets_def)

lemma wp_tmod [wp]: "wp (tmod f) Q s = Q () (f s)"
  by (simp add: wp_def tmod_def)

lemma wp_tguard [wp]: "wp (tguard c e) Q s = (c \<longrightarrow> Q () s)"
  by (simp add: tguard_def wp_tret wp_tfail)

lemma wp_tcheck [wp]: "wp (tcheck P e) Q s = (P s \<longrightarrow> Q () s)"
  by (simp add: wp_def tcheck_def)

lemma wp_tfind [wp]: "wp (tfind f e) Q s = (\<forall>a. f s = Some a \<longrightarrow> Q a s)"
  by (simp add: wp_def tfind_def split: option.split)

lemma wp_if [wp]: "wp (if c then m else n) Q s = (if c then wp m Q s else wp n Q s)"
  by simp

lemma wp_option [wp]:
  "wp (case x of None \<Rightarrow> m | Some a \<Rightarrow> f a) Q s =
     (case x of None \<Rightarrow> wp m Q s | Some a \<Rightarrow> wp (f a) Q s)"
  by (simp split: option.split)

lemma wp_prod [wp]:
  "wp (case p of (a, b) \<Rightarrow> f a b) Q s = (case p of (a, b) \<Rightarrow> wp (f a b) Q s)"
  by (simp split: prod.split)

lemma wp_let [wp]: "wp (Let x f) Q s = (let y = x in wp (f y) Q s)"
  by simp

lemma wp_tdo [wp]: "wp (tdo []) R s = R () s" "wp (tdo (m # ms)) R s = wp m (\<lambda>_. wp (tdo ms) R) s"
  by (simp_all add: tdo.simps wp_tret wp_tseq)

lemma wp_mono: "wp m Q s \<Longrightarrow> (\<And>a s'. Q a s' \<Longrightarrow> R a s') \<Longrightarrow> wp m R s"
  by (auto simp: wp_def split: sum.splits)

lemma wp_conj: "wp m (\<lambda>a s. P a s \<and> Q a s) s = (wp m P s \<and> wp m Q s)"
  by (auto simp: wp_def split: sum.split)

lemma wp_True [simp]: "wp m (\<lambda>_ _. True) s"
  by (simp add: wp_def split: sum.split prod.split)

text \<open>What a successful run gives, and how to show that a run succeeds.\<close>

lemma wpD: "wp m Q s \<Longrightarrow> m s = Inr (a, s') \<Longrightarrow> Q a s'"
  by (simp add: wp_def)

lemma wpI: "(\<And>a s'. m s = Inr (a, s') \<Longrightarrow> Q a s') \<Longrightarrow> wp m Q s"
  by (auto simp: wp_def split: sum.split)

text \<open>
  \<open>keeps I m\<close>: every successful run of \<open>m\<close> keeps \<open>I\<close>. Composition lemmas are in the
  collection \<open>keeps\<close>; a component adds one fact per primitive.
\<close>

definition keeps :: "('s \<Rightarrow> bool) \<Rightarrow> ('s, 'a) tx \<Rightarrow> bool" where
  "keeps I m = (\<forall>s. I s \<longrightarrow> wp m (\<lambda>_. I) s)"

named_theorems keeps

lemma keepsI: "(\<And>s. I s \<Longrightarrow> wp m (\<lambda>_. I) s) \<Longrightarrow> keeps I m"
  by (simp add: keeps_def)

lemma keepsD: "keeps I m \<Longrightarrow> I s \<Longrightarrow> wp m (\<lambda>_. I) s"
  by (simp add: keeps_def)

lemma keeps_run: "keeps I m \<Longrightarrow> I s \<Longrightarrow> m s = Inr (a, s') \<Longrightarrow> I s'"
  by (auto simp: keeps_def dest: wpD)

text \<open>The reads and guards in front of an operation, as introduction rules.\<close>

lemma wp_find_then: "(\<And>a. f s = Some a \<Longrightarrow> wp (g a) Q s) \<Longrightarrow> wp (tbind (tfind f e) g) Q s"
  by (simp add: wp)

lemma wp_check_then: "(P s \<Longrightarrow> wp n Q s) \<Longrightarrow> wp (tseq (tcheck P e) n) Q s"
  by (simp add: wp)

lemma wp_guard_then: "(c \<Longrightarrow> wp n Q s) \<Longrightarrow> wp (tseq (tguard c e) n) Q s"
  by (simp add: wp)

lemma wp_gets_then: "wp (g (f s)) Q s \<Longrightarrow> wp (tbind (tgets f) g) Q s"
  by (simp add: wp)

lemmas wp_front = wp_find_then wp_check_then wp_guard_then wp_gets_then

lemma keeps_conj: "keeps P m \<Longrightarrow> keeps Q m \<Longrightarrow> keeps (\<lambda>s. P s \<and> Q s) m"
  by (simp add: keeps_def wp_conj)

text \<open>Sequencing when only the first part needs what is known of the current state.\<close>

lemma wp_then: "wp m (\<lambda>_. I) s \<Longrightarrow> keeps I n \<Longrightarrow> wp (tseq m n) (\<lambda>_. I) s"
  by (auto simp: wp_tseq keeps_def intro: wp_mono)

lemma wp_then_bind: "wp m (\<lambda>_. I) s \<Longrightarrow> (\<And>a. keeps I (f a)) \<Longrightarrow> wp (tbind m f) (\<lambda>_. I) s"
  by (auto simp: wp_tbind keeps_def intro: wp_mono)

lemma wp_then_tdo: "wp m (\<lambda>_. I) s \<Longrightarrow> keeps I (tdo ms) \<Longrightarrow> wp (tdo (m # ms)) (\<lambda>_. I) s"
  by (simp add: tdo.simps wp_then)

lemma keeps_tret [keeps]: "keeps I (tret a)"
  by (simp add: keeps_def wp)

lemma keeps_tfail [keeps]: "keeps I (tfail e)"
  by (simp add: keeps_def wp)

lemma keeps_tbind [keeps]: "keeps I m \<Longrightarrow> (\<And>a. keeps I (f a)) \<Longrightarrow> keeps I (tbind m f)"
  by (auto simp: keeps_def wp intro: wp_mono)

text \<open>A bind whose continuation needs to know something of the result.\<close>

lemma keeps_tbind_result:
  assumes "keeps I m" and "\<And>s. wp m (\<lambda>a _. R a) s" and "\<And>a. R a \<Longrightarrow> keeps I (f a)"
  shows "keeps I (tbind m f)"
proof (rule keepsI)
  fix s
  assume "I s"
  then have "wp m (\<lambda>a t. R a \<and> I t) s" using assms(1,2) by (simp add: wp_conj keeps_def)
  then show "wp (tbind m f) (\<lambda>_. I) s"
    unfolding wp_tbind by (rule wp_mono) (use assms(3) in \<open>auto simp: keeps_def\<close>)
qed

lemma keeps_tseq [keeps]: "keeps I m \<Longrightarrow> keeps I n \<Longrightarrow> keeps I (tseq m n)"
  by (auto simp: keeps_def wp intro: wp_mono)

lemma keeps_tgets [keeps]: "keeps I (tgets f)"
  by (simp add: keeps_def wp)

lemma keeps_tguard [keeps]: "keeps I (tguard c e)"
  by (simp add: keeps_def wp)

lemma keeps_tcheck [keeps]: "keeps I (tcheck P e)"
  by (simp add: keeps_def wp)

lemma keeps_tfind [keeps]: "keeps I (tfind f e)"
  by (simp add: keeps_def wp)

lemma keeps_if [keeps]: "keeps I m \<Longrightarrow> keeps I n \<Longrightarrow> keeps I (if c then m else n)"
  by simp

lemma keeps_option [keeps]:
  "keeps I m \<Longrightarrow> (\<And>a. keeps I (f a)) \<Longrightarrow> keeps I (case x of None \<Rightarrow> m | Some a \<Rightarrow> f a)"
  by (simp split: option.split)

lemma keeps_prod [keeps]: "(\<And>a b. keeps I (f a b)) \<Longrightarrow> keeps I (case p of (a, b) \<Rightarrow> f a b)"
  by (simp split: prod.split)

lemma keeps_let [keeps]: "(\<And>y. keeps I (f y)) \<Longrightarrow> keeps I (Let x f)"
  by simp

lemma keeps_tforeach [keeps]: "(\<And>x. keeps I (f x)) \<Longrightarrow> keeps I (tforeach f xs)"
  by (induction xs) (simp_all add: keeps)

lemma keeps_tdo [keeps]: "keeps I (tdo [])" "keeps I m \<Longrightarrow> keeps I (tdo ms) \<Longrightarrow> keeps I (tdo (m # ms))"
  by (simp_all add: tdo.simps keeps_tret keeps_tseq)

section \<open>Tables\<close>

text \<open>
  A table is the list of its rows in insertion (rowid) order. \<open>lookup_row\<close> is
  \<open>SELECT ... WHERE key=?\<close>, \<open>update_rows\<close> is \<open>UPDATE ... WHERE P\<close>, \<open>count_rows\<close> is
  \<open>SELECT COUNT(*) ... WHERE P\<close>, \<open>exists_row\<close> is \<open>SELECT EXISTS(...)\<close>.
\<close>

definition lookup_row :: "('r \<Rightarrow> 'k) \<Rightarrow> 'k \<Rightarrow> 'r list \<Rightarrow> 'r option" where
  "lookup_row key k rows = find (\<lambda>r. key r = k) rows"

definition update_rows :: "('r \<Rightarrow> bool) \<Rightarrow> ('r \<Rightarrow> 'r) \<Rightarrow> 'r list \<Rightarrow> 'r list" where
  "update_rows P f rows = map (\<lambda>r. if P r then f r else r) rows"

definition count_rows :: "('r \<Rightarrow> bool) \<Rightarrow> 'r list \<Rightarrow> int" where
  "count_rows P rows = int (length (filter P rows))"

definition exists_row :: "('r \<Rightarrow> bool) \<Rightarrow> 'r list \<Rightarrow> bool" where
  "exists_row P rows = (\<exists>r \<in> set rows. P r)"

text \<open>\<open>ORDER BY f LIMIT 1\<close>: the first row with the least value of \<open>f\<close>.\<close>

fun min_row :: "('r \<Rightarrow> int) \<Rightarrow> 'r list \<Rightarrow> 'r option" where
  "min_row f [] = None"
| "min_row f (r # rs) =
     (case min_row f rs of None \<Rightarrow> Some r | Some q \<Rightarrow> Some (if f r \<le> f q then r else q))"

text \<open>\<open>COALESCE(MAX(f),0)\<close> over the rows.\<close>

fun max_col :: "('r \<Rightarrow> int) \<Rightarrow> 'r list \<Rightarrow> int option" where
  "max_col f [] = None"
| "max_col f (r # rs) = (case max_col f rs of None \<Rightarrow> Some (f r) | Some m \<Rightarrow> Some (max (f r) m))"

lemma lookup_row_Some:
  "lookup_row key k rows = Some r \<Longrightarrow> r \<in> set rows \<and> key r = k"
  by (auto simp: lookup_row_def find_Some_iff)

lemma lookup_row_None: "lookup_row key k rows = None \<longleftrightarrow> k \<notin> key ` set rows"
  by (auto simp: lookup_row_def find_None_iff)

lemma lookup_row_unique:
  "distinct (map key rows) \<Longrightarrow> r \<in> set rows \<Longrightarrow> lookup_row key (key r) rows = Some r"
  by (induction rows) (auto simp: lookup_row_def)

lemma length_update_rows [simp]: "length (update_rows P f rows) = length rows"
  by (simp add: update_rows_def)

lemma map_update_rows: "(\<And>r. g (f r) = g r) \<Longrightarrow> map g (update_rows P f rows) = map g rows"
  by (induction rows) (auto simp: update_rows_def)

lemma set_update_rows: "set (update_rows P f rows) = (\<lambda>r. if P r then f r else r) ` set rows"
  by (simp add: update_rows_def)

lemma count_rows_append [simp]:
  "count_rows P (rows @ rows') = count_rows P rows + count_rows P rows'"
  by (simp add: count_rows_def)

lemma count_rows_Cons: "count_rows P (r # rows) = (if P r then 1 else 0) + count_rows P rows"
  by (simp add: count_rows_def)

lemma count_rows_Nil [simp]: "count_rows P [] = 0"
  by (simp add: count_rows_def)

lemma count_rows_ge0 [simp]: "0 \<le> count_rows P rows"
  by (simp add: count_rows_def)

lemma count_rows_pos: "0 < count_rows P rows \<longleftrightarrow> (\<exists>r \<in> set rows. P r)"
  by (auto simp: count_rows_def filter_empty_conv)

lemma update_rows_Nil [simp]: "update_rows P f [] = []"
  by (simp add: update_rows_def)

lemma update_rows_Cons:
  "update_rows P f (r # rows) = (if P r then f r else r) # update_rows P f rows"
  by (simp add: update_rows_def)

lemma update_rows_none: "(\<And>r. r \<in> set rows \<Longrightarrow> \<not> P r) \<Longrightarrow> update_rows P f rows = rows"
  by (induction rows) (auto simp: update_rows_def)

text \<open>How an update of the row with one key changes a count.\<close>

lemma count_update_row:
  assumes "distinct (map key rows)" and "lookup_row key k rows = Some r"
  shows "count_rows P (update_rows (\<lambda>x. key x = k) f rows) =
           count_rows P rows - (if P r then 1 else 0) + (if P (f r) then 1 else 0)"
  using assms
proof (induction rows)
  case Nil
  then show ?case by (simp add: lookup_row_def)
next
  case (Cons x rows)
  show ?case
  proof (cases "key x = k")
    case True
    with Cons.prems have rx: "r = x" by (simp add: lookup_row_def)
    from True Cons.prems(1) have "k \<notin> key ` set rows" by simp
    then have "\<And>y. y \<in> set rows \<Longrightarrow> key y \<noteq> k" by blast
    with True rx show ?thesis
      by (simp add: update_rows_Cons count_rows_Cons update_rows_none)
  next
    case False
    with Cons.prems have "lookup_row key k rows = Some r" and "distinct (map key rows)"
      by (auto simp: lookup_row_def)
    with Cons.IH False show ?thesis by (simp add: update_rows_Cons count_rows_Cons)
  qed
qed

lemma count_update_same:
  assumes "\<And>r. P (f r) = P r"
  shows "count_rows P (update_rows C f rows) = count_rows P rows"
  using assms by (induction rows) (simp_all add: update_rows_Cons count_rows_Cons)

lemma lookup_update_row:
  assumes "\<And>r. key (f r) = key r"
  shows "lookup_row key k (update_rows (\<lambda>x. key x = k') f rows) =
           (if k = k' then map_option f (lookup_row key k rows) else lookup_row key k rows)"
  using assms by (induction rows) (auto simp: lookup_row_def update_rows_def)

lemma lookup_append_row:
  "lookup_row key k (rows @ [r]) =
     (case lookup_row key k rows of None \<Rightarrow> (if key r = k then Some r else None) | Some q \<Rightarrow> Some q)"
  by (induction rows) (auto simp: lookup_row_def)

lemma min_row_None [simp]: "min_row f rows = None \<longleftrightarrow> rows = []"
  by (cases rows) (auto split: option.splits)

lemma min_row_Some:
  "min_row f rows = Some r \<Longrightarrow> r \<in> set rows \<and> (\<forall>q \<in> set rows. f r \<le> f q)"
proof (induction rows arbitrary: r)
  case Nil
  then show ?case by simp
next
  case (Cons x rows)
  show ?case
  proof (cases "min_row f rows")
    case None
    with Cons.prems show ?thesis by simp
  next
    case (Some q)
    from Cons.IH [OF Some] Cons.prems Some show ?thesis by (auto split: if_splits)
  qed
qed

lemma max_col_None [simp]: "max_col f rows = None \<longleftrightarrow> rows = []"
  by (cases rows) (auto split: option.splits)

lemma max_col_ge: "max_col f rows = Some m \<Longrightarrow> r \<in> set rows \<Longrightarrow> f r \<le> m"
  by (induction rows arbitrary: m) (fastforce split: option.splits)+

subsection \<open>The interface of a keyed table\<close>

text \<open>
  Every table of the schema is reached through a selector and an update of the database record
  and has a primary key. The locale states the laws of that access path; its lemmas are used
  through one interpretation per table.
\<close>

locale keyed_table =
  fixes get :: "'s \<Rightarrow> 'r list" and put :: "('r list \<Rightarrow> 'r list) \<Rightarrow> 's \<Rightarrow> 's" and key :: "'r \<Rightarrow> 'k"
  assumes get_put: "get (put F s) = F (get s)"
    and put_get: "put (\<lambda>_. get s) s = s"
    and put_put: "put F (put G s) = put (\<lambda>x. F (G x)) s"
begin

lemma put_same: "F (get s) = get s \<Longrightarrow> put (\<lambda>_. F (get s)) s = s"
  by (simp add: put_get)

lemma insert_distinct:
  "distinct (map key (get s)) \<Longrightarrow> k = key r \<Longrightarrow> \<not> exists_row (\<lambda>x. key x = k) (get s) \<Longrightarrow>
     distinct (map key (get (put (\<lambda>rows. rows @ [r]) s)))"
  by (auto simp: get_put exists_row_def)

lemma update_distinct:
  "distinct (map key (get s)) \<Longrightarrow> (\<And>r. key (f r) = key r) \<Longrightarrow>
     distinct (map key (get (put (update_rows P f) s)))"
  by (simp add: get_put map_update_rows)

lemma lookup_after_insert:
  "\<not> exists_row (\<lambda>x. key x = key r) (get s) \<Longrightarrow>
     lookup_row key (key r) (get (put (\<lambda>rows. rows @ [r]) s)) = Some r"
  by (auto simp: get_put lookup_append_row exists_row_def lookup_row_None split: option.split
      dest: lookup_row_Some)

lemma lookup_after_update:
  "(\<And>r. key (f r) = key r) \<Longrightarrow> lookup_row key k (get s) = Some r \<Longrightarrow>
     lookup_row key k (get (put (update_rows (\<lambda>x. key x = k) f) s)) = Some (f r)"
  by (simp add: get_put lookup_update_row)

end

end
