(* ===== verification/Wire.thy ===== *)
theory Wire
  imports Prelude "HOL-Library.Char_ord" "HOL-Library.List_Lexorder" "HOL-Library.Multiset"
begin

text \<open>
  The wire contract of \<open>contracts/wire\<close>: decoded JSON values, the checker combinators of
  \<open>validate.go\<close> and the validators of every wire type. A Go \<open>check\<close> returns an error or
  nil; here it is a predicate that holds when the Go check returns nil. The error texts are
  diagnostics only and are not modelled.

  A value has been read by \<open>decodeObject\<close>: at most 8 MiB of valid UTF-8 JSON without
  duplicate keys (\<open>internal/strictjson\<close>), numbers kept as their literal text
  (\<open>json.Number\<close>). Strings are lists of UTF-8 bytes, so \<open>length\<close> counts what
  \<open>len([]byte(s))\<close> counts.
\<close>

section \<open>JSON values\<close>

datatype json =
    JNull
  | JBool bool
  | JNum string
  | JStr string
  | JArr "json list"
  | JObj "(string \<times> json) list"

type_synonym check = "json \<Rightarrow> bool"

text \<open>\<open>value["k"]\<close> on a decoded object: the entry, absent when the key is.\<close>

fun jfield :: "json \<Rightarrow> string \<Rightarrow> json option" where
  "jfield (JObj m) k = map_of m k"
| "jfield _ k = None"

section \<open>Constants\<close>

definition ProtocolVersion :: int where "ProtocolVersion = 1"
definition SchemaID :: string where "SchemaID = ''harness-wire-v2''"
definition AdmissionSchemaID :: string where "AdmissionSchemaID = ''harness-admission-v1''"
definition SchemaSHA256 :: string where
  "SchemaSHA256 = ''5013223c4f77ac7424a486d7223c5321eb7f0e9054fb036e48d6e7748fae1889''"
definition MaximumSafeInteger :: int where "MaximumSafeInteger = 9007199254740991"
definition MaximumMessageBytes :: int where "MaximumMessageBytes = 65536"
definition MaximumPageSize :: int where "MaximumPageSize = 100"
definition MaximumCursorBytes :: int where "MaximumCursorBytes = 512"
definition MaximumArtifactBytes :: int where "MaximumArtifactBytes = 16777216"

datatype CommandKind =
    CommandDialogCreate | CommandDialogDelete | CommandMessageEnqueue | CommandMessageSteer
  | CommandRequestCancel | CommandAttemptStop | CommandQueueResume | CommandAttemptRetry
  | CommandApprovalRespond | CommandInputRespond

fun kind_text :: "CommandKind \<Rightarrow> string" where
  "kind_text CommandDialogCreate = ''dialog.create''"
| "kind_text CommandDialogDelete = ''dialog.delete''"
| "kind_text CommandMessageEnqueue = ''message.enqueue''"
| "kind_text CommandMessageSteer = ''message.steer''"
| "kind_text CommandRequestCancel = ''request.cancel''"
| "kind_text CommandAttemptStop = ''attempt.stop''"
| "kind_text CommandQueueResume = ''queue.resume''"
| "kind_text CommandAttemptRetry = ''attempt.retry''"
| "kind_text CommandApprovalRespond = ''approval.respond''"
| "kind_text CommandInputRespond = ''input.respond''"

definition all_kinds :: "CommandKind list" where
  "all_kinds = [CommandDialogCreate, CommandDialogDelete, CommandMessageEnqueue,
     CommandMessageSteer, CommandRequestCancel, CommandAttemptStop, CommandQueueResume,
     CommandAttemptRetry, CommandApprovalRespond, CommandInputRespond]"

definition kind_of :: "string \<Rightarrow> CommandKind option" where
  "kind_of s = find (\<lambda>k. kind_text k = s) all_kinds"

definition IsAdmissionCommand :: "CommandKind \<Rightarrow> bool" where
  "IsAdmissionCommand kind \<longleftrightarrow>
     kind = CommandDialogCreate \<or> kind = CommandMessageEnqueue \<or> kind = CommandAttemptRetry"

definition IsDrainBlockedCommand :: "CommandKind \<Rightarrow> bool" where
  "IsDrainBlockedCommand kind \<longleftrightarrow> IsAdmissionCommand kind \<or> kind = CommandQueueResume"

definition IsDrainControlCommand :: "CommandKind \<Rightarrow> bool" where
  "IsDrainControlCommand kind \<longleftrightarrow> kind \<in> {CommandMessageSteer, CommandRequestCancel,
     CommandAttemptStop, CommandApprovalRespond, CommandInputRespond}"

section \<open>Lexical patterns\<close>

definition is_digit :: "char \<Rightarrow> bool" where
  "is_digit c \<longleftrightarrow> 48 \<le> (of_char c :: int) \<and> (of_char c :: int) \<le> 57"

definition is_lower :: "char \<Rightarrow> bool" where
  "is_lower c \<longleftrightarrow> 97 \<le> (of_char c :: int) \<and> (of_char c :: int) \<le> 122"

definition is_upper :: "char \<Rightarrow> bool" where
  "is_upper c \<longleftrightarrow> 65 \<le> (of_char c :: int) \<and> (of_char c :: int) \<le> 90"

definition is_hex :: "char \<Rightarrow> bool" where
  "is_hex c \<longleftrightarrow> is_digit c \<or> (97 \<le> (of_char c :: int) \<and> (of_char c :: int) \<le> 102)"

text \<open>A fixed-length pattern is a list of character classes.\<close>

definition matches :: "(char \<Rightarrow> bool) list \<Rightarrow> string \<Rightarrow> bool" where
  "matches ps s = list_all2 (\<lambda>p c. p c) ps s"

definition lit :: "char \<Rightarrow> char \<Rightarrow> bool" where
  "lit c d \<longleftrightarrow> c = d"

definition uuidPattern :: "string \<Rightarrow> bool" where
  "uuidPattern = matches (replicate 8 is_hex @ [lit CHR ''-''] @ replicate 4 is_hex @
     [lit CHR ''-'', \<lambda>c. c \<in> set ''12345''] @ replicate 3 is_hex @
     [lit CHR ''-'', \<lambda>c. c \<in> set ''89ab''] @ replicate 3 is_hex @
     [lit CHR ''-''] @ replicate 12 is_hex)"

definition sha256Pattern :: "string \<Rightarrow> bool" where
  "sha256Pattern = matches (replicate 64 is_hex)"

definition actorPattern :: "string \<Rightarrow> bool" where
  "actorPattern s = (case s of [] \<Rightarrow> False
     | c # cs \<Rightarrow> (is_digit c \<or> is_lower c \<or> is_upper c) \<and> length cs \<le> 127 \<and>
         list_all (\<lambda>d. is_digit d \<or> is_lower d \<or> is_upper d \<or> d \<in> set ''._:@-'') cs)"

definition integerPattern :: "string \<Rightarrow> bool" where
  "integerPattern s \<longleftrightarrow> s \<noteq> [] \<and> list_all is_digit s \<and> (s = ''0'' \<or> hd s \<noteq> CHR ''0'')"

fun decimal :: "int \<Rightarrow> string \<Rightarrow> int" where
  "decimal acc [] = acc"
| "decimal acc (c # cs) = decimal (10 * acc + (of_char c - 48)) cs"

text \<open>
  \<open>timestampPattern\<close>, then \<open>time.Parse(time.RFC3339Nano, s)\<close>: calendar fields in range,
  days counted with the Gregorian leap rule.
\<close>

definition datetime_shape :: "(char \<Rightarrow> bool) list" where
  "datetime_shape = replicate 4 is_digit @ [lit CHR ''-''] @ replicate 2 is_digit @
     [lit CHR ''-''] @ replicate 2 is_digit @ [lit CHR ''T''] @ replicate 2 is_digit @
     [lit CHR '':''] @ replicate 2 is_digit @ [lit CHR '':''] @ replicate 2 is_digit"

definition zone_ok :: "string \<Rightarrow> bool" where
  "zone_ok z \<longleftrightarrow> z = ''Z'' \<or>
     (matches [\<lambda>c. c \<in> set ''+-'', is_digit, is_digit, lit CHR '':'', \<lambda>c. c \<in> set ''012345'', is_digit] z
      \<and> decimal 0 (take 2 (drop 1 z)) \<le> 23)"

definition fraction_zone_ok :: "string \<Rightarrow> bool" where
  "fraction_zone_ok r = (case r of
      c # cs \<Rightarrow> if c = CHR ''.''
        then (let ds = takeWhile is_digit cs
              in 1 \<le> length ds \<and> length ds \<le> 9 \<and> zone_ok (drop (length ds) cs))
        else zone_ok r
    | [] \<Rightarrow> False)"

definition days_in_month :: "int \<Rightarrow> int \<Rightarrow> int" where
  "days_in_month y m =
     (if m = 2 then (if y mod 4 = 0 \<and> (y mod 100 \<noteq> 0 \<or> y mod 400 = 0) then 29 else 28)
      else if m \<in> {4, 6, 9, 11} then 30 else 31)"

definition calendar_ok :: "string \<Rightarrow> bool" where
  "calendar_ok s = (let y = decimal 0 (take 4 s); mo = decimal 0 (take 2 (drop 5 s));
       d = decimal 0 (take 2 (drop 8 s)); h = decimal 0 (take 2 (drop 11 s));
       mi = decimal 0 (take 2 (drop 14 s)); sec = decimal 0 (take 2 (drop 17 s))
     in 1 \<le> mo \<and> mo \<le> 12 \<and> 1 \<le> d \<and> d \<le> days_in_month y mo \<and> h \<le> 23 \<and> mi \<le> 59 \<and> sec \<le> 59)"

definition timestamp_ok :: "string \<Rightarrow> bool" where
  "timestamp_ok s \<longleftrightarrow> matches datetime_shape (take 19 s) \<and> fraction_zone_ok (drop 19 s) \<and> calendar_ok s"

section \<open>Checker combinators\<close>

text \<open>A \<open>property\<close>: the check of a field and whether the field is optional.\<close>

definition req :: "check \<Rightarrow> check \<times> bool" where "req c = (c, False)"
definition opt :: "check \<Rightarrow> check \<times> bool" where "opt c = (c, True)"

definition object_check :: "(string \<times> check \<times> bool) list \<Rightarrow> check" where
  "object_check fields v = (case v of
      JObj item \<Rightarrow>
        list_all (\<lambda>(k, x). map_of fields k \<noteq> None) item \<and>
        list_all (\<lambda>(k, c, optional). case map_of item k of None \<Rightarrow> optional | Some x \<Rightarrow> c x) fields
    | _ \<Rightarrow> False)"

definition list_check :: "check \<Rightarrow> int \<Rightarrow> check" where
  "list_check c maximum v = (case v of
      JArr items \<Rightarrow> int (length items) \<le> maximum \<and> list_all c items
    | _ \<Rightarrow> False)"

definition union_check :: "check list \<Rightarrow> check" where
  "union_check cs v \<longleftrightarrow> length (filter (\<lambda>c. c v) cs) = 1"

definition stringCheck :: "int \<Rightarrow> int \<Rightarrow> check" where
  "stringCheck lo hi v = (case v of JStr s \<Rightarrow> lo \<le> int (length s) \<and> int (length s) \<le> hi | _ \<Rightarrow> False)"

text \<open>\<open>len([]rune(s))\<close> of a valid UTF-8 string: the bytes that are not continuation bytes.\<close>

definition code_points :: "string \<Rightarrow> int" where
  "code_points s = int (length (filter (\<lambda>c. \<not> (128 \<le> (of_char c :: int) \<and> (of_char c :: int) < 192)) s))"

definition unicodeStringCheck :: "int \<Rightarrow> int \<Rightarrow> int \<Rightarrow> check" where
  "unicodeStringCheck lo hi maxBytes v = (case v of
      JStr s \<Rightarrow> lo \<le> code_points s \<and> code_points s \<le> hi \<and> int (length s) \<le> maxBytes
    | _ \<Rightarrow> False)"

definition enumCheck :: "string list \<Rightarrow> check" where
  "enumCheck values v = (case v of JStr s \<Rightarrow> s \<in> set values | _ \<Rightarrow> False)"

definition jsonInteger :: "json \<Rightarrow> int option" where
  "jsonInteger v = (case v of
      JNum s \<Rightarrow> if integerPattern s \<and> decimal 0 s < 2 ^ 63 then Some (decimal 0 s) else None
    | _ \<Rightarrow> None)"

definition integerCheck :: "bool \<Rightarrow> int \<Rightarrow> check" where
  "integerCheck positive maximum v = (case jsonInteger v of
      None \<Rightarrow> False
    | Some n \<Rightarrow> 0 \<le> n \<and> n \<le> maximum \<and> \<not> (positive \<and> n = 0))"

definition safeInteger :: check where "safeInteger = integerCheck False MaximumSafeInteger"
definition positiveInteger :: check where "positiveInteger = integerCheck True MaximumSafeInteger"

definition booleanCheck :: check where
  "booleanCheck v = (case v of JBool b \<Rightarrow> True | _ \<Rightarrow> False)"

definition uuidCheck :: check where
  "uuidCheck v = (case v of JStr s \<Rightarrow> uuidPattern s | _ \<Rightarrow> False)"

definition sha256Check :: check where
  "sha256Check v = (case v of JStr s \<Rightarrow> sha256Pattern s | _ \<Rightarrow> False)"

definition schemaSHA256Check :: check where
  "schemaSHA256Check v \<longleftrightarrow> v = JStr SchemaSHA256"

definition actorCheck :: check where
  "actorCheck v = (case v of JStr s \<Rightarrow> actorPattern s | _ \<Rightarrow> False)"

definition timestampCheck :: check where
  "timestampCheck v = (case v of JStr s \<Rightarrow> timestamp_ok s | _ \<Rightarrow> False)"

definition nullCheck :: check where "nullCheck v \<longleftrightarrow> v = JNull"

definition nullable :: "check \<Rightarrow> check" where "nullable c = union_check [c, nullCheck]"

section \<open>Rules of the wire types\<close>

definition obj :: "(string \<times> check \<times> bool) list \<Rightarrow> check" where "obj = object_check"

definition targetNode :: check where "targetNode = obj [(''nodeId'', req uuidCheck)]"
definition targetDialog :: check where
  "targetDialog = obj [(''nodeId'', req uuidCheck), (''dialogId'', req uuidCheck)]"
definition targetSteer :: check where
  "targetSteer = obj [(''nodeId'', req uuidCheck), (''dialogId'', req uuidCheck),
     (''attemptId'', req uuidCheck), (''messageId'', req uuidCheck)]"
definition targetRequest :: check where
  "targetRequest = obj [(''nodeId'', req uuidCheck), (''requestId'', req uuidCheck)]"
definition targetAttempt :: check where
  "targetAttempt = obj [(''nodeId'', req uuidCheck), (''attemptId'', req uuidCheck)]"
definition targetApproval :: check where
  "targetApproval = obj [(''nodeId'', req uuidCheck), (''approvalId'', req uuidCheck), (''attemptId'', req uuidCheck)]"
definition targetInput :: check where
  "targetInput = obj [(''nodeId'', req uuidCheck), (''inputRequestId'', req uuidCheck), (''attemptId'', req uuidCheck)]"
definition emptyObject :: check where "emptyObject = obj []"

text \<open>\<open>commandRules\<close>: target, expected and payload of each command kind.\<close>

fun commandRules :: "CommandKind \<Rightarrow> check \<times> check \<times> check" where
  "commandRules CommandDialogCreate = (targetNode, obj [(''registryVersion'', req safeInteger)],
     obj [(''title'', opt (stringCheck 1 200))])"
| "commandRules CommandDialogDelete = (targetDialog, obj [(''dialogVersion'', req safeInteger)], emptyObject)"
| "commandRules CommandMessageEnqueue = (targetDialog, obj [(''dialogVersion'', req safeInteger)],
     obj [(''text'', req (stringCheck 1 MaximumMessageBytes))])"
| "commandRules CommandMessageSteer = (targetSteer,
     obj [(''attemptGeneration'', req safeInteger), (''messageVersion'', req safeInteger)], emptyObject)"
| "commandRules CommandRequestCancel = (targetRequest, obj [(''requestVersion'', req safeInteger)], emptyObject)"
| "commandRules CommandAttemptStop = (targetAttempt, obj [(''attemptGeneration'', req safeInteger)], emptyObject)"
| "commandRules CommandQueueResume = (targetNode, obj [(''queueVersion'', req safeInteger)], emptyObject)"
| "commandRules CommandAttemptRetry = (targetAttempt, obj [(''attemptGeneration'', req safeInteger)],
     obj [(''acknowledgeKnownEffects'', req booleanCheck)])"
| "commandRules CommandApprovalRespond = (targetApproval,
     obj [(''approvalVersion'', req safeInteger), (''attemptGeneration'', req safeInteger)],
     obj [(''decision'', req (enumCheck [''allow_once'', ''deny''])), (''actionHash'', req sha256Check)])"
| "commandRules CommandInputRespond = (targetInput,
     obj [(''inputVersion'', req safeInteger), (''attemptGeneration'', req safeInteger)],
     obj [(''text'', req (stringCheck 1 MaximumMessageBytes))])"

fun receiptReferences :: "CommandKind \<Rightarrow> check" where
  "receiptReferences CommandDialogCreate = obj [(''dialogId'', req uuidCheck)]"
| "receiptReferences CommandDialogDelete = obj [(''dialogId'', req uuidCheck)]"
| "receiptReferences CommandMessageEnqueue =
     obj [(''dialogId'', req uuidCheck), (''messageId'', req uuidCheck), (''requestId'', req uuidCheck)]"
| "receiptReferences CommandMessageSteer =
     obj [(''dialogId'', req uuidCheck), (''messageId'', req uuidCheck), (''attemptId'', req uuidCheck)]"
| "receiptReferences CommandRequestCancel = obj [(''requestId'', req uuidCheck)]"
| "receiptReferences CommandAttemptStop = obj [(''attemptId'', req uuidCheck)]"
| "receiptReferences CommandQueueResume = obj [(''nodeId'', req uuidCheck)]"
| "receiptReferences CommandAttemptRetry = obj [(''priorAttemptId'', req uuidCheck), (''requestId'', req uuidCheck)]"
| "receiptReferences CommandApprovalRespond = obj [(''approvalId'', req uuidCheck), (''attemptId'', req uuidCheck)]"
| "receiptReferences CommandInputRespond =
     obj [(''inputRequestId'', req uuidCheck), (''attemptId'', req uuidCheck), (''messageId'', req uuidCheck)]"

definition blockedReasonNames :: "string list" where
  "blockedReasonNames = [''engine_unavailable'', ''auth_unavailable'', ''quota_exhausted'',
     ''policy_unavailable'', ''capability_missing'', ''storage_unavailable'', ''execution_unknown'',
     ''adapter_protocol'', ''operator_pause'']"

definition nodeStateCheck :: check where
  "nodeStateCheck = obj [
     (''transportAvailability'', req (enumCheck [''online'', ''stale'', ''offline''])),
     (''engineReadiness'', req (enumCheck [''ready'', ''blocked'', ''unknown''])),
     (''occupancy'', req (enumCheck [''idle'', ''active'', ''unknown''])),
     (''queuePaused'', req booleanCheck), (''queueVersion'', req safeInteger),
     (''pendingCount'', req safeInteger),
     (''blockedReasons'', req (list_check (enumCheck blockedReasonNames) 16)),
     (''activeAttemptId'', req (nullable uuidCheck))]"

definition dialogCheck :: check where
  "dialogCheck = obj [(''dialogId'', req uuidCheck), (''version'', req safeInteger),
     (''title'', opt (stringCheck 1 200)), (''createdAt'', req timestampCheck)]"

definition requestStatusNames :: "string list" where
  "requestStatusNames = [''queued'', ''cancelled'', ''dispatching'', ''active'', ''completed'',
     ''failed'', ''interrupted'', ''unknown'']"

definition request_fields :: "check \<Rightarrow> (string \<times> check \<times> bool) list" where
  "request_fields status = [(''requestId'', req uuidCheck), (''dialogId'', req uuidCheck),
     (''inputMessageId'', req uuidCheck), (''queueSequence'', req positiveInteger),
     (''version'', req safeInteger), (''status'', req status)]"

definition requestCheck :: check where "requestCheck = obj (request_fields (enumCheck requestStatusNames))"
definition pendingRequestCheck :: check where "pendingRequestCheck = obj (request_fields (enumCheck [''queued'']))"

definition usageCheck :: check where
  "usageCheck = obj [(''source'', req (enumCheck [''per_attempt'', ''cumulative_process''])),
     (''inputTokens'', req safeInteger), (''outputTokens'', req safeInteger), (''totalTokens'', req safeInteger)]"

definition effectNames :: "string list" where "effectNames = [''none'', ''known'', ''unknown'']"

definition attemptCheck :: check where
  "attemptCheck = obj [(''attemptId'', req uuidCheck), (''dialogId'', req uuidCheck),
     (''requestId'', req uuidCheck), (''generation'', req positiveInteger), (''version'', req safeInteger),
     (''state'', req (enumCheck [''dispatching'', ''running'', ''waiting_input'', ''stopping'',
        ''completed'', ''failed'', ''interrupted'', ''unknown''])),
     (''effectStatus'', req (enumCheck effectNames)),
     (''startedAt'', opt timestampCheck), (''finishedAt'', opt timestampCheck)]"

definition inlineSafeContent :: check where
  "inlineSafeContent = obj [(''kind'', req (enumCheck [''inline''])),
     (''content'', req (stringCheck 0 MaximumMessageBytes)),
     (''redaction'', req (enumCheck [''none'', ''applied''])), (''truncated'', req booleanCheck)]"

definition artifactSafeContent :: check where
  "artifactSafeContent = obj [(''kind'', req (enumCheck [''artifact''])), (''artifactId'', req uuidCheck),
     (''sizeBytes'', req (integerCheck False MaximumArtifactBytes)), (''sha256'', req sha256Check),
     (''redaction'', req (enumCheck [''none'', ''applied''])), (''truncated'', req booleanCheck)]"

definition unavailableSafeContent :: check where
  "unavailableSafeContent = obj [(''kind'', req (enumCheck [''unavailable''])),
     (''reason'', req (enumCheck [''not_observed'', ''provider_redacted'', ''output_limit'', ''unmapped''])),
     (''redaction'', req (enumCheck [''none'', ''applied'', ''unknown''])), (''truncated'', req booleanCheck)]"

definition safeContentCheck :: check where
  "safeContentCheck = union_check [inlineSafeContent, artifactSafeContent, unavailableSafeContent]"

definition attemptOutputCheck :: check where
  "attemptOutputCheck = union_check [
     obj [(''kind'', req (enumCheck [''message''])), (''assistantMessageId'', req uuidCheck)],
     obj [(''kind'', req (enumCheck [''empty'']))]]"

definition finishReasonNames :: "string list" where
  "finishReasonNames = [''complete'', ''length'', ''cancelled'', ''error'']"

definition dispositionNames :: "string list" where
  "dispositionNames = [''queued'', ''steer_pending'', ''applied'', ''cancelled'', ''unknown'']"

definition userHistoryCheck :: check where
  "userHistoryCheck = obj [(''messageId'', req uuidCheck), (''role'', req (enumCheck [''user''])),
     (''dialogId'', req uuidCheck), (''sequence'', req positiveInteger), (''version'', req safeInteger),
     (''createdAt'', req timestampCheck), (''text'', req (stringCheck 1 MaximumMessageBytes)),
     (''disposition'', req (enumCheck dispositionNames)), (''commandId'', req uuidCheck), (''requestId'', req uuidCheck)]"

definition assistantHistoryCheck :: check where
  "assistantHistoryCheck = obj [(''messageId'', req uuidCheck), (''role'', req (enumCheck [''assistant''])),
     (''dialogId'', req uuidCheck), (''sequence'', req positiveInteger), (''version'', req safeInteger),
     (''createdAt'', req timestampCheck), (''attemptId'', req uuidCheck), (''content'', req safeContentCheck),
     (''finishReason'', req (enumCheck finishReasonNames))]"

definition historyCheck :: check where "historyCheck = union_check [userHistoryCheck, assistantHistoryCheck]"

text \<open>\<open>eventPayloadChecks\<close>: the payload of each event type.\<close>

definition eventPayloadChecks :: "(string \<times> check) list" where
  "eventPayloadChecks = [
    (''node.state_changed'', nodeStateCheck),
    (''dialog.deleted'', obj [(''dialogId'', req uuidCheck)]),
    (''queue.changed'', obj [(''queueVersion'', req safeInteger), (''pendingCount'', req safeInteger),
       (''activeAttemptId'', req (nullable uuidCheck)), (''queuePaused'', req booleanCheck)]),
    (''message.accepted'', obj [(''dialogId'', req uuidCheck), (''messageId'', req uuidCheck),
       (''requestId'', req uuidCheck), (''sequence'', req positiveInteger), (''disposition'', req (enumCheck [''queued'']))]),
    (''message.disposition_changed'', obj [(''messageId'', req uuidCheck), (''from'', req (enumCheck dispositionNames)),
       (''to'', req (enumCheck dispositionNames)),
       (''reasonCode'', req (enumCheck [''request_dispatched'', ''steer_requested'', ''steer_applied'',
          ''steer_fallback'', ''steer_unknown'', ''request_cancelled'', ''reconciled'']))]),
    (''attempt.dispatching'', obj [(''requestId'', req uuidCheck), (''generation'', req positiveInteger),
       (''contextBoundaryMessageId'', req uuidCheck), (''policyRevision'', req (stringCheck 1 200)), (''policyHash'', req sha256Check)]),
    (''attempt.started'', obj [(''requestId'', req uuidCheck), (''generation'', req positiveInteger)]),
    (''attempt.waiting_input'', obj [(''requestId'', req uuidCheck), (''generation'', req positiveInteger),
       (''waitKind'', req (enumCheck [''approval'', ''input'']))]),
    (''attempt.stop_requested'', obj [(''generation'', req positiveInteger), (''commandId'', req uuidCheck)]),
    (''attempt.completed'', obj [(''generation'', req positiveInteger), (''output'', req attemptOutputCheck), (''usage'', opt usageCheck)]),
    (''attempt.failed'', obj [(''generation'', req positiveInteger),
       (''failureClass'', req (enumCheck [''task'', ''node'', ''policy'', ''protocol''])),
       (''errorCode'', req (stringCheck 1 200)), (''safeMessage'', req (stringCheck 1 500)),
       (''retryable'', req booleanCheck), (''effectStatus'', req (enumCheck effectNames))]),
    (''attempt.interrupted'', obj [(''generation'', req positiveInteger),
       (''reason'', req (enumCheck [''owner_stop'', ''provider_interrupt'', ''process_exit''])),
       (''effectStatus'', req (enumCheck effectNames))]),
    (''attempt.unknown'', obj [(''generation'', req positiveInteger),
       (''reason'', req (enumCheck [''dispatch_uncertain'', ''cancel_unconfirmed'', ''adapter_protocol'',
          ''provider_state'', ''unmapped_event''])), (''effectStatus'', req (enumCheck effectNames))]),
    (''assistant.delta'', obj [(''messageId'', req uuidCheck), (''deltaIndex'', req safeInteger), (''content'', req safeContentCheck)]),
    (''assistant.message'', obj [(''messageId'', req uuidCheck), (''content'', req safeContentCheck),
       (''finishReason'', req (enumCheck finishReasonNames))]),
    (''tool.started'', obj [(''callId'', req uuidCheck), (''toolName'', req (stringCheck 1 200)),
       (''actionHash'', req sha256Check), (''input'', req safeContentCheck)]),
    (''tool.output'', obj [(''callId'', req uuidCheck), (''chunkIndex'', req safeInteger),
       (''stream'', req (enumCheck [''stdout'', ''stderr'', ''result'', ''diagnostic''])), (''output'', req safeContentCheck)]),
    (''tool.completed'', obj [(''callId'', req uuidCheck), (''status'', req (enumCheck [''succeeded'', ''failed'', ''unknown''])),
       (''result'', req safeContentCheck), (''effectStatus'', req (enumCheck effectNames)), (''effectRef'', opt (stringCheck 1 200))]),
    (''approval.requested'', obj [(''approvalId'', req uuidCheck), (''callId'', req uuidCheck), (''actionHash'', req sha256Check),
       (''safePrompt'', req (unicodeStringCheck 1 2000 8192)), (''approvalVersion'', req safeInteger)]),
    (''approval.resolved'', obj [(''approvalId'', req uuidCheck), (''decision'', req (enumCheck [''allow_once'', ''deny''])),
       (''actorId'', req actorCheck), (''approvalVersion'', req safeInteger)]),
    (''input.requested'', obj [(''inputRequestId'', req uuidCheck), (''prompt'', req safeContentCheck), (''inputVersion'', req safeInteger)]),
    (''input.resolved'', obj [(''inputRequestId'', req uuidCheck), (''messageId'', req uuidCheck), (''inputVersion'', req safeInteger)]),
    (''artifact.available'', obj [(''artifactId'', req uuidCheck), (''callId'', opt uuidCheck), (''name'', req (stringCheck 1 200)),
       (''mediaType'', req (stringCheck 1 200)), (''sizeBytes'', req (integerCheck False MaximumArtifactBytes)),
       (''sha256'', req sha256Check), (''redaction'', req (enumCheck [''none'', ''applied''])), (''truncated'', req booleanCheck)]),
    (''history.gap'', obj [(''expectedSeq'', req positiveInteger), (''availableFromSeq'', req positiveInteger),
       (''reason'', req (enumCheck [''storage_corruption'', ''identity_changed'', ''unmapped_event'']))])]"

definition isAttemptScoped :: "string \<Rightarrow> bool" where
  "isAttemptScoped t \<longleftrightarrow>
     list_ex (\<lambda>p. take (length p) t = p) [''attempt.'', ''assistant.'', ''tool.'', ''approval.'', ''input.''] \<or>
     t = ''artifact.available''"

section \<open>Validators\<close>

definition validatePins :: "json \<Rightarrow> bool" where
  "validatePins v \<longleftrightarrow>
     (case jfield v ''protocolVersion'' of None \<Rightarrow> False | Some p \<Rightarrow> jsonInteger p = Some ProtocolVersion) \<and>
     jfield v ''schemaId'' = Some (JStr SchemaID)"

definition pin_fields :: "(string \<times> check \<times> bool) list" where
  "pin_fields = [(''protocolVersion'', req safeInteger), (''schemaId'', req (stringCheck 1 100))]"

definition validateCommand :: check where
  "validateCommand v \<longleftrightarrow> validatePins v \<and>
     (case jfield v ''kind'' of
        Some (JStr kind) \<Rightarrow> (case kind_of kind of
            None \<Rightarrow> False
          | Some k \<Rightarrow> (case commandRules k of (target, expected, payload) \<Rightarrow>
              obj (pin_fields @ [(''commandId'', req uuidCheck), (''kind'', req (enumCheck [kind])),
                (''target'', req target), (''expected'', req expected), (''payload'', req payload)]) v))
      | _ \<Rightarrow> False)"

definition validateReceipt :: check where
  "validateReceipt v \<longleftrightarrow> validatePins v \<and>
     (case jfield v ''commandKind'' of
        Some (JStr kind) \<Rightarrow> (case kind_of kind of
            None \<Rightarrow> False
          | Some k \<Rightarrow> obj (pin_fields @ [(''commandId'', req uuidCheck), (''commandKind'', req (enumCheck [kind])),
              (''receiptId'', req uuidCheck), (''acceptedAt'', req timestampCheck), (''nodeId'', req uuidCheck),
              (''eventSeq'', req positiveInteger),
              (''result'', req (enumCheck (if k = CommandDialogDelete then [''deleted''] else [''admitted'', ''applied'']))),
              (''blockingReason'', opt (enumCheck blockedReasonNames)),
              (''references'', req (receiptReferences k))]) v)
      | _ \<Rightarrow> False)"

definition errorCodes :: "string list" where
  "errorCodes = [''invalid'', ''no_session'', ''forbidden'', ''not_found'', ''stale'', ''id_conflict'',
     ''too_large'', ''queue_full'', ''node_unavailable'', ''not_durable'', ''unsupported'',
     ''protocol_mismatch'', ''schema_mismatch'']"

definition errorStates :: "string list" where
  "errorStates = [''queued'', ''active'', ''paused'', ''blocked'', ''terminal'', ''unknown'']"

definition validateError :: check where
  "validateError v \<longleftrightarrow> validatePins v \<and>
     obj (pin_fields @ [(''code'', req (enumCheck errorCodes)), (''safeMessage'', req (stringCheck 1 500)),
       (''retryable'', req booleanCheck), (''correlationId'', req uuidCheck),
       (''currentVersion'', opt safeInteger), (''currentState'', opt (enumCheck errorStates))]) v \<and>
     (jfield v ''retryable'' = Some (JBool True)) =
       (jfield v ''code'' \<in> {Some (JStr ''queue_full''), Some (JStr ''node_unavailable''), Some (JStr ''not_durable'')})"

definition event_fields :: "string \<Rightarrow> check \<Rightarrow> (string \<times> check \<times> bool) list" where
  "event_fields typeName payload = pin_fields @ [(''nodeId'', req uuidCheck), (''seq'', req positiveInteger),
     (''epoch'', req positiveInteger), (''type'', req (enumCheck [typeName])), (''entityId'', req uuidCheck),
     (''entityVersion'', req safeInteger), (''observedAt'', req timestampCheck), (''sourceAt'', opt timestampCheck),
     (''completeness'', req (enumCheck [''complete''])), (''payload'', req payload)] @
     (if isAttemptScoped typeName then [(''attemptId'', req uuidCheck), (''dialogId'', req uuidCheck)]
      else if typeName = ''dialog.deleted'' then [(''dialogId'', req uuidCheck)] else [])"

definition validateEvent :: check where
  "validateEvent v \<longleftrightarrow> validatePins v \<and>
     (case jfield v ''type'' of
        Some (JStr typeName) \<Rightarrow> (case map_of eventPayloadChecks typeName of
            None \<Rightarrow> False
          | Some payload \<Rightarrow> obj (event_fields typeName payload) v)
      | _ \<Rightarrow> False)"

text \<open>\<open>x["k"].(type)\<close> readers used after a shape check has passed.\<close>

definition jarr :: "json option \<Rightarrow> json list" where
  "jarr x = (case x of Some (JArr items) \<Rightarrow> items | _ \<Rightarrow> [])"

definition jint :: "json option \<Rightarrow> int" where
  "jint x = (case x of Some n \<Rightarrow> (case jsonInteger n of Some i \<Rightarrow> i | None \<Rightarrow> 0) | None \<Rightarrow> 0)"

definition jstr :: "json option \<Rightarrow> string" where
  "jstr x = (case x of Some (JStr s) \<Rightarrow> s | _ \<Rightarrow> [])"

definition jbool :: "json option \<Rightarrow> bool" where
  "jbool x = (case x of Some (JBool b) \<Rightarrow> b | _ \<Rightarrow> False)"

definition jsub :: "json option \<Rightarrow> string \<Rightarrow> json option" where
  "jsub x k = (case x of Some v \<Rightarrow> jfield v k | None \<Rightarrow> None)"

text \<open>The loop over the pending queue: the identities seen so far and the last sequence.\<close>

fun pending_loop :: "json list \<Rightarrow> json option list \<Rightarrow> json option list \<Rightarrow> int list \<Rightarrow> bool" where
  "pending_loop [] rs ms ss = True"
| "pending_loop (q # qs) rs ms ss =
     (let r = jfield q ''requestId''; m = jfield q ''inputMessageId''; n = jint (jfield q ''queueSequence'')
      in r \<notin> set rs \<and> m \<notin> set ms \<and> n \<notin> set ss \<and> (case ss of [] \<Rightarrow> True | p # _ \<Rightarrow> p < n) \<and>
         pending_loop qs (r # rs) (m # ms) (n # ss))"

definition validateSnapshot :: check where
  "validateSnapshot v \<longleftrightarrow> validatePins v \<and>
     obj (pin_fields @ [(''nodeId'', req uuidCheck), (''epoch'', req positiveInteger), (''stateVersion'', req safeInteger),
       (''lastEventSeq'', req safeInteger), (''capturedAt'', req timestampCheck), (''node'', req nodeStateCheck),
       (''pendingQueue'', req (list_check pendingRequestCheck MaximumPageSize)),
       (''activeAttempt'', req (nullable attemptCheck)), (''completeness'', req (enumCheck [''complete'']))]) v \<and>
     jint (jsub (jfield v ''node'') ''pendingCount'') = int (length (jarr (jfield v ''pendingQueue''))) \<and>
     pending_loop (jarr (jfield v ''pendingQueue'')) [] [] [] \<and>
     (if jfield v ''activeAttempt'' = Some JNull then jsub (jfield v ''node'') ''activeAttemptId'' = Some JNull
      else jsub (jfield v ''node'') ''activeAttemptId'' = jsub (jfield v ''activeAttempt'') ''attemptId'')"

definition page_fields :: "string \<Rightarrow> check \<Rightarrow> (string \<times> check \<times> bool) list" where
  "page_fields pageType itemCheck = pin_fields @ [(''nodeId'', req uuidCheck), (''epoch'', req positiveInteger),
     (''snapshotStateVersion'', req safeInteger), (''lastEventSeq'', req safeInteger),
     (''items'', req (list_check itemCheck MaximumPageSize)),
     (''nextCursor'', req (nullable (stringCheck 1 MaximumCursorBytes))), (''pageType'', req (enumCheck [pageType]))]"

definition validatePage :: "string \<Rightarrow> check \<Rightarrow> check" where
  "validatePage pageType itemCheck v \<longleftrightarrow> validatePins v \<and> obj (page_fields pageType itemCheck) v"

text \<open>Every item carries the page's own value of each scope field.\<close>

definition items_match :: "string list \<Rightarrow> json \<Rightarrow> bool" where
  "items_match keys v \<longleftrightarrow>
     list_all (\<lambda>item. list_all (\<lambda>k. jfield item k = jfield v k) keys) (jarr (jfield v ''items''))"

definition scopedEvent :: check where
  "scopedEvent item = (case item of
      JObj _ \<Rightarrow> isAttemptScoped (jstr (jfield item ''type'')) \<and> validateEvent item
    | _ \<Rightarrow> False)"

definition validateEventPage :: check where
  "validateEventPage v \<longleftrightarrow> validatePins v \<and>
     obj (page_fields ''events'' scopedEvent @ [(''dialogId'', req uuidCheck), (''attemptId'', req uuidCheck)]) v \<and>
     items_match [''nodeId'', ''epoch'', ''dialogId'', ''attemptId''] v"

definition validateHistoryPage :: check where
  "validateHistoryPage v \<longleftrightarrow> validatePins v \<and>
     obj (page_fields ''history'' historyCheck @ [(''dialogId'', req uuidCheck)]) v \<and>
     items_match [''dialogId''] v"

definition validateAttemptPage :: check where
  "validateAttemptPage v \<longleftrightarrow> validatePins v \<and>
     obj (page_fields ''attempts'' attemptCheck @ [(''dialogId'', req uuidCheck), (''requestId'', req uuidCheck)]) v \<and>
     items_match [''dialogId'', ''requestId''] v"

definition capabilitiesCheck :: check where
  "capabilitiesCheck = obj (map (\<lambda>k. (k, req (enumCheck [''unsupported'', ''declared'', ''verified''])))
     [''chat'', ''events'', ''tool_results'', ''cancel'', ''steer_attached'', ''session_resume'', ''policy_enforcement''])"

definition adapterIdentityCheck :: check where
  "adapterIdentityCheck = union_check [
     obj [(''kind'', req (enumCheck [''cursor''])), (''version'', req (enumCheck [''1.0.31'']))],
     obj [(''kind'', req (enumCheck [''codex''])), (''version'', req (enumCheck [''0.155.1'']))]]"

definition validateAdmissionProfile :: check where
  "validateAdmissionProfile = obj [(''schemaId'', req (enumCheck [AdmissionSchemaID])), (''ownerId'', req actorCheck),
     (''nodeId'', req uuidCheck), (''registrationRevision'', req positiveInteger), (''identityEpoch'', req positiveInteger),
     (''wireSchemaSHA256'', req schemaSHA256Check), (''adapter'', req adapterIdentityCheck),
     (''readiness'', req (enumCheck [''ready'', ''blocked'', ''unknown''])),
     (''capabilities'', req (obj (map (\<lambda>k. (k, req booleanCheck))
        [''profile'', ''native_epoch'', ''policy_enforcement'', ''history'', ''facts'', ''durable_receipts'',
         ''replica_export'', ''replica_import'', ''asset_export'', ''asset_import'', ''scoped_quiesce'',
         ''ownership_release'', ''target_reservation''])))]"

definition validateNodeIdentity :: check where
  "validateNodeIdentity v \<longleftrightarrow> validatePins v \<and>
     obj (pin_fields @ [(''schemaSHA256'', req schemaSHA256Check), (''nodeId'', req uuidCheck),
       (''registryVersion'', req safeInteger), (''identityEpoch'', req positiveInteger),
       (''adapter'', req adapterIdentityCheck), (''capabilities'', req capabilitiesCheck)]) v"

definition validateAttemptRead :: check where
  "validateAttemptRead v \<longleftrightarrow> validatePins v \<and>
     obj (pin_fields @ [(''nodeId'', req uuidCheck), (''epoch'', req positiveInteger),
       (''stateVersion'', req safeInteger), (''attempt'', req attemptCheck)]) v"

definition validateCommandStatus :: check where
  "validateCommandStatus v \<longleftrightarrow> validatePins v \<and>
     obj (pin_fields @ [(''nodeId'', req uuidCheck), (''commandId'', req uuidCheck),
       (''canonicalPayloadHash'', req sha256Check), (''status'', req (enumCheck [''accepted''])),
       (''receipt'', req validateReceipt)]) v \<and>
     jsub (jfield v ''receipt'') ''nodeId'' = jfield v ''nodeId'' \<and>
     jsub (jfield v ''receipt'') ''commandId'' = jfield v ''commandId''"

definition validateHealthLive :: check where
  "validateHealthLive v \<longleftrightarrow> validatePins v \<and>
     obj (pin_fields @ [(''status'', req (enumCheck [''live''])), (''processStartedAt'', req timestampCheck)]) v"

definition jvalues :: "json option \<Rightarrow> json list" where
  "jvalues x = (case x of Some (JObj m) \<Rightarrow> map snd m | _ \<Rightarrow> [])"

definition validateHealthReady :: check where
  "validateHealthReady v \<longleftrightarrow> validatePins v \<and>
     obj (pin_fields @ [(''checkedAt'', req timestampCheck), (''identity'', req validateNodeIdentity),
       (''readiness'', req (enumCheck [''ready'', ''blocked'', ''unknown''])),
       (''blockedReasons'', req (list_check (enumCheck blockedReasonNames) 16))]) v \<and>
     (jfield v ''readiness'' = Some (JStr ''ready'') \<longrightarrow>
        jarr (jfield v ''blockedReasons'') = [] \<and>
        list_all (\<lambda>s. s = JStr ''verified'') (jvalues (jsub (jfield v ''identity'') ''capabilities'')))"

definition validateArtifactMetadata :: check where
  "validateArtifactMetadata v \<longleftrightarrow> validatePins v \<and>
     obj (pin_fields @ [(''nodeId'', req uuidCheck), (''dialogId'', req uuidCheck), (''attemptId'', req uuidCheck),
       (''artifactId'', req uuidCheck), (''callId'', opt uuidCheck), (''name'', req (stringCheck 1 200)),
       (''mediaType'', req (stringCheck 1 200)), (''sizeBytes'', req (integerCheck False MaximumArtifactBytes)),
       (''sha256'', req sha256Check), (''redaction'', req (enumCheck [''none'', ''applied''])),
       (''truncated'', req booleanCheck), (''disposition'', req (enumCheck [''inline'', ''attachment'']))]) v"

definition Validate :: "string \<Rightarrow> check" where
  "Validate wireType v =
     (case v of JObj _ \<Rightarrow>
       (if wireType = ''command'' then validateCommand v
        else if wireType = ''receipt'' then validateReceipt v
        else if wireType = ''error'' then validateError v
        else if wireType = ''event'' then validateEvent v
        else if wireType = ''snapshot'' then validateSnapshot v
        else if wireType = ''dialogPage'' then validatePage ''dialogs'' dialogCheck v
        else if wireType = ''historyPage'' then validateHistoryPage v
        else if wireType = ''requestPage'' then validatePage ''requests'' requestCheck v
        else if wireType = ''attemptPage'' then validateAttemptPage v
        else if wireType = ''eventPage'' then validateEventPage v
        else if wireType = ''attemptRead'' then validateAttemptRead v
        else if wireType = ''commandStatus'' then validateCommandStatus v
        else if wireType = ''nodeIdentity'' then validateNodeIdentity v
        else if wireType = ''admissionProfile'' then validateAdmissionProfile v
        else if wireType = ''healthLive'' then validateHealthLive v
        else if wireType = ''healthReady'' then validateHealthReady v
        else if wireType = ''artifactMetadata'' then validateArtifactMetadata v
        else False)
     | _ \<Rightarrow> False)"

section \<open>Numbers and canonical form\<close>

text \<open>\<open>json.Marshal\<close> of an \<open>int64\<close>.\<close>

definition digit :: "int \<Rightarrow> char" where "digit n = char_of (48 + n)"

function digits_of :: "int \<Rightarrow> string" where
  "digits_of n = (if n < 10 then [digit n] else digits_of (n div 10) @ [digit (n mod 10)])"
  by auto
termination by (relation "measure nat") auto

declare digits_of.simps [simp del]

definition jnum :: "int \<Rightarrow> json" where
  "jnum n = JNum (if n < 0 then CHR ''-'' # digits_of (- n) else digits_of n)"

text \<open>\<open>appendJSONString\<close>, byte by byte: bytes of a multi-byte rune are copied as they are.\<close>

definition hex_digit :: "int \<Rightarrow> char" where
  "hex_digit n = (if n < 10 then char_of (48 + n) else char_of (87 + n))"

definition escape_char :: "char \<Rightarrow> string" where
  "escape_char c = (let n = (of_char c :: int) in
     if n = 34 \<or> n = 92 then [CHR 0x5C, c]
     else if n = 8 then [CHR 0x5C, CHR ''b'']
     else if n = 12 then [CHR 0x5C, CHR ''f'']
     else if n = 10 then [CHR 0x5C, CHR ''n'']
     else if n = 13 then [CHR 0x5C, CHR ''r'']
     else if n = 9 then [CHR 0x5C, CHR ''t'']
     else if n < 32 then [CHR 0x5C, CHR ''u'', CHR ''0'', CHR ''0'', hex_digit (n div 16), hex_digit (n mod 16)]
     else [c])"

definition appendJSONString :: "string \<Rightarrow> string" where
  "appendJSONString s = [CHR 0x22] @ concat (map escape_char s) @ [CHR 0x22]"

fun commas :: "string list \<Rightarrow> string" where
  "commas [] = []"
| "commas [s] = s"
| "commas (s # t # ss) = s @ [CHR '',''] @ commas (t # ss)"

fun opt_list :: "'a option list \<Rightarrow> 'a list option" where
  "opt_list [] = Some []"
| "opt_list (None # xs) = None"
| "opt_list (Some x # xs) = map_option (Cons x) (opt_list xs)"

fun appendCanonical :: "json \<Rightarrow> string option" where
  "appendCanonical JNull = Some ''null''"
| "appendCanonical (JBool b) = Some (if b then ''true'' else ''false'')"
| "appendCanonical (JNum s) =
     (if s = ''-0'' then Some s
      else case jsonInteger (JNum s) of None \<Rightarrow> None
      | Some n \<Rightarrow> if n \<le> MaximumSafeInteger then Some s else None)"
| "appendCanonical (JStr s) = Some (appendJSONString s)"
| "appendCanonical (JArr items) =
     map_option (\<lambda>ss. [CHR ''[''] @ commas ss @ [CHR '']'']) (opt_list (map appendCanonical items))"
| "appendCanonical (JObj m) =
     map_option (\<lambda>ss. [CHR 0x7B] @ commas ss @ [CHR 0x7D])
       (opt_list (map (\<lambda>(k, s). map_option (\<lambda>t. appendJSONString k @ [CHR '':''] @ t) s)
          (sort_key fst (map (\<lambda>(k, x). (k, appendCanonical x)) m))))"

text \<open>
  \<open>CanonicalCommand\<close>: the canonical text of a valid command and its digest. The digest is
  \<open>hex(sha256(text))\<close>; the hash function is the parameter \<open>H\<close>.
\<close>

definition CanonicalCommand :: "(string \<Rightarrow> string) \<Rightarrow> json \<Rightarrow> (string \<times> string) option" where
  "CanonicalCommand H v =
     (if \<not> Validate ''command'' v then None
      else map_option (\<lambda>c. (c, H c)) (appendCanonical v))"

text \<open>
  \<open>json.Marshal\<close> of a struct, given as the document the node builds with its members in the order of
  the struct's fields (it is never applied to a document decoded from bytes): like the canonical text
  but in member order, with \<open><\<close>, \<open>>\<close>, \<open>&\<close> and the line separators U+2028 and U+2029 escaped.
\<close>

fun go_escape :: "string \<Rightarrow> string" where
  "go_escape [] = []"
| "go_escape (c # cs) =
     (if c \<in> {CHR 0x3C, CHR 0x3E, CHR 0x26} then [CHR 0x5C, CHR ''u'', CHR ''0'', CHR ''0'',
          hex_digit ((of_char c :: int) div 16), hex_digit ((of_char c :: int) mod 16)] @ go_escape cs
      else if c = CHR 0xE2 \<and> take 2 cs \<in> {[CHR 0x80, CHR 0xA8], [CHR 0x80, CHR 0xA9]} then
          [CHR 0x5C, CHR ''u'', CHR ''2'', CHR ''0'', CHR ''2'', if take 2 cs = [CHR 0x80, CHR 0xA8] then CHR ''8'' else CHR ''9'']
          @ go_escape (drop 2 cs)
      else escape_char c @ go_escape cs)"

definition go_quote :: "string \<Rightarrow> string" where
  "go_quote s = [CHR 0x22] @ go_escape s @ [CHR 0x22]"

fun go_marshal :: "json \<Rightarrow> string" where
  "go_marshal JNull = ''null''"
| "go_marshal (JBool b) = (if b then ''true'' else ''false'')"
| "go_marshal (JNum s) = s"
| "go_marshal (JStr s) = go_quote s"
| "go_marshal (JArr items) = [CHR ''[''] @ commas (map go_marshal items) @ [CHR '']'']"
| "go_marshal (JObj m) = [CHR 0x7B] @ commas (map (\<lambda>(k, x). go_quote k @ [CHR '':''] @ go_marshal x) m) @ [CHR 0x7D]"

section \<open>Lemmas\<close>

lemma of_char_digit: "0 \<le> n \<Longrightarrow> n < 10 \<Longrightarrow> (of_char (digit n) :: int) = 48 + n"
  by (simp add: digit_def)

lemma is_digit_digit: "0 \<le> n \<Longrightarrow> n < 10 \<Longrightarrow> is_digit (digit n)"
  by (simp add: is_digit_def of_char_digit)

lemma decimal_append: "decimal a (s @ t) = decimal (decimal a s) t"
  by (induction s arbitrary: a) auto

lemma decimal_digits_of: "0 \<le> n \<Longrightarrow> decimal 0 (digits_of n) = n"
proof (induction n rule: digits_of.induct)
  case (1 n)
  then show ?case
    by (cases "n < 10") (simp_all add: digits_of.simps [of n] decimal_append of_char_digit)
qed

lemma digits_of_digits: "0 \<le> n \<Longrightarrow> list_all is_digit (digits_of n)"
proof (induction n rule: digits_of.induct)
  case (1 n)
  then show ?case
    by (cases "n < 10") (simp_all add: digits_of.simps [of n] is_digit_digit)
qed

lemma digits_of_nonempty [simp]: "digits_of n \<noteq> []"
  by (subst digits_of.simps) simp

lemma digit_inj: "0 \<le> m \<Longrightarrow> m < 10 \<Longrightarrow> 0 \<le> n \<Longrightarrow> n < 10 \<Longrightarrow> digit m = digit n \<longleftrightarrow> m = n"
  by (metis add_left_cancel of_char_digit)

lemma hd_digits_of: "0 < n \<Longrightarrow> hd (digits_of n) \<noteq> digit 0"
proof (induction n rule: digits_of.induct)
  case (1 n)
  show ?case
  proof (cases "n < 10")
    case True
    with 1 show ?thesis by (simp add: digits_of.simps [of n] digit_inj)
  next
    case False
    with 1 show ?thesis by (simp add: digits_of.simps [of n] hd_append)
  qed
qed

lemma integerPattern_digits_of: "0 \<le> n \<Longrightarrow> integerPattern (digits_of n)"
proof -
  assume n: "0 \<le> n"
  have d0: "digit 0 = CHR ''0''" by code_simp
  moreover have "digits_of 0 = ''0''" by (simp add: digits_of.simps d0)
  ultimately show ?thesis
    using hd_digits_of [of n] n by (cases "n = 0") (auto simp: integerPattern_def digits_of_digits is_digit_def)
qed

lemma jsonInteger_jnum: "0 \<le> n \<Longrightarrow> n < 2 ^ 63 \<Longrightarrow> jsonInteger (jnum n) = Some n"
  by (simp add: jsonInteger_def jnum_def integerPattern_digits_of decimal_digits_of)

lemma jsonInteger_negative: "n < 0 \<Longrightarrow> jsonInteger (jnum n) = None"
  by (simp add: jsonInteger_def jnum_def integerPattern_def is_digit_def)

lemma jsonInteger_huge: "2 ^ 63 \<le> n \<Longrightarrow> jsonInteger (jnum n) = None"
  by (simp add: jsonInteger_def jnum_def decimal_digits_of)

lemma integerCheck_jnum:
  "maximum < 2 ^ 63 \<Longrightarrow>
     integerCheck positive maximum (jnum n) \<longleftrightarrow> 0 \<le> n \<and> n \<le> maximum \<and> (positive \<longrightarrow> n \<noteq> 0)"
  by (cases "n < 0"; cases "n < 2 ^ 63")
    (auto simp: integerCheck_def jsonInteger_jnum jsonInteger_negative jsonInteger_huge)

lemma safeInteger_jnum: "safeInteger (jnum n) \<longleftrightarrow> 0 \<le> n \<and> n \<le> MaximumSafeInteger"
  by (simp add: safeInteger_def integerCheck_jnum MaximumSafeInteger_def)

lemma positiveInteger_jnum: "positiveInteger (jnum n) \<longleftrightarrow> 0 < n \<and> n \<le> MaximumSafeInteger"
  by (auto simp: positiveInteger_def integerCheck_jnum MaximumSafeInteger_def)

text \<open>An object check is strict: only the listed keys, every required key.\<close>

lemma object_check_keys:
  "object_check fields v \<Longrightarrow> jfield v k = Some x \<Longrightarrow> map_of fields k \<noteq> None"
  by (cases v) (auto simp: object_check_def list_all_iff dest: map_of_SomeD)

lemma object_check_field:
  "object_check fields v \<Longrightarrow> distinct (map fst fields) \<Longrightarrow> (k, c, optional) \<in> set fields \<Longrightarrow>
     (case jfield v k of None \<Rightarrow> optional | Some x \<Rightarrow> c x)"
  by (cases v) (fastforce simp: object_check_def list_all_iff)+

lemma kind_of_text: "kind_of s = Some k \<longleftrightarrow> s = kind_text k"
proof
  assume "kind_of s = Some k"
  then show "s = kind_text k" by (auto simp: kind_of_def find_Some_iff)
next
  assume "s = kind_text k"
  then show "kind_of s = Some k" by (cases k) (simp_all add: kind_of_def all_kinds_def)
qed

text \<open>The canonical text does not depend on the order in which a client wrote the members.\<close>

lemma sort_key_fst_mset:
  assumes "mset xs = mset ys" and "distinct (map fst ys)"
  shows "sort_key fst xs = sort_key fst ys"
proof (rule sort_key_inj_key_eq)
  show "mset xs = mset (sort_key fst ys)" using assms(1) by simp
  have "set xs = set ys" using assms(1) by (rule mset_eq_setD)
  then show "inj_on fst (set xs)" using assms(2) by (simp add: distinct_map)
qed simp

lemma appendCanonical_perm:
  assumes "mset xs = mset ys" and "distinct (map fst ys)"
  shows "appendCanonical (JObj xs) = appendCanonical (JObj ys)"
proof -
  let ?f = "\<lambda>(k, x). (k, appendCanonical x)"
  have "mset (map ?f xs) = mset (map ?f ys)" using assms(1) by simp
  moreover have "distinct (map fst (map ?f ys))" using assms(2) by (simp add: comp_def split_beta)
  ultimately have "sort_key fst (map ?f xs) = sort_key fst (map ?f ys)" by (rule sort_key_fst_mset)
  then show ?thesis by simp
qed

end
