(* ===== verification/Store.thy ===== *)
theory Store
  imports Wire
begin

text \<open>
  The durable store of \<open>runtime/schema.go\<close> and \<open>runtime/sql.go\<close>: one record per table row,
  the database, the transaction (the database together with the in-memory \<open>durableState\<close> that
  \<open>loadState\<close> read, the supply of fresh identities and the clock reading), and one primitive
  per SQL statement shape the runtime uses. Each primitive carries the schema's constraints
  (primary keys, unique indexes, foreign keys) and its quiescence triggers.

  Columns that no modelled operation writes (\<open>engine_session_ref\<close>, \<open>policy_revision\<close> of
  dialogs, \<open>engine_ref\<close>) are left out. JSON columns hold the decoded value. The clock is read
  once per transaction. The bound \<open>state_version <= 2^53-1\<close> of the quiescence table is
  checked after the bumps of a statement, which is the same as checking after each of them since
  they only increase.
\<close>

section \<open>Row types\<close>

datatype role = RoleUser | RoleAssistant

datatype disposition = DQueued | DSteerPending | DApplied | DCancelled | DUnknown

datatype request_status =
    RQueued | RCancelled | RDispatching | RActive | RCompleted | RFailed | RInterrupted | RUnknown

datatype attempt_state =
    ADispatching | ARunning | AWaitingInput | AStopping | ACompleted | AFailed | AInterrupted | AUnknown

datatype control_status = CPending | CInflight | CAcknowledged | CRejected | CUnknown

datatype interaction_status = IPending | IResponding | IResolved | IUnknown

datatype hold_scope = ScopeNode | ScopeDialog

fun disposition_text :: "disposition \<Rightarrow> string" where
  "disposition_text DQueued = ''queued''"
| "disposition_text DSteerPending = ''steer_pending''"
| "disposition_text DApplied = ''applied''"
| "disposition_text DCancelled = ''cancelled''"
| "disposition_text DUnknown = ''unknown''"

fun request_status_text :: "request_status \<Rightarrow> string" where
  "request_status_text RQueued = ''queued''"
| "request_status_text RCancelled = ''cancelled''"
| "request_status_text RDispatching = ''dispatching''"
| "request_status_text RActive = ''active''"
| "request_status_text RCompleted = ''completed''"
| "request_status_text RFailed = ''failed''"
| "request_status_text RInterrupted = ''interrupted''"
| "request_status_text RUnknown = ''unknown''"

fun attempt_state_text :: "attempt_state \<Rightarrow> string" where
  "attempt_state_text ADispatching = ''dispatching''"
| "attempt_state_text ARunning = ''running''"
| "attempt_state_text AWaitingInput = ''waiting_input''"
| "attempt_state_text AStopping = ''stopping''"
| "attempt_state_text ACompleted = ''completed''"
| "attempt_state_text AFailed = ''failed''"
| "attempt_state_text AInterrupted = ''interrupted''"
| "attempt_state_text AUnknown = ''unknown''"

fun interaction_text :: "interaction_status \<Rightarrow> string" where
  "interaction_text IPending = ''pending''"
| "interaction_text IResponding = ''responding''"
| "interaction_text IResolved = ''resolved''"
| "interaction_text IUnknown = ''unknown''"

text \<open>\<open>WHERE state IN('dispatching','running','waiting_input','stopping','unknown')\<close>.\<close>

definition is_active :: "attempt_state \<Rightarrow> bool" where
  "is_active s \<longleftrightarrow> s \<in> {ADispatching, ARunning, AWaitingInput, AStopping, AUnknown}"

definition is_terminal :: "attempt_state \<Rightarrow> bool" where
  "is_terminal s \<longleftrightarrow> s \<in> {ACompleted, AFailed, AInterrupted}"

lemma is_active_terminal: "is_active s \<longleftrightarrow> \<not> is_terminal s"
  by (cases s) (simp_all add: is_active_def is_terminal_def)

lemma is_active_simps [simp]:
  "is_active ADispatching" "is_active ARunning" "is_active AWaitingInput" "is_active AStopping"
  "is_active AUnknown" "\<not> is_active ACompleted" "\<not> is_active AFailed" "\<not> is_active AInterrupted"
  by (simp_all add: is_active_def)

record SafeContent =
  Kind :: string
  Content :: string
  ArtifactID :: string
  SizeBytes :: "int option"
  SHA256 :: string
  Reason :: string
  Redaction :: string
  Truncated :: bool

record durableState =
  NodeID :: string
  OwnerID :: string
  RegistryVersion :: int
  Epoch :: int
  StateVersion :: int
  LastEventSeq :: int
  QueueVersion :: int
  QueuePaused :: bool
  TransportAvailability :: string
  EngineReadiness :: string
  Occupancy :: string
  ActiveAttemptID :: "string option"
  PendingCount :: int
  BlockedReasons :: "string list"
  NextQueueSequence :: int
  NextMessageSequence :: int

record dialog_row =
  dialog_id :: string
  d_node_id :: string
  d_owner_id :: string
  d_version :: int
  d_title :: "string option"
  d_created_at :: string

record message_row =
  message_id :: string
  m_dialog_id :: string
  m_sequence :: int
  m_version :: int
  m_role :: role
  m_text :: "string option"
  m_content :: "SafeContent option"
  m_disposition :: "disposition option"
  m_command_id :: "string option"
  m_request_id :: "string option"
  m_attempt_id :: "string option"
  m_finish_reason :: "string option"
  m_created_at :: string

record request_row =
  request_id :: string
  r_dialog_id :: string
  r_input_message_id :: string
  r_queue_sequence :: int
  r_version :: int
  r_status :: request_status
  r_created_at :: string
  r_updated_at :: string

record attempt_row =
  attempt_id :: string
  a_node_id :: string
  a_dialog_id :: string
  a_request_id :: string
  a_generation :: int
  a_version :: int
  a_state :: attempt_state
  a_effect_status :: string
  a_context_boundary :: string
  a_policy_hash :: string
  a_started_at :: "string option"
  a_finished_at :: "string option"
  a_output_bytes :: int

record command_row =
  command_id :: string
  c_kind :: CommandKind
  c_canonical :: json
  c_hash :: string
  c_receipt :: json
  c_accepted_at :: string
  c_event_seq :: int

datatype action_kind = ActionDispatchStart | ActionCommand CommandKind

record actionPayload =
  Generation :: int
  DialogID :: string
  RequestID :: string
  Text :: string
  ApprovalID :: string
  ApprovalVersion :: int
  CallID :: string
  ActionHash :: string
  Decision :: string
  InputRequestID :: string
  InputVersion :: int

record control_row =
  k_command_id :: string
  k_kind :: action_kind
  k_attempt_id :: string
  k_message_id :: "string option"
  k_actor_id :: "string option"
  k_payload :: actionPayload
  k_status :: control_status

record event_row =
  e_node_id :: string
  e_seq :: int
  e_epoch :: int
  e_json :: json
  e_attempt_id :: "string option"
  e_dialog_id :: "string option"
  e_projection_key :: "string option"
  e_projection_hash :: "string option"
  e_late :: bool
  e_created_at :: string

record tool_call_row =
  call_id :: string
  t_attempt_id :: string
  t_action_hash :: string
  t_version :: int
  t_status :: string
  t_safe_input :: SafeContent
  t_safe_result :: "SafeContent option"
  t_effect_ref :: "string option"

record approval_row =
  approval_id :: string
  p_attempt_id :: string
  p_call_id :: string
  p_action_hash :: string
  p_version :: int
  p_status :: interaction_status
  p_decision :: "string option"
  p_actor_id :: "string option"

record input_row =
  input_request_id :: string
  i_attempt_id :: string
  i_version :: int
  i_status :: interaction_status
  i_prompt :: SafeContent
  i_response_message_id :: "string option"

record artifact_row =
  artifact_id :: string
  f_dialog_id :: string
  f_attempt_id :: string
  f_call_id :: "string option"
  f_name :: string
  f_media_type :: string
  f_size_bytes :: int
  f_sha256 :: string
  f_redaction :: string
  f_truncated :: bool
  f_disposition :: string
  f_relative_path :: string

record late_row =
  l_attempt_id :: string
  l_generation :: int
  l_kind :: string
  l_event_seq :: int
  l_observed_at :: string
  l_projection_key :: "string option"
  l_projection_hash :: "string option"
  l_output_bytes :: int

record PolicySnapshot =
  Revision :: string
  PolicyContent :: string
  ContentHash :: string
  ToolManifest :: string
  ToolManifestHash :: string
  ApprovalMode :: string
  EffectiveHash :: string

record hold_row =
  operation_id :: string
  h_node_id :: string
  h_node_epoch :: int
  h_binding_generation :: int
  h_scope :: hold_scope
  h_dialog_id :: "string option"
  h_hold_version :: int
  h_scope_revision :: int
  h_canonical :: json
  h_hash :: string
  h_receipt :: json
  h_installed_at :: string

record outcome_row =
  o_operation_id :: string
  o_action :: string
  o_canonical :: json
  o_hash :: string
  o_receipt :: json
  o_scope_revision :: int
  o_released_at :: string

record rejection_row =
  x_command_id :: string
  x_kind :: CommandKind
  x_canonical :: json
  x_hash :: string
  x_receipt :: json
  x_rejected_at :: string
  x_hold_operation_id :: string

record logical_delete_row =
  y_operation_id :: string
  y_node_request_hash :: string
  y_coordinator_request_hash :: string
  y_command_id :: string
  y_logical_dialog_id :: string
  y_node_dialog_id :: string
  y_binding_version :: int
  y_hold_version :: int
  y_hold_scope_revision :: int
  y_receipt :: json
  y_deleted_at :: string

record quiescence_row =
  scope_key :: string
  q_state_version :: int
  q_queue_revision :: int

section \<open>Database and transaction\<close>

record database =
  node_state :: durableState
  dialogs :: "dialog_row list"
  messages :: "message_row list"
  requests :: "request_row list"
  attempts :: "attempt_row list"
  commands :: "command_row list"
  control_actions :: "control_row list"
  events :: "event_row list"
  tool_calls :: "tool_call_row list"
  approvals :: "approval_row list"
  input_requests :: "input_row list"
  artifacts :: "artifact_row list"
  late_observations :: "late_row list"
  policy_snapshots :: "PolicySnapshot list"
  hold_clock :: int
  hold_scope_revisions :: "(string \<times> int) list"
  administrative_holds :: "hold_row list"
  hold_outcomes :: "outcome_row list"
  command_rejections :: "rejection_row list"
  logical_delete_receipts :: "logical_delete_row list"
  quiescence :: "quiescence_row list"

record txn = database +
  st :: durableState
  idsrc :: "string list"
  now :: string

type_synonym 'a dbtx = "(txn, 'a) tx"

text \<open>\<open>BeginTx\<close> and \<open>loadState\<close>; \<open>Commit\<close> keeps the tables.\<close>

definition begin_tx :: "database \<Rightarrow> string list \<Rightarrow> string \<Rightarrow> txn" where
  "begin_tx db ids t0 = database.extend db \<lparr>st = node_state db, idsrc = ids, now = t0\<rparr>"

definition commit_tx :: "txn \<Rightarrow> database" where
  "commit_tx t = database.truncate t"

text \<open>
  A whole transaction: the result and the database after it. An error rolls back. \<open>commit_ok\<close>
  is the outcome of \<open>tx.Commit()\<close> (and of any SQLite I/O before it, whose failure also
  rolls everything back).
\<close>

definition run_tx :: "'a dbtx \<Rightarrow> string list \<Rightarrow> string \<Rightarrow> bool \<Rightarrow> database \<Rightarrow> (tx_error + 'a) \<times> database" where
  "run_tx m ids t0 commit_ok db = (case m (begin_tx db ids t0) of
      Inl e \<Rightarrow> (Inl e, db)
    | Inr (a, t) \<Rightarrow> if commit_ok then (Inr a, commit_tx t) else (Inl (Internal ''commit''), db))"

section \<open>Quiescence triggers\<close>

definition bump :: "(string \<Rightarrow> bool) \<Rightarrow> int \<Rightarrow> quiescence_row list \<Rightarrow> quiescence_row list" where
  "bump P dq rows = update_rows (\<lambda>r. P (scope_key r))
     (\<lambda>r. r\<lparr>q_state_version := q_state_version r + 1, q_queue_revision := q_queue_revision r + dq\<rparr>) rows"

definition dialog_scope :: "string \<Rightarrow> string" where
  "dialog_scope d = ''dialog:'' @ d"

definition scope_hit :: "string option \<Rightarrow> string \<Rightarrow> bool" where
  "scope_hit d k \<longleftrightarrow> k = ''node'' \<or> (case d of None \<Rightarrow> False | Some i \<Rightarrow> k = dialog_scope i)"

definition quiescence_ok :: "quiescence_row list \<Rightarrow> bool" where
  "quiescence_ok rows \<longleftrightarrow> list_all (\<lambda>r. 1 \<le> q_state_version r \<and> q_state_version r \<le> MaximumSafeInteger \<and>
      1 \<le> q_queue_revision r \<and> q_queue_revision r \<le> MaximumSafeInteger) rows"

definition check_quiescence :: "unit dbtx" where
  "check_quiescence = tcheck (\<lambda>t. quiescence_ok (quiescence t)) (Constraint ''quiescence_scope_revisions'')"

text \<open>\<open>SELECT dialog_id FROM attempts WHERE attempt_id=?\<close>\<close>

definition attempt_dialog :: "string \<Rightarrow> txn \<Rightarrow> string option" where
  "attempt_dialog a t = map_option a_dialog_id (lookup_row attempt_id a (attempts t))"

text \<open>One trigger firing per affected row, each bumping the rows its scopes hit.\<close>

fun bump_each :: "('r \<Rightarrow> string option) \<Rightarrow> int \<Rightarrow> 'r list \<Rightarrow> quiescence_row list \<Rightarrow> quiescence_row list" where
  "bump_each f dq [] q = q"
| "bump_each f dq (r # rs) q = bump_each f dq rs (bump (scope_hit (f r)) dq q)"

section \<open>Statements\<close>

fun upsert :: "'k \<Rightarrow> 'v \<Rightarrow> ('k \<times> 'v) list \<Rightarrow> ('k \<times> 'v) list" where
  "upsert k v [] = [(k, v)]"
| "upsert k v ((x, w) # xs) = (if x = k then (k, v) # xs else (x, w) # upsert k v xs)"

lemma map_of_upsert: "map_of (upsert k v xs) = (map_of xs)(k \<mapsto> v)"
  by (induction k v xs rule: upsert.induct) (auto simp: fun_eq_iff)

definition newID :: "string dbtx" where
  "newID t = (case idsrc t of [] \<Rightarrow> Inl (Internal ''id source'') | i # is \<Rightarrow> Inr (i, t\<lparr>idsrc := is\<rparr>))"

definition mod_state :: "(durableState \<Rightarrow> durableState) \<Rightarrow> unit dbtx" where
  "mod_state f = tmod (st_update f)"

definition insert_dialog :: "dialog_row \<Rightarrow> unit dbtx" where
  "insert_dialog d = tseq
     (tcheck (\<lambda>t. \<not> exists_row (\<lambda>x. dialog_id x = dialog_id d) (dialogs t) \<and>
        \<not> exists_row (\<lambda>q. scope_key q = dialog_scope (dialog_id d)) (quiescence t)) (Constraint ''dialogs''))
     (tseq (tmod (\<lambda>t. t\<lparr>dialogs := dialogs t @ [d],
        quiescence := bump (scope_hit None) 0 (quiescence t @
          [\<lparr>scope_key = dialog_scope (dialog_id d), q_state_version = 1, q_queue_revision = 1\<rparr>])\<rparr>))
       check_quiescence)"

definition update_dialogs :: "string \<Rightarrow> (dialog_row \<Rightarrow> dialog_row) \<Rightarrow> unit dbtx" where
  "update_dialogs i f = tmod (dialogs_update (update_rows (\<lambda>d. dialog_id d = i) f))"

definition insert_message :: "message_row \<Rightarrow> unit dbtx" where
  "insert_message m = tseq
     (tcheck (\<lambda>t. \<not> exists_row (\<lambda>x. message_id x = message_id m) (messages t) \<and>
        \<not> exists_row (\<lambda>x. m_dialog_id x = m_dialog_id m \<and> m_sequence x = m_sequence m) (messages t) \<and>
        exists_row (\<lambda>d. dialog_id d = m_dialog_id m) (dialogs t)) (Constraint ''messages''))
     (tmod (messages_update (\<lambda>rows. rows @ [m])))"

definition update_messages :: "string \<Rightarrow> (message_row \<Rightarrow> message_row) \<Rightarrow> unit dbtx" where
  "update_messages i f = tmod (messages_update (update_rows (\<lambda>m. message_id m = i) f))"

definition insert_request :: "request_row \<Rightarrow> unit dbtx" where
  "insert_request r = tseq
     (tcheck (\<lambda>t. \<not> exists_row (\<lambda>x. request_id x = request_id r) (requests t) \<and>
        \<not> exists_row (\<lambda>x. r_queue_sequence x = r_queue_sequence r) (requests t) \<and>
        exists_row (\<lambda>d. dialog_id d = r_dialog_id r) (dialogs t) \<and>
        exists_row (\<lambda>m. message_id m = r_input_message_id r) (messages t)) (Constraint ''requests''))
     (tseq (tmod (\<lambda>t. t\<lparr>requests := requests t @ [r],
        quiescence := bump (scope_hit (Some (r_dialog_id r))) 1 (quiescence t)\<rparr>))
       check_quiescence)"

definition request_changed :: "request_row \<Rightarrow> request_row \<Rightarrow> bool" where
  "request_changed old new \<longleftrightarrow> r_status old \<noteq> r_status new \<or>
     r_queue_sequence old \<noteq> r_queue_sequence new \<or> r_version old \<noteq> r_version new"

definition update_requests :: "string \<Rightarrow> (request_row \<Rightarrow> request_row) \<Rightarrow> unit dbtx" where
  "update_requests i f = tseq
     (tmod (\<lambda>t. t\<lparr>requests := update_rows (\<lambda>r. request_id r = i) f (requests t),
        quiescence := bump_each (\<lambda>r. Some (r_dialog_id r)) 1
          (filter (\<lambda>r. request_id r = i \<and> request_changed r (f r)) (requests t)) (quiescence t)\<rparr>))
     check_quiescence"

text \<open>The partial unique index \<open>one_active_attempt\<close>: at most one active attempt per node.\<close>

definition one_active :: "attempt_row list \<Rightarrow> bool" where
  "one_active rows \<longleftrightarrow> distinct (map a_node_id (filter (\<lambda>a. is_active (a_state a)) rows))"

definition insert_attempt :: "attempt_row \<Rightarrow> unit dbtx" where
  "insert_attempt a = tseq
     (tcheck (\<lambda>t. \<not> exists_row (\<lambda>x. attempt_id x = attempt_id a) (attempts t) \<and>
        \<not> exists_row (\<lambda>x. a_request_id x = a_request_id a \<and> a_generation x = a_generation a) (attempts t) \<and>
        one_active (attempts t @ [a]) \<and> 0 \<le> a_output_bytes a \<and>
        exists_row (\<lambda>d. dialog_id d = a_dialog_id a) (dialogs t) \<and>
        exists_row (\<lambda>r. request_id r = a_request_id a) (requests t)) (Constraint ''attempts''))
     (tseq (tmod (\<lambda>t. t\<lparr>attempts := attempts t @ [a],
        quiescence := bump (scope_hit (Some (a_dialog_id a))) 0 (quiescence t)\<rparr>))
       check_quiescence)"

definition update_attempts :: "string \<Rightarrow> (attempt_row \<Rightarrow> attempt_row) \<Rightarrow> unit dbtx" where
  "update_attempts i f = tseq
     (tcheck (\<lambda>t. one_active (update_rows (\<lambda>a. attempt_id a = i) f (attempts t)) \<and>
        list_all (\<lambda>a. 0 \<le> a_output_bytes a) (update_rows (\<lambda>a. attempt_id a = i) f (attempts t)))
        (Constraint ''one_active_attempt''))
     (tseq (tmod (\<lambda>t. t\<lparr>attempts := update_rows (\<lambda>a. attempt_id a = i) f (attempts t),
        quiescence := bump_each (\<lambda>a. Some (a_dialog_id a)) 0
          (filter (\<lambda>a. attempt_id a = i) (attempts t)) (quiescence t)\<rparr>))
       check_quiescence)"

definition insert_command :: "command_row \<Rightarrow> unit dbtx" where
  "insert_command c = tseq
     (tcheck (\<lambda>t. \<not> exists_row (\<lambda>x. command_id x = command_id c) (commands t)) (Constraint ''commands''))
     (tmod (commands_update (\<lambda>rows. rows @ [c])))"

definition insert_control :: "control_row \<Rightarrow> unit dbtx" where
  "insert_control c = tseq
     (tcheck (\<lambda>t. \<not> exists_row (\<lambda>x. k_command_id x = k_command_id c) (control_actions t)) (Constraint ''control_actions''))
     (tseq (tmod (\<lambda>t. t\<lparr>control_actions := control_actions t @ [c],
        quiescence := bump (scope_hit (attempt_dialog (k_attempt_id c) t)) 0 (quiescence t)\<rparr>))
       check_quiescence)"

definition update_control :: "(control_row \<Rightarrow> bool) \<Rightarrow> (control_row \<Rightarrow> control_row) \<Rightarrow> unit dbtx" where
  "update_control P f = tseq
     (tmod (\<lambda>t. t\<lparr>control_actions := update_rows P f (control_actions t),
        quiescence := bump_each (\<lambda>c. attempt_dialog (k_attempt_id c) t) 0
          (filter P (control_actions t)) (quiescence t)\<rparr>))
     check_quiescence"

definition insert_event :: "event_row \<Rightarrow> unit dbtx" where
  "insert_event e = tseq
     (tcheck (\<lambda>t. \<not> exists_row (\<lambda>x. e_node_id x = e_node_id e \<and> e_seq x = e_seq e) (events t)) (Constraint ''events''))
     (tseq (tmod (\<lambda>t. t\<lparr>events := events t @ [e],
        quiescence := bump (scope_hit (e_dialog_id e)) 0 (quiescence t)\<rparr>))
       check_quiescence)"

text \<open>The unique index \<open>one_event_projection\<close> on (attempt, projection key).\<close>

definition projections_unique :: "event_row list \<Rightarrow> bool" where
  "projections_unique rows \<longleftrightarrow> distinct (map (\<lambda>e. (e_attempt_id e, e_projection_key e))
     (filter (\<lambda>e. e_projection_key e \<noteq> None \<and> e_attempt_id e \<noteq> None) rows))"

definition update_events :: "(event_row \<Rightarrow> bool) \<Rightarrow> (event_row \<Rightarrow> event_row) \<Rightarrow> unit dbtx" where
  "update_events P f = tseq
     (tcheck (\<lambda>t. projections_unique (update_rows P f (events t))) (Constraint ''one_event_projection''))
     (tmod (events_update (update_rows P f)))"

definition insert_tool_call :: "tool_call_row \<Rightarrow> unit dbtx" where
  "insert_tool_call c = tseq
     (tcheck (\<lambda>t. \<not> exists_row (\<lambda>x. call_id x = call_id c) (tool_calls t) \<and>
        exists_row (\<lambda>a. attempt_id a = t_attempt_id c) (attempts t)) (Constraint ''tool_calls''))
     (tseq (tmod (\<lambda>t. t\<lparr>tool_calls := tool_calls t @ [c],
        quiescence := bump (scope_hit (attempt_dialog (t_attempt_id c) t)) 0 (quiescence t)\<rparr>))
       check_quiescence)"

definition update_tool_calls :: "string \<Rightarrow> (tool_call_row \<Rightarrow> tool_call_row) \<Rightarrow> unit dbtx" where
  "update_tool_calls i f = tseq
     (tmod (\<lambda>t. t\<lparr>tool_calls := update_rows (\<lambda>c. call_id c = i) f (tool_calls t),
        quiescence := bump_each (\<lambda>c. attempt_dialog (t_attempt_id c) t) 0
          (filter (\<lambda>c. call_id c = i) (tool_calls t)) (quiescence t)\<rparr>))
     check_quiescence"

definition insert_approval :: "approval_row \<Rightarrow> unit dbtx" where
  "insert_approval p = tseq
     (tcheck (\<lambda>t. \<not> exists_row (\<lambda>x. approval_id x = approval_id p) (approvals t) \<and>
        exists_row (\<lambda>a. attempt_id a = p_attempt_id p) (attempts t)) (Constraint ''approvals''))
     (tseq (tmod (\<lambda>t. t\<lparr>approvals := approvals t @ [p],
        quiescence := bump (scope_hit (attempt_dialog (p_attempt_id p) t)) 0 (quiescence t)\<rparr>))
       check_quiescence)"

definition update_approvals :: "(approval_row \<Rightarrow> bool) \<Rightarrow> (approval_row \<Rightarrow> approval_row) \<Rightarrow> unit dbtx" where
  "update_approvals P f = tseq
     (tmod (\<lambda>t. t\<lparr>approvals := update_rows P f (approvals t),
        quiescence := bump_each (\<lambda>p. attempt_dialog (p_attempt_id p) t) 0
          (filter P (approvals t)) (quiescence t)\<rparr>))
     check_quiescence"

definition insert_input :: "input_row \<Rightarrow> unit dbtx" where
  "insert_input i = tseq
     (tcheck (\<lambda>t. \<not> exists_row (\<lambda>x. input_request_id x = input_request_id i) (input_requests t) \<and>
        exists_row (\<lambda>a. attempt_id a = i_attempt_id i) (attempts t)) (Constraint ''input_requests''))
     (tseq (tmod (\<lambda>t. t\<lparr>input_requests := input_requests t @ [i],
        quiescence := bump (scope_hit (attempt_dialog (i_attempt_id i) t)) 0 (quiescence t)\<rparr>))
       check_quiescence)"

definition update_inputs :: "(input_row \<Rightarrow> bool) \<Rightarrow> (input_row \<Rightarrow> input_row) \<Rightarrow> unit dbtx" where
  "update_inputs P f = tseq
     (tmod (\<lambda>t. t\<lparr>input_requests := update_rows P f (input_requests t),
        quiescence := bump_each (\<lambda>i. attempt_dialog (i_attempt_id i) t) 0
          (filter P (input_requests t)) (quiescence t)\<rparr>))
     check_quiescence"

definition insert_late :: "late_row \<Rightarrow> unit dbtx" where
  "insert_late l = tseq
     (tcheck (\<lambda>t. 0 \<le> l_output_bytes l \<and> (l_projection_key l = None \<or>
        \<not> exists_row (\<lambda>x. l_attempt_id x = l_attempt_id l \<and> l_projection_key x = l_projection_key l)
           (late_observations t))) (Constraint ''late_observations''))
     (tmod (late_observations_update (\<lambda>rows. rows @ [l])))"

text \<open>\<open>INSERT INTO policy_snapshots ... ON CONFLICT(effective_hash) DO NOTHING\<close>\<close>

definition insert_policy :: "PolicySnapshot \<Rightarrow> unit dbtx" where
  "insert_policy p = tmod (policy_snapshots_update (\<lambda>rows.
     if exists_row (\<lambda>x. EffectiveHash x = EffectiveHash p) rows then rows else rows @ [p]))"

definition insert_hold :: "hold_row \<Rightarrow> unit dbtx" where
  "insert_hold h = tseq
     (tcheck (\<lambda>t. \<not> exists_row (\<lambda>x. operation_id x = operation_id h) (administrative_holds t) \<and>
        \<not> exists_row (\<lambda>x. h_hold_version x = h_hold_version h) (administrative_holds t) \<and>
        ((h_scope h = ScopeNode \<and> h_dialog_id h = None) \<or> (h_scope h = ScopeDialog \<and> h_dialog_id h \<noteq> None)) \<and>
        (case h_dialog_id h of None \<Rightarrow> True | Some d \<Rightarrow> exists_row (\<lambda>x. dialog_id x = d) (dialogs t)))
        (Constraint ''administrative_holds''))
     (tseq (tmod (\<lambda>t. t\<lparr>administrative_holds := administrative_holds t @ [h],
        quiescence := bump (scope_hit (h_dialog_id h)) 0 (quiescence t)\<rparr>))
       check_quiescence)"

definition insert_outcome :: "outcome_row \<Rightarrow> unit dbtx" where
  "insert_outcome o' = tseq
     (tcheck (\<lambda>t. \<not> exists_row (\<lambda>x. o_operation_id x = o_operation_id o') (hold_outcomes t) \<and>
        exists_row (\<lambda>h. operation_id h = o_operation_id o') (administrative_holds t) \<and>
        o_action o' \<in> {''release'', ''cancel''} \<and>
        1 \<le> o_scope_revision o' \<and> o_scope_revision o' \<le> MaximumSafeInteger) (Constraint ''administrative_hold_outcomes''))
     (tseq (tmod (\<lambda>t. t\<lparr>hold_outcomes := hold_outcomes t @ [o'],
        quiescence := bump (scope_hit (case lookup_row operation_id (o_operation_id o') (administrative_holds t) of
            None \<Rightarrow> None | Some h \<Rightarrow> h_dialog_id h)) 0 (quiescence t)\<rparr>))
       check_quiescence)"

definition insert_rejection :: "rejection_row \<Rightarrow> unit dbtx" where
  "insert_rejection x = tseq
     (tcheck (\<lambda>t. \<not> exists_row (\<lambda>y. x_command_id y = x_command_id x) (command_rejections t) \<and>
        exists_row (\<lambda>h. operation_id h = x_hold_operation_id x) (administrative_holds t)) (Constraint ''command_rejections''))
     (tmod (command_rejections_update (\<lambda>rows. rows @ [x])))"

text \<open>\<open>INSERT INTO hold_scope_revisions ... ON CONFLICT(scope_key) DO UPDATE\<close> and the fenced updates.\<close>

definition scope_revision :: "string \<Rightarrow> txn \<Rightarrow> int option" where
  "scope_revision k t = map_of (hold_scope_revisions t) k"

definition upsert_scope_revision :: "string \<Rightarrow> int \<Rightarrow> unit dbtx" where
  "upsert_scope_revision k v = tmod (hold_scope_revisions_update (upsert k v))"

definition advance_scope_revision :: "string \<Rightarrow> int \<Rightarrow> int \<Rightarrow> unit dbtx" where
  "advance_scope_revision k old new = tmod (hold_scope_revisions_update
     (map (\<lambda>(x, v). if x = k \<and> v = old then (x, new) else (x, v))))"

definition advance_hold_clock :: "int \<Rightarrow> unit dbtx" where
  "advance_hold_clock old = tmod (\<lambda>t. if hold_clock t = old then t\<lparr>hold_clock := old + 1\<rparr> else t)"

definition insert_logical_delete :: "logical_delete_row \<Rightarrow> unit dbtx" where
  "insert_logical_delete y = tseq
     (tcheck (\<lambda>t. \<not> exists_row (\<lambda>x. y_operation_id x = y_operation_id y) (logical_delete_receipts t) \<and>
        \<not> exists_row (\<lambda>x. y_command_id x = y_command_id y) (logical_delete_receipts t) \<and>
        0 < y_binding_version y \<and> 0 < y_hold_version y \<and> 0 < y_hold_scope_revision y)
        (Constraint ''logical_delete_receipts''))
     (tmod (logical_delete_receipts_update (\<lambda>rows. rows @ [y])))"

text \<open>Rows of captured safe text: inserted, or the usage row of the attempt updated.\<close>

definition change_artifacts :: "(artifact_row list \<Rightarrow> artifact_row list) \<Rightarrow> unit dbtx" where
  "change_artifacts f = tmod (artifacts_update f)"

text \<open>
  \<open>saveState\<close>: the columns of the \<open>UPDATE node_state\<close> (identity, owner and registry version are
  not among them) and the two triggers on that table.
\<close>

definition saved_row :: "durableState \<Rightarrow> durableState \<Rightarrow> durableState" where
  "saved_row old s = s\<lparr>NodeID := NodeID old, OwnerID := OwnerID old, RegistryVersion := RegistryVersion old\<rparr>"

definition saveState :: "unit dbtx" where
  "saveState = tseq
     (tmod (\<lambda>t. t\<lparr>node_state := saved_row (node_state t) (st t),
        quiescence :=
          (let q = (if Epoch (node_state t) \<noteq> Epoch (st t) then bump (\<lambda>_. True) 0 (quiescence t) else quiescence t)
           in if QueuePaused (node_state t) \<noteq> QueuePaused (st t) then bump (\<lambda>_. True) 1 q else q)\<rparr>))
     check_quiescence"

lemmas statement_code [code] =
  insert_dialog_def [unfolded exec_unfold]
  update_dialogs_def [unfolded exec_unfold]
  insert_message_def [unfolded exec_unfold]
  update_messages_def [unfolded exec_unfold]
  insert_request_def [unfolded exec_unfold]
  update_requests_def [unfolded exec_unfold]
  insert_attempt_def [unfolded exec_unfold]
  update_attempts_def [unfolded exec_unfold]
  insert_command_def [unfolded exec_unfold]
  insert_control_def [unfolded exec_unfold]
  update_control_def [unfolded exec_unfold]
  insert_event_def [unfolded exec_unfold]
  update_events_def [unfolded exec_unfold]
  insert_tool_call_def [unfolded exec_unfold]
  update_tool_calls_def [unfolded exec_unfold]
  insert_approval_def [unfolded exec_unfold]
  update_approvals_def [unfolded exec_unfold]
  insert_input_def [unfolded exec_unfold]
  update_inputs_def [unfolded exec_unfold]
  insert_late_def [unfolded exec_unfold]
  insert_policy_def [unfolded exec_unfold]
  insert_hold_def [unfolded exec_unfold]
  insert_outcome_def [unfolded exec_unfold]
  insert_rejection_def [unfolded exec_unfold]
  upsert_scope_revision_def [unfolded exec_unfold]
  advance_scope_revision_def [unfolded exec_unfold]
  advance_hold_clock_def [unfolded exec_unfold]
  change_artifacts_def [unfolded exec_unfold]
  insert_logical_delete_def [unfolded exec_unfold]
  saveState_def [unfolded exec_unfold]
  check_quiescence_def [unfolded exec_unfold]
  mod_state_def [unfolded exec_unfold]

section \<open>The database of a new volume\<close>

text \<open>
  \<open>migrate\<close> on an empty volume: the \<open>node_state\<close> row it inserts, the hold clock and the
  quiescence row of the node scope; every other table is empty.
\<close>

definition new_volume_state :: "string \<Rightarrow> string \<Rightarrow> int \<Rightarrow> durableState" where
  "new_volume_state node owner registryVersion = \<lparr>NodeID = node, OwnerID = owner,
     RegistryVersion = registryVersion, Epoch = 1, StateVersion = 0, LastEventSeq = 0,
     QueueVersion = 0, QueuePaused = False, TransportAvailability = ''online'',
     EngineReadiness = ''blocked'', Occupancy = ''idle'', ActiveAttemptID = None, PendingCount = 0,
     BlockedReasons = [''policy_unavailable''], NextQueueSequence = 1, NextMessageSequence = 1\<rparr>"

definition new_volume :: "string \<Rightarrow> string \<Rightarrow> int \<Rightarrow> database" where
  "new_volume node owner registryVersion = \<lparr>node_state = new_volume_state node owner registryVersion,
     dialogs = [], messages = [], requests = [], attempts = [], commands = [], control_actions = [],
     events = [], tool_calls = [], approvals = [], input_requests = [], artifacts = [],
     late_observations = [], policy_snapshots = [], hold_clock = 1, hold_scope_revisions = [],
     administrative_holds = [], hold_outcomes = [], command_rejections = [],
     logical_delete_receipts = [],
     quiescence = [\<lparr>scope_key = ''node'', q_state_version = 1, q_queue_revision = 1\<rparr>]\<rparr>"

text \<open>A volume for concrete runs.\<close>

definition sample_node :: string where
  "sample_node = ''00000000-0000-4000-8000-000000000001''"

definition sample_volume :: database where
  "sample_volume = new_volume sample_node ''owner'' 1"

section \<open>The tables as keyed tables\<close>

interpretation dialog_tab: keyed_table dialogs "dialogs_update :: _ \<Rightarrow> txn \<Rightarrow> txn" dialog_id
  by unfold_locales simp_all

interpretation message_tab: keyed_table messages "messages_update :: _ \<Rightarrow> txn \<Rightarrow> txn" message_id
  by unfold_locales simp_all

interpretation request_tab: keyed_table requests "requests_update :: _ \<Rightarrow> txn \<Rightarrow> txn" request_id
  by unfold_locales simp_all

interpretation attempt_tab: keyed_table attempts "attempts_update :: _ \<Rightarrow> txn \<Rightarrow> txn" attempt_id
  by unfold_locales simp_all

interpretation command_tab: keyed_table commands "commands_update :: _ \<Rightarrow> txn \<Rightarrow> txn" command_id
  by unfold_locales simp_all

interpretation control_tab: keyed_table control_actions "control_actions_update :: _ \<Rightarrow> txn \<Rightarrow> txn" k_command_id
  by unfold_locales simp_all

interpretation call_tab: keyed_table tool_calls "tool_calls_update :: _ \<Rightarrow> txn \<Rightarrow> txn" call_id
  by unfold_locales simp_all

interpretation approval_tab: keyed_table approvals "approvals_update :: _ \<Rightarrow> txn \<Rightarrow> txn" approval_id
  by unfold_locales simp_all

interpretation input_tab: keyed_table input_requests "input_requests_update :: _ \<Rightarrow> txn \<Rightarrow> txn" input_request_id
  by unfold_locales simp_all

interpretation hold_tab: keyed_table administrative_holds "administrative_holds_update :: _ \<Rightarrow> txn \<Rightarrow> txn" operation_id
  by unfold_locales simp_all

section \<open>Symbolic execution of the statements\<close>

lemma wp_newID [wp]: "wp newID Q t = (\<forall>i is. idsrc t = i # is \<longrightarrow> Q i (t\<lparr>idsrc := is\<rparr>))"
  by (auto simp: newID_def wp_def split: list.split)

lemma st_update_const: "st_update f t = t\<lparr>st := f (st t)\<rparr>"
  by (rule txn.equality) simp_all

lemma wp_mod_state [wp]: "wp (mod_state f) Q t = Q () (t\<lparr>st := f (st t)\<rparr>)"
  by (simp only: mod_state_def wp_tmod) (subst st_update_const, rule refl)

lemma wp_check_quiescence [wp]:
  "wp check_quiescence Q t = (quiescence_ok (quiescence t) \<longrightarrow> Q () t)"
  by (simp add: check_quiescence_def wp)

lemmas statement_defs = insert_dialog_def update_dialogs_def insert_message_def update_messages_def
  insert_request_def update_requests_def insert_attempt_def update_attempts_def insert_command_def
  insert_control_def update_control_def insert_event_def update_events_def insert_tool_call_def
  update_tool_calls_def insert_approval_def update_approvals_def insert_input_def update_inputs_def
  insert_late_def insert_policy_def insert_hold_def insert_outcome_def insert_rejection_def
  upsert_scope_revision_def advance_scope_revision_def advance_hold_clock_def
  insert_logical_delete_def change_artifacts_def saveState_def

lemma begin_commit [simp]: "commit_tx (begin_tx db ids t0) = db"
  by (cases db) (simp add: commit_tx_def begin_tx_def database.defs)

end
