(* ===== verification/Events.thy ===== *)
theory Events
  imports Store
begin

text \<open>
  The event log: the JSON of the wire structs (\<open>contracts/wire/types.go\<close>, with their
  \<open>omitempty\<close> fields), \<open>appendEvent\<close> and the node and queue events of
  \<open>runtime/events.go\<close>, and \<open>errorResult\<close> of \<open>runtime/sql.go\<close>. The lemmas show that
  \<open>appendEvent\<close> keeps the log gapless and every stored event valid, and what a
  transaction that only appends and updates rows keeps.
\<close>

section \<open>JSON of the wire structs\<close>

text \<open>A member with \<open>omitempty\<close>: left out when the string is empty.\<close>

definition omit :: "string \<Rightarrow> string \<Rightarrow> (string \<times> json) list" where
  "omit k v = (if v = [] then [] else [(k, JStr v)])"

definition json_opt_string :: "string option \<Rightarrow> json" where
  "json_opt_string x = (case x of None \<Rightarrow> JNull | Some s \<Rightarrow> JStr s)"

definition json_SafeContent :: "SafeContent \<Rightarrow> json" where
  "json_SafeContent c = JObj ([(''kind'', JStr (Kind c))] @ omit ''content'' (Content c) @
     omit ''artifactId'' (ArtifactID c) @
     (case SizeBytes c of None \<Rightarrow> [] | Some n \<Rightarrow> [(''sizeBytes'', jnum n)]) @
     omit ''sha256'' (SHA256 c) @ omit ''reason'' (Reason c) @
     [(''redaction'', JStr (Redaction c)), (''truncated'', JBool (Truncated c))])"

definition json_MessageAccepted :: "string \<Rightarrow> string \<Rightarrow> string \<Rightarrow> int \<Rightarrow> json" where
  "json_MessageAccepted dialog message request sequence = JObj [(''dialogId'', JStr dialog),
     (''messageId'', JStr message), (''requestId'', JStr request), (''sequence'', jnum sequence),
     (''disposition'', JStr ''queued'')]"

definition json_MessageDisposition :: "string \<Rightarrow> string \<Rightarrow> string \<Rightarrow> string \<Rightarrow> json" where
  "json_MessageDisposition message from to reason = JObj [(''messageId'', JStr message),
     (''from'', JStr from), (''to'', JStr to), (''reasonCode'', JStr reason)]"

definition json_AttemptDispatching :: "string \<Rightarrow> int \<Rightarrow> string \<Rightarrow> string \<Rightarrow> string \<Rightarrow> json" where
  "json_AttemptDispatching request generation boundary revision hash = JObj [(''requestId'', JStr request),
     (''generation'', jnum generation), (''contextBoundaryMessageId'', JStr boundary),
     (''policyRevision'', JStr revision), (''policyHash'', JStr hash)]"

definition json_AttemptStarted :: "string \<Rightarrow> int \<Rightarrow> json" where
  "json_AttemptStarted request generation =
     JObj [(''requestId'', JStr request), (''generation'', jnum generation)]"

definition json_AttemptWaiting :: "string \<Rightarrow> int \<Rightarrow> string \<Rightarrow> json" where
  "json_AttemptWaiting request generation kind = JObj [(''requestId'', JStr request),
     (''generation'', jnum generation), (''waitKind'', JStr kind)]"

definition json_AttemptStopRequested :: "int \<Rightarrow> string \<Rightarrow> json" where
  "json_AttemptStopRequested generation command =
     JObj [(''generation'', jnum generation), (''commandId'', JStr command)]"

record Usage =
  Source :: string
  InputTokens :: int
  OutputTokens :: int
  TotalTokens :: int

definition json_Usage :: "Usage \<Rightarrow> json" where
  "json_Usage u = JObj [(''source'', JStr (Source u)), (''inputTokens'', jnum (InputTokens u)),
     (''outputTokens'', jnum (OutputTokens u)), (''totalTokens'', jnum (TotalTokens u))]"

definition json_AttemptOutput :: "string \<Rightarrow> string \<Rightarrow> json" where
  "json_AttemptOutput kind message = JObj ([(''kind'', JStr kind)] @ omit ''assistantMessageId'' message)"

definition json_AttemptCompleted :: "int \<Rightarrow> json \<Rightarrow> Usage option \<Rightarrow> json" where
  "json_AttemptCompleted generation output usage = JObj ([(''generation'', jnum generation), (''output'', output)] @
     (case usage of None \<Rightarrow> [] | Some u \<Rightarrow> [(''usage'', json_Usage u)]))"

definition json_AttemptFailed :: "int \<Rightarrow> string \<Rightarrow> string \<Rightarrow> string \<Rightarrow> bool \<Rightarrow> string \<Rightarrow> json" where
  "json_AttemptFailed generation class code message retryable effect = JObj [(''generation'', jnum generation),
     (''failureClass'', JStr class), (''errorCode'', JStr code), (''safeMessage'', JStr message),
     (''retryable'', JBool retryable), (''effectStatus'', JStr effect)]"

text \<open>\<open>AttemptInterruptedPayload\<close> and \<open>AttemptUnknownPayload\<close> have the same members.\<close>

definition json_AttemptEnded :: "int \<Rightarrow> string \<Rightarrow> string \<Rightarrow> json" where
  "json_AttemptEnded generation reason effect = JObj [(''generation'', jnum generation),
     (''reason'', JStr reason), (''effectStatus'', JStr effect)]"

definition json_AssistantDelta :: "string \<Rightarrow> int \<Rightarrow> SafeContent \<Rightarrow> json" where
  "json_AssistantDelta message idx content = JObj [(''messageId'', JStr message),
     (''deltaIndex'', jnum idx), (''content'', json_SafeContent content)]"

definition json_AssistantMessage :: "string \<Rightarrow> SafeContent \<Rightarrow> string \<Rightarrow> json" where
  "json_AssistantMessage message content finish = JObj [(''messageId'', JStr message),
     (''content'', json_SafeContent content), (''finishReason'', JStr finish)]"

definition json_ToolStarted :: "string \<Rightarrow> string \<Rightarrow> string \<Rightarrow> SafeContent \<Rightarrow> json" where
  "json_ToolStarted call name hash input = JObj [(''callId'', JStr call), (''toolName'', JStr name),
     (''actionHash'', JStr hash), (''input'', json_SafeContent input)]"

definition json_ToolOutput :: "string \<Rightarrow> int \<Rightarrow> string \<Rightarrow> SafeContent \<Rightarrow> json" where
  "json_ToolOutput call idx stream output = JObj [(''callId'', JStr call), (''chunkIndex'', jnum idx),
     (''stream'', JStr stream), (''output'', json_SafeContent output)]"

definition json_ToolCompleted :: "string \<Rightarrow> string \<Rightarrow> SafeContent \<Rightarrow> string \<Rightarrow> string \<Rightarrow> json" where
  "json_ToolCompleted call status result effect ref = JObj ([(''callId'', JStr call), (''status'', JStr status),
     (''result'', json_SafeContent result), (''effectStatus'', JStr effect)] @ omit ''effectRef'' ref)"

definition json_ApprovalRequested :: "string \<Rightarrow> string \<Rightarrow> string \<Rightarrow> string \<Rightarrow> int \<Rightarrow> json" where
  "json_ApprovalRequested approval call hash prompt version = JObj [(''approvalId'', JStr approval),
     (''callId'', JStr call), (''actionHash'', JStr hash), (''safePrompt'', JStr prompt),
     (''approvalVersion'', jnum version)]"

definition json_ApprovalResolved :: "string \<Rightarrow> string \<Rightarrow> string \<Rightarrow> int \<Rightarrow> json" where
  "json_ApprovalResolved approval decision actor version = JObj [(''approvalId'', JStr approval),
     (''decision'', JStr decision), (''actorId'', JStr actor), (''approvalVersion'', jnum version)]"

definition json_InputRequested :: "string \<Rightarrow> SafeContent \<Rightarrow> int \<Rightarrow> json" where
  "json_InputRequested input prompt version = JObj [(''inputRequestId'', JStr input),
     (''prompt'', json_SafeContent prompt), (''inputVersion'', jnum version)]"

definition json_InputResolved :: "string \<Rightarrow> string \<Rightarrow> int \<Rightarrow> json" where
  "json_InputResolved input message version = JObj [(''inputRequestId'', JStr input),
     (''messageId'', JStr message), (''inputVersion'', jnum version)]"

definition json_ArtifactAvailable :: "artifact_row \<Rightarrow> json" where
  "json_ArtifactAvailable f = JObj ([(''artifactId'', JStr (artifact_id f))] @
     (case f_call_id f of None \<Rightarrow> [] | Some c \<Rightarrow> omit ''callId'' c) @
     [(''name'', JStr (f_name f)), (''mediaType'', JStr (f_media_type f)), (''sizeBytes'', jnum (f_size_bytes f)),
      (''sha256'', JStr (f_sha256 f)), (''redaction'', JStr (f_redaction f)), (''truncated'', JBool (f_truncated f))])"

section \<open>Appending events\<close>

definition nullText :: "string \<Rightarrow> string option" where
  "nullText v = (if v = [] then None else Some v)"

definition event_envelope :: "durableState \<Rightarrow> string \<Rightarrow> string \<Rightarrow> string \<Rightarrow> int \<Rightarrow> string \<Rightarrow> string \<Rightarrow> json \<Rightarrow> json" where
  "event_envelope s observedAt eventType entityID entityVersion attemptID dialogID payload = JObj (
     [(''protocolVersion'', jnum ProtocolVersion), (''schemaId'', JStr SchemaID), (''nodeId'', JStr (NodeID s)),
      (''seq'', jnum (LastEventSeq s)), (''epoch'', jnum (Epoch s)), (''type'', JStr eventType),
      (''entityId'', JStr entityID), (''entityVersion'', jnum entityVersion)] @
     omit ''attemptId'' attemptID @ omit ''dialogId'' dialogID @
     [(''observedAt'', JStr observedAt), (''completeness'', JStr ''complete''), (''payload'', payload)])"

definition appendEvent :: "string \<Rightarrow> string \<Rightarrow> int \<Rightarrow> string \<Rightarrow> string \<Rightarrow> json \<Rightarrow> bool \<Rightarrow> json dbtx" where
  "appendEvent eventType entityID entityVersion attemptID dialogID payload late =
     tseq (mod_state (\<lambda>s. s\<lparr>LastEventSeq := LastEventSeq s + 1\<rparr>))
     (tbind (tgets (\<lambda>t. (st t, now t))) (\<lambda>(s, at).
       (let encoded = event_envelope s at eventType entityID entityVersion attemptID dialogID payload in
        tseq (tguard (Validate ''event'' encoded) (Internal (''internal event '' @ eventType)))
        (tseq (insert_event \<lparr>e_node_id = NodeID s, e_seq = LastEventSeq s, e_epoch = Epoch s,
            e_json = encoded, e_attempt_id = nullText attemptID, e_dialog_id = nullText dialogID,
            e_projection_key = None, e_projection_hash = None, e_late = late, e_created_at = at\<rparr>)
          (tret encoded)))))"

definition nodePayload :: "durableState \<Rightarrow> json" where
  "nodePayload s = JObj [(''transportAvailability'', JStr (TransportAvailability s)),
     (''engineReadiness'', JStr (EngineReadiness s)), (''occupancy'', JStr (Occupancy s)),
     (''queuePaused'', JBool (QueuePaused s)), (''queueVersion'', jnum (QueueVersion s)),
     (''pendingCount'', jnum (PendingCount s)), (''blockedReasons'', JArr (map JStr (BlockedReasons s))),
     (''activeAttemptId'', json_opt_string (ActiveAttemptID s))]"

definition appendNodeEvent :: "unit dbtx" where
  "appendNodeEvent = tbind (tgets st) (\<lambda>s.
     tseq (appendEvent ''node.state_changed'' (NodeID s) (StateVersion s) [] [] (nodePayload s) False) (tret ()))"

definition queuePayload :: "durableState \<Rightarrow> json" where
  "queuePayload s = JObj [(''queueVersion'', jnum (QueueVersion s)), (''pendingCount'', jnum (PendingCount s)),
     (''activeAttemptId'', json_opt_string (ActiveAttemptID s)), (''queuePaused'', JBool (QueuePaused s))]"

definition appendQueueEvent :: "unit dbtx" where
  "appendQueueEvent = tbind (tgets st) (\<lambda>s.
     tseq (appendEvent ''queue.changed'' (NodeID s) (QueueVersion s) [] [] (queuePayload s) False) (tret ()))"

lemmas event_code [code] =
  appendEvent_def [unfolded exec_unfold]
  appendNodeEvent_def [unfolded exec_unfold]
  appendQueueEvent_def [unfolded exec_unfold]

section \<open>Error results\<close>

record Result =
  HTTPStatus :: nat
  Body :: json
  Committed :: bool

text \<open>
  \<open>errorResult\<close>. The correlation identity is the command's, or a fresh one from the identity
  source when the command has none.
\<close>

definition errorResult :: "nat \<Rightarrow> string \<Rightarrow> string \<Rightarrow> string \<Rightarrow> int option \<Rightarrow> string \<Rightarrow> Result" where
  "errorResult status code message correlation currentVersion currentState = \<lparr>HTTPStatus = status,
     Body = JObj ([(''protocolVersion'', jnum ProtocolVersion), (''schemaId'', JStr SchemaID),
       (''code'', JStr code), (''safeMessage'', JStr message),
       (''retryable'', JBool (code = ''queue_full'' \<or> code = ''node_unavailable'' \<or> code = ''not_durable'')),
       (''correlationId'', JStr correlation)] @
       (case currentVersion of None \<Rightarrow> [] | Some v \<Rightarrow> [(''currentVersion'', jnum v)]) @
       omit ''currentState'' currentState), Committed = False\<rparr>"

section \<open>The event log invariant\<close>

text \<open>
  Within a transaction the log holds exactly the sequence numbers 1 to \<open>LastEventSeq\<close>, in
  order, all for this node, and every row's JSON is a valid wire event that carries the row's
  own sequence number.
\<close>

definition event_ok :: "event_row \<Rightarrow> bool" where
  "event_ok e \<longleftrightarrow> Validate ''event'' (e_json e) \<and> jfield (e_json e) ''seq'' = Some (jnum (e_seq e)) \<and>
     jfield (e_json e) ''nodeId'' = Some (JStr (e_node_id e))"

definition log_inv :: "txn \<Rightarrow> bool" where
  "log_inv t \<longleftrightarrow> map e_seq (events t) = [1..LastEventSeq (st t)] \<and> 0 \<le> LastEventSeq (st t) \<and>
     list_all (\<lambda>e. e_node_id e = NodeID (st t) \<and> event_ok e) (events t)"

lemma event_envelope_fields [simp]:
  "jfield (event_envelope s at ty ent ver att dia pay) ''seq'' = Some (jnum (LastEventSeq s))"
  "jfield (event_envelope s at ty ent ver att dia pay) ''nodeId'' = Some (JStr (NodeID s))"
  "jfield (event_envelope s at ty ent ver att dia pay) ''type'' = Some (JStr ty)"
  by (simp_all add: event_envelope_def)

text \<open>One equation describes a run of \<open>appendEvent\<close>.\<close>

definition event_row_of :: "txn \<Rightarrow> string \<Rightarrow> string \<Rightarrow> int \<Rightarrow> string \<Rightarrow> string \<Rightarrow> json \<Rightarrow> bool \<Rightarrow> event_row" where
  "event_row_of t ty ent ver att dia pay late = (let s = (st t)\<lparr>LastEventSeq := LastEventSeq (st t) + 1\<rparr> in
     \<lparr>e_node_id = NodeID s, e_seq = LastEventSeq s, e_epoch = Epoch s,
      e_json = event_envelope s (now t) ty ent ver att dia pay,
      e_attempt_id = nullText att, e_dialog_id = nullText dia,
      e_projection_key = None, e_projection_hash = None, e_late = late, e_created_at = now t\<rparr>)"

lemma event_row_of_simps [simp]:
  "e_seq (event_row_of t ty ent ver att dia pay late) = LastEventSeq (st t) + 1"
  "e_node_id (event_row_of t ty ent ver att dia pay late) = NodeID (st t)"
  "e_attempt_id (event_row_of t ty ent ver att dia pay late) = nullText att"
  "e_dialog_id (event_row_of t ty ent ver att dia pay late) = nullText dia"
  "e_projection_key (event_row_of t ty ent ver att dia pay late) = None"
  "e_projection_hash (event_row_of t ty ent ver att dia pay late) = None"
  by (simp_all add: event_row_of_def Let_def)

lemma event_row_of_ok:
  "Validate ''event'' (e_json (event_row_of t ty ent ver att dia pay late)) \<Longrightarrow>
     event_ok (event_row_of t ty ent ver att dia pay late)"
  by (simp add: event_ok_def event_row_of_def Let_def)

lemma wp_appendEvent:
  "wp (appendEvent ty ent ver att dia pay late) Q t \<longleftrightarrow>
     (let e = event_row_of t ty ent ver att dia pay late;
          q = bump (scope_hit (nullText dia)) 0 (quiescence t) in
      Validate ''event'' (e_json e) \<longrightarrow>
      \<not> exists_row (\<lambda>x. e_node_id x = e_node_id e \<and> e_seq x = e_seq e) (events t) \<longrightarrow> quiescence_ok q \<longrightarrow>
      Q (e_json e) (t\<lparr>st := (st t)\<lparr>LastEventSeq := LastEventSeq (st t) + 1\<rparr>,
                     events := events t @ [e], quiescence := q\<rparr>))"
  by (simp add: appendEvent_def insert_event_def wp event_row_of_def Let_def)
end
