(* ===== verification/Frame.thy ===== *)
theory Frame
  imports Events
begin

text \<open>
  The interface between the runtime's operations and the invariants of the store. An invariant
  of a transaction is a predicate on \<open>txn\<close>; the locale \<open>settled_frame\<close> lists what it must be
  kept by (appending an event, inserting rows, updating rows without touching their keys,
  changing the in-memory state outside the execution slot). \<open>slot_mover\<close> adds the changes that
  move the execution slot and \<open>slot_frame\<close> the creation of attempts, \<open>admission_frame\<close> the durable command outcomes, \<open>release_frame\<close> the
  end of an administrative hold, \<open>barrier_frame\<close> its installation, and \<open>store_frame\<close> is all of them (\<open>slot_holder\<close>: all but the slot, \<open>node_frame\<close>: all but new attempts). Every operation of the runtime is shown once, inside the
  locales, to keep every such invariant. This theory interprets them on the event log, the
  identity of the node, the table keys and the range of the quiescence counters.
\<close>

section \<open>Updates that keep the keys of a row\<close>

definition dialog_update_ok :: "(dialog_row \<Rightarrow> dialog_row) \<Rightarrow> bool" where
  "dialog_update_ok f \<longleftrightarrow> (\<forall>r. dialog_id (f r) = dialog_id r \<and> d_node_id (f r) = d_node_id r \<and> d_owner_id (f r) = d_owner_id r)"

definition message_update_ok :: "(message_row \<Rightarrow> message_row) \<Rightarrow> bool" where
  "message_update_ok f \<longleftrightarrow> (\<forall>r. message_id (f r) = message_id r \<and> m_dialog_id (f r) = m_dialog_id r \<and>
     m_sequence (f r) = m_sequence r \<and> m_role (f r) = m_role r \<and> m_text (f r) = m_text r)"

definition request_update_ok :: "(request_row \<Rightarrow> request_row) \<Rightarrow> bool" where
  "request_update_ok f \<longleftrightarrow> (\<forall>r. request_id (f r) = request_id r \<and> r_dialog_id (f r) = r_dialog_id r \<and>
     r_input_message_id (f r) = r_input_message_id r \<and> r_queue_sequence (f r) = r_queue_sequence r)"

text \<open>
  A control is open until its outcome is known; only open controls are ever updated. No update
  creates a control that starts an attempt or puts an attempt back into dispatching: only dispatch
  does.
\<close>

definition open_control :: "control_row \<Rightarrow> bool" where
  "open_control k \<longleftrightarrow> k_status k \<in> {CPending, CInflight}"

definition starting :: "control_row \<Rightarrow> bool" where
  "starting k \<longleftrightarrow> k_kind k = ActionDispatchStart \<and> open_control k"

definition attempt_update_ok :: "(attempt_row \<Rightarrow> attempt_row) \<Rightarrow> bool" where
  "attempt_update_ok f \<longleftrightarrow> (\<forall>r. attempt_id (f r) = attempt_id r \<and> a_node_id (f r) = a_node_id r \<and>
     a_dialog_id (f r) = a_dialog_id r \<and> a_request_id (f r) = a_request_id r \<and> a_generation (f r) = a_generation r \<and>
     (a_state (f r) = ADispatching \<longrightarrow> a_state r = ADispatching \<and> a_started_at (f r) = a_started_at r))"

definition control_update_ok :: "(control_row \<Rightarrow> control_row) \<Rightarrow> bool" where
  "control_update_ok f \<longleftrightarrow> (\<forall>r. k_command_id (f r) = k_command_id r \<and> k_attempt_id (f r) = k_attempt_id r \<and>
     k_kind (f r) = k_kind r \<and> k_payload (f r) = k_payload r)"

definition open_only :: "(control_row \<Rightarrow> bool) \<Rightarrow> bool" where
  "open_only P \<longleftrightarrow> (\<forall>k. P k \<longrightarrow> open_control k)"

definition event_update_ok :: "(event_row \<Rightarrow> event_row) \<Rightarrow> bool" where
  "event_update_ok f \<longleftrightarrow> (\<forall>r. e_node_id (f r) = e_node_id r \<and> e_seq (f r) = e_seq r \<and> e_json (f r) = e_json r \<and>
     e_attempt_id (f r) = e_attempt_id r \<and> e_dialog_id (f r) = e_dialog_id r)"

definition call_update_ok :: "(tool_call_row \<Rightarrow> tool_call_row) \<Rightarrow> bool" where
  "call_update_ok f \<longleftrightarrow> (\<forall>r. call_id (f r) = call_id r \<and> t_attempt_id (f r) = t_attempt_id r \<and>
     t_action_hash (f r) = t_action_hash r)"

definition approval_update_ok :: "(approval_row \<Rightarrow> approval_row) \<Rightarrow> bool" where
  "approval_update_ok f \<longleftrightarrow> (\<forall>r. approval_id (f r) = approval_id r \<and> p_attempt_id (f r) = p_attempt_id r \<and>
     p_action_hash (f r) = p_action_hash r)"

definition input_update_ok :: "(input_row \<Rightarrow> input_row) \<Rightarrow> bool" where
  "input_update_ok f \<longleftrightarrow> (\<forall>r. input_request_id (f r) = input_request_id r \<and> i_attempt_id (f r) = i_attempt_id r)"

lemmas update_ok_defs = dialog_update_ok_def message_update_ok_def request_update_ok_def
  attempt_update_ok_def control_update_ok_def event_update_ok_def call_update_ok_def
  approval_update_ok_def input_update_ok_def

text \<open>Changes of the in-memory state: identity and sequence number stay, and, for the first, the slot too.\<close>

definition state_update_ok :: "(durableState \<Rightarrow> durableState) \<Rightarrow> bool" where
  "state_update_ok f \<longleftrightarrow> (\<forall>s. NodeID (f s) = NodeID s \<and> OwnerID (f s) = OwnerID s \<and>
     RegistryVersion (f s) = RegistryVersion s \<and> Epoch (f s) = Epoch s \<and> LastEventSeq (f s) = LastEventSeq s)"

definition slot_unchanged :: "(durableState \<Rightarrow> durableState) \<Rightarrow> bool" where
  "slot_unchanged f \<longleftrightarrow> (\<forall>s. ActiveAttemptID (f s) = ActiveAttemptID s)"

lemmas frame_defs = update_ok_defs state_update_ok_def slot_unchanged_def open_only_def open_control_def

section \<open>The interface\<close>

locale settled_frame =
  fixes I :: "txn \<Rightarrow> bool"
  assumes clock_free: "I (t\<lparr>idsrc := ids, now := at\<rparr>) = I t"
    and keep_newID: "keeps I newID"
    and keep_state: "state_update_ok f \<Longrightarrow> slot_unchanged f \<Longrightarrow> keeps I (mod_state f)"
    and keep_event: "keeps I (appendEvent ty ent ver att dia pay late)"
    and keep_bind_event: "event_update_ok g \<Longrightarrow> keeps I (update_events P g)"
    and keep_dialog: "keeps I (insert_dialog d)"
    and keep_dialogs: "dialog_update_ok fd \<Longrightarrow> keeps I (update_dialogs i fd)"
    and keep_message: "keeps I (insert_message m)"
    and keep_messages: "message_update_ok fm \<Longrightarrow> keeps I (update_messages i fm)"
    and keep_request: "keeps I (insert_request r)"
    and keep_requests: "request_update_ok fr \<Longrightarrow> keeps I (update_requests i fr)"
    and keep_attempts_settled:
      "attempt_update_ok fa \<Longrightarrow> I t \<Longrightarrow> lookup_row attempt_id i (attempts t) = Some a \<Longrightarrow>
         is_active (a_state (fa a)) = is_active (a_state a) \<Longrightarrow> wp (update_attempts i fa) (\<lambda>_. I) t"
    and keep_control: "k_kind k \<noteq> ActionDispatchStart \<Longrightarrow> keeps I (insert_control k)"
    and keep_controls: "control_update_ok fk \<Longrightarrow> open_only Pk \<Longrightarrow> keeps I (update_control Pk fk)"
    and keep_call: "keeps I (insert_tool_call tc)"
    and keep_calls: "call_update_ok ft \<Longrightarrow> keeps I (update_tool_calls i ft)"
    and keep_approval: "keeps I (insert_approval p)"
    and keep_approvals: "approval_update_ok fp \<Longrightarrow> keeps I (update_approvals Pp fp)"
    and keep_input: "keeps I (insert_input n)"
    and keep_inputs: "input_update_ok fi \<Longrightarrow> keeps I (update_inputs Pi fi)"
    and keep_late: "keeps I (insert_late l)"
    and keep_policy: "keeps I (insert_policy ps)"
    and keep_artifacts: "keeps I (change_artifacts ff)"
    and keep_save: "keeps I saveState"
begin

lemmas keep_statements = keep_newID keep_state keep_event keep_bind_event keep_dialog keep_dialogs
  keep_message keep_messages keep_request keep_requests
  keep_control keep_controls keep_call keep_calls keep_approval keep_approvals keep_input
  keep_inputs keep_late keep_policy keep_artifacts keep_save

lemma keep_node_event: "keeps I appendNodeEvent"
  unfolding appendNodeEvent_def by (intro keeps keep_event)

lemma keep_queue_event: "keeps I appendQueueEvent"
  unfolding appendQueueEvent_def by (intro keeps keep_event)

lemmas keep_all = keep_statements keep_node_event keep_queue_event

end

locale slot_mover = settled_frame +
  assumes keep_slot: "state_update_ok f \<Longrightarrow> keeps I (mod_state f)"
    and keep_attempts: "attempt_update_ok fa \<Longrightarrow> keeps I (update_attempts i fa)"
begin

lemmas keep_moves = keep_slot keep_attempts

end

locale slot_frame = slot_mover +
  assumes keep_attempt: "keeps I (insert_attempt a)"
    and keep_start: "keeps I (insert_control k)"
begin

lemmas keep_slot_all = keep_moves keep_attempt keep_start

end

locale admission_frame = settled_frame +
  assumes keep_command: "keeps I (insert_command c)"
    and keep_rejection: "keeps I (insert_rejection x)"

locale release_frame = settled_frame +
  assumes keep_outcome: "keeps I (insert_outcome oc)"
    and keep_upsert: "keeps I (upsert_scope_revision sk v)"
    and keep_advance: "keeps I (advance_scope_revision sk v w)"
    and keep_clock: "keeps I (advance_hold_clock v)"
    and keep_delete: "keeps I (insert_logical_delete y)"
begin

lemmas keep_release_all = keep_outcome keep_upsert keep_advance keep_clock keep_delete

end

locale barrier_frame = release_frame +
  assumes keep_hold: "keeps I (insert_hold h)"
begin

lemmas keep_barrier_all = keep_hold keep_release_all

end

text \<open>An invariant of the whole store: kept by every statement the runtime issues.\<close>

locale slot_holder = admission_frame + barrier_frame

locale node_frame = slot_mover + admission_frame + barrier_frame

locale store_frame = slot_frame + admission_frame + barrier_frame

section \<open>Invariants of the store\<close>

subsection \<open>The event log\<close>

lemma upto_snoc: "0 \<le> n \<Longrightarrow> [1..n + 1] = [1..n] @ [n + 1]" for n :: int
  using upto_rec2 [of 1 "n + 1"] by simp

lemma log_event_update:
  "event_update_ok f \<Longrightarrow> map e_seq (update_rows P f rows) = map e_seq rows \<and>
     list_all (\<lambda>e. e_node_id e = n \<and> event_ok e) (update_rows P f rows) = list_all (\<lambda>e. e_node_id e = n \<and> event_ok e) rows"
  by (induction rows) (auto simp: update_rows_def event_update_ok_def event_ok_def)

interpretation event_log: store_frame log_inv
proof unfold_locales
  show "keeps log_inv (appendEvent ty ent ver att dia pay late)" for ty ent ver att dia pay late
    by (auto simp: keeps_def wp_appendEvent log_inv_def Let_def upto_snoc event_row_of_ok)
  show "keeps log_inv (update_events P g)" if "event_update_ok g" for P g
    using that by (auto simp: keeps_def update_events_def wp log_inv_def log_event_update)
  show "keeps log_inv saveState"
    by (simp add: keeps_def wp saveState_def log_inv_def)
qed (auto simp: keeps_def wp statement_defs log_inv_def state_update_ok_def Let_def)

subsection \<open>The log is append-only\<close>

text \<open>Whatever a transaction does, the events it found are still there, unchanged, at the front.\<close>

definition log_extends :: "json list \<Rightarrow> txn \<Rightarrow> bool" where
  "log_extends old t \<longleftrightarrow> take (length old) (map e_json (events t)) = old"

lemma log_extends_update:
  "event_update_ok f \<Longrightarrow> map e_json (update_rows P f rows) = map e_json rows"
  by (induction rows) (auto simp: update_rows_def event_update_ok_def)

lemma log_extends_length: "log_extends old t \<Longrightarrow> length old \<le> length (events t)"
  by (metis log_extends_def length_map length_take min.cobounded1 nle_le)

interpretation append_only: store_frame "log_extends old" for old
proof unfold_locales
  show "keeps (log_extends old) (appendEvent ty ent ver att dia pay late)" for ty ent ver att dia pay late
  proof (rule keepsI)
    fix t
    assume a: "log_extends old t"
    then show "wp (appendEvent ty ent ver att dia pay late) (\<lambda>_. log_extends old) t"
      using log_extends_length [OF a] by (auto simp: wp_appendEvent log_extends_def Let_def)
  qed
  show "keeps (log_extends old) (update_events P g)" if "event_update_ok g" for P g
    using that by (auto simp: keeps_def update_events_def wp log_extends_def log_extends_update)
  show "keeps (log_extends old) saveState"
    by (simp add: keeps_def wp saveState_def log_extends_def)
qed (auto simp: keeps_def wp statement_defs log_extends_def state_update_ok_def Let_def)

subsection \<open>Identity of the node\<close>

definition ident_inv :: "txn \<Rightarrow> bool" where
  "ident_inv t \<longleftrightarrow> NodeID (st t) = NodeID (node_state t) \<and> OwnerID (st t) = OwnerID (node_state t) \<and>
     RegistryVersion (st t) = RegistryVersion (node_state t)"

interpretation identity: store_frame ident_inv
proof unfold_locales
  show "keeps ident_inv (appendEvent ty ent ver att dia pay late)" for ty ent ver att dia pay late
    by (auto simp: keeps_def wp_appendEvent ident_inv_def Let_def)
  show "keeps ident_inv saveState"
    by (simp add: keeps_def wp saveState_def saved_row_def ident_inv_def)
qed (auto simp: keeps_def wp statement_defs ident_inv_def state_update_ok_def Let_def)

text \<open>After \<open>saveState\<close> the stored row is the in-memory state, as the next \<open>loadState\<close> reads it.\<close>

definition state_saved :: "txn \<Rightarrow> bool" where
  "state_saved t \<longleftrightarrow> node_state t = st t"

lemma saveState_saved: "ident_inv t \<Longrightarrow> wp saveState (\<lambda>_. state_saved) t"
  by (simp add: saveState_def wp state_saved_def saved_row_def ident_inv_def)

subsection \<open>Primary keys\<close>

definition primary_keys :: "txn \<Rightarrow> bool" where
  "primary_keys t \<longleftrightarrow> distinct (map dialog_id (dialogs t)) \<and> distinct (map message_id (messages t)) \<and>
     distinct (map request_id (requests t)) \<and> distinct (map r_queue_sequence (requests t)) \<and>
     distinct (map attempt_id (attempts t)) \<and> distinct (map command_id (commands t)) \<and>
     distinct (map k_command_id (control_actions t)) \<and> distinct (map call_id (tool_calls t)) \<and>
     distinct (map approval_id (approvals t)) \<and> distinct (map input_request_id (input_requests t)) \<and>
     distinct (map operation_id (administrative_holds t)) \<and> distinct (map o_operation_id (hold_outcomes t)) \<and>
     distinct (map x_command_id (command_rejections t)) \<and> distinct (map scope_key (quiescence t))"

lemma distinct_append_row: "distinct (map key rows) \<Longrightarrow> \<not> exists_row (\<lambda>x. key x = key r) rows \<Longrightarrow>
    distinct (map key (rows @ [r]))"
  by (auto simp: exists_row_def)

lemma distinct_insert_row:
  "distinct (map key rows) \<Longrightarrow> \<not> exists_row (\<lambda>x. key x = k) rows \<Longrightarrow> k \<notin> key ` set rows"
  by (auto simp: exists_row_def)

lemma scope_key_bump [simp]: "map scope_key (bump P d q) = map scope_key q"
  by (simp add: bump_def map_update_rows)

lemma scope_key_bump_each [simp]: "map scope_key (bump_each f d rs q) = map scope_key q"
  by (induction f d rs q rule: bump_each.induct) simp_all

interpretation table_keys: store_frame primary_keys
proof unfold_locales
  show "keeps primary_keys (appendEvent ty ent ver att dia pay late)" for ty ent ver att dia pay late
    by (auto simp: keeps_def wp_appendEvent primary_keys_def Let_def)
  show "keeps primary_keys saveState"
    by (simp add: keeps_def wp saveState_def primary_keys_def Let_def)
qed (auto simp: keeps_def wp statement_defs primary_keys_def map_update_rows update_ok_defs
      distinct_insert_row Let_def)

subsection \<open>References between tables\<close>

definition foreign_keys :: "txn \<Rightarrow> bool" where
  "foreign_keys t \<longleftrightarrow>
     m_dialog_id ` set (messages t) \<subseteq> dialog_id ` set (dialogs t) \<and>
     r_dialog_id ` set (requests t) \<subseteq> dialog_id ` set (dialogs t) \<and>
     r_input_message_id ` set (requests t) \<subseteq> message_id ` set (messages t) \<and>
     a_request_id ` set (attempts t) \<subseteq> request_id ` set (requests t) \<and>
     a_dialog_id ` set (attempts t) \<subseteq> dialog_id ` set (dialogs t) \<and>
     t_attempt_id ` set (tool_calls t) \<subseteq> attempt_id ` set (attempts t) \<and>
     p_attempt_id ` set (approvals t) \<subseteq> attempt_id ` set (attempts t) \<and>
     i_attempt_id ` set (input_requests t) \<subseteq> attempt_id ` set (attempts t) \<and>
     o_operation_id ` set (hold_outcomes t) \<subseteq> operation_id ` set (administrative_holds t) \<and>
     x_hold_operation_id ` set (command_rejections t) \<subseteq> operation_id ` set (administrative_holds t)"

lemma image_update_rows: "(\<And>r. g (f r) = g r) \<Longrightarrow> g ` set (update_rows P f rows) = g ` set rows"
  by (metis map_update_rows list.set_map)

lemma exists_key: "exists_row (\<lambda>x. key x = k) rows \<longleftrightarrow> k \<in> key ` set rows"
  by (auto simp: exists_row_def)

interpretation references: store_frame foreign_keys
proof unfold_locales
  show "keeps foreign_keys (appendEvent ty ent ver att dia pay late)" for ty ent ver att dia pay late
    by (auto simp: keeps_def wp_appendEvent foreign_keys_def Let_def)
  show "keeps foreign_keys saveState"
    by (simp add: keeps_def wp saveState_def foreign_keys_def Let_def)
qed (simp_all add: keeps_def wp statement_defs foreign_keys_def image_update_rows update_ok_defs
      exists_key Let_def subset_insertI2)

subsection \<open>Range of the quiescence counters\<close>

definition quiescence_range :: "txn \<Rightarrow> bool" where
  "quiescence_range t \<longleftrightarrow> quiescence_ok (quiescence t)"

interpretation counters: store_frame quiescence_range
proof unfold_locales
  show "keeps quiescence_range (appendEvent ty ent ver att dia pay late)" for ty ent ver att dia pay late
    by (auto simp: keeps_def wp_appendEvent quiescence_range_def Let_def)
qed (auto simp: keeps_def wp statement_defs quiescence_range_def Let_def)

subsection \<open>The durable command outcomes\<close>

text \<open>No statement but the two inserts of the admission path changes a recorded outcome.\<close>

definition outcomes_fixed :: "command_row list \<Rightarrow> rejection_row list \<Rightarrow> txn \<Rightarrow> bool" where
  "outcomes_fixed cs xs t \<longleftrightarrow> commands t = cs \<and> command_rejections t = xs"

locale barrier_slot_frame = slot_frame + barrier_frame

interpretation outcomes: barrier_slot_frame "outcomes_fixed cs xs" for cs xs
proof unfold_locales
  show "keeps (outcomes_fixed cs xs) (appendEvent ty ent ver att dia pay late)" for ty ent ver att dia pay late
    by (auto simp: keeps_def wp_appendEvent outcomes_fixed_def Let_def)
  show "keeps (outcomes_fixed cs xs) saveState"
    by (simp add: keeps_def wp saveState_def outcomes_fixed_def)
qed (auto simp: keeps_def wp statement_defs outcomes_fixed_def Let_def)

subsection \<open>The execution slot\<close>

text \<open>
  \<open>active_attempt_id\<close> names the one attempt whose state is active, and is null when there is
  none: the slot is never lost and never doubly occupied.
\<close>

definition active_ids :: "attempt_row list \<Rightarrow> string list" where
  "active_ids rows = map attempt_id (filter (\<lambda>a. is_active (a_state a)) rows)"

definition slot_inv :: "txn \<Rightarrow> bool" where
  "slot_inv t \<longleftrightarrow> active_ids (attempts t) = (case ActiveAttemptID (st t) of None \<Rightarrow> [] | Some a \<Rightarrow> [a])"

lemma active_ids_append [simp]: "active_ids (rows @ rows') = active_ids rows @ active_ids rows'"
  by (simp add: active_ids_def)

lemma active_ids_update:
  assumes "attempt_update_ok f" and "distinct (map attempt_id rows)"
    and "lookup_row attempt_id i rows = Some a" and "is_active (a_state (f a)) = is_active (a_state a)"
  shows "active_ids (update_rows (\<lambda>x. attempt_id x = i) f rows) = active_ids rows"
  using assms(2-4)
proof (induction rows)
  case Nil
  then show ?case by simp
next
  case (Cons x rows)
  show ?case
  proof (cases "attempt_id x = i")
    case True
    with Cons.prems have "x = a" and "i \<notin> attempt_id ` set rows" by (auto simp: lookup_row_def)
    then have "x = a" and "\<And>y. y \<in> set rows \<Longrightarrow> attempt_id y \<noteq> i" by blast+
    then show ?thesis
      using True Cons.prems(3) assms(1)
      by (simp add: update_rows_Cons update_rows_none active_ids_def attempt_update_ok_def)
  next
    case False
    with Cons.prems have "lookup_row attempt_id i rows = Some a" and "distinct (map attempt_id rows)"
      by (auto simp: lookup_row_def)
    with Cons.IH Cons.prems(3) False show ?thesis by (simp add: update_rows_Cons active_ids_def)
  qed
qed

definition slot_keys :: "txn \<Rightarrow> bool" where
  "slot_keys t \<longleftrightarrow> slot_inv t \<and> primary_keys t"

lemma keeps_slot_keys: "keeps slot_inv m \<Longrightarrow> keeps primary_keys m \<Longrightarrow> keeps slot_keys m"
  using keeps_conj [of slot_inv m primary_keys] by (simp add: slot_keys_def [abs_def])

interpretation exec_slot: slot_holder slot_keys
proof unfold_locales
  show "slot_keys (t\<lparr>idsrc := ids, now := at\<rparr>) = slot_keys t" for t ids at
    by (simp add: slot_keys_def slot_inv_def primary_keys_def)
  show "keeps slot_keys (appendEvent ty ent ver att dia pay late)" for ty ent ver att dia pay late
    by (rule keeps_slot_keys [OF _ table_keys.keep_event])
       (auto simp: keeps_def wp_appendEvent slot_inv_def Let_def)
  show "keeps slot_keys saveState"
    by (rule keeps_slot_keys [OF _ table_keys.keep_save]) (simp add: keeps_def wp saveState_def slot_inv_def)
  show "wp (update_attempts i fa) (\<lambda>_. slot_keys) t"
    if "attempt_update_ok fa" "slot_keys t" "lookup_row attempt_id i (attempts t) = Some a"
      "is_active (a_state (fa a)) = is_active (a_state a)" for i fa t a
  proof -
    have "wp (update_attempts i fa) (\<lambda>_. primary_keys) t"
      using table_keys.keep_attempts that by (auto simp: slot_keys_def keeps_def)
    moreover have "wp (update_attempts i fa) (\<lambda>_. slot_inv) t"
      using that by (auto simp: slot_keys_def slot_inv_def primary_keys_def update_attempts_def wp active_ids_update)
    ultimately show ?thesis unfolding slot_keys_def [abs_def] wp_conj by blast
  qed
qed (rule keeps_slot_keys; (fast intro: table_keys.keep_statements table_keys.keep_command table_keys.keep_rejection
       table_keys.keep_barrier_all)?;
     simp add: keeps_def wp statement_defs slot_inv_def slot_unchanged_def Let_def)+

subsection \<open>The core of a transaction\<close>

text \<open>
  The queue, the attempts and the in-memory state up to the event counter: what appending
  events, saving, and writing to the other tables leaves alone.
\<close>

definition core :: "txn \<Rightarrow> attempt_row list \<times> request_row list \<times> durableState" where
  "core t = (attempts t, requests t, (st t)\<lparr>LastEventSeq := 0\<rparr>)"

named_theorems core

lemma core_appendEvent [core]: "keeps (\<lambda>t. core t = c) (appendEvent ty ent ver att dia pay late)"
  by (simp add: keeps_def wp_appendEvent core_def Let_def)

lemma core_appendNodeEvent [core]: "keeps (\<lambda>t. core t = c) appendNodeEvent"
  unfolding appendNodeEvent_def by (intro keeps core)

lemma core_appendQueueEvent [core]: "keeps (\<lambda>t. core t = c) appendQueueEvent"
  unfolding appendQueueEvent_def by (intro keeps core)

lemma core_statements [core]:
  "keeps (\<lambda>t. core t = c) newID" "keeps (\<lambda>t. core t = c) (insert_message m)" "keeps (\<lambda>t. core t = c) (update_messages i f)"
  "keeps (\<lambda>t. core t = c) (insert_dialog d)" "keeps (\<lambda>t. core t = c) (update_dialogs i fd)"
  "keeps (\<lambda>t. core t = c) (insert_control k)" "keeps (\<lambda>t. core t = c) (update_control P fk)"
  "keeps (\<lambda>t. core t = c) (update_events Pe fe)" "keeps (\<lambda>t. core t = c) (insert_tool_call tc)"
  "keeps (\<lambda>t. core t = c) (update_tool_calls i ft)" "keeps (\<lambda>t. core t = c) (insert_approval p)"
  "keeps (\<lambda>t. core t = c) (update_approvals Pp fp)" "keeps (\<lambda>t. core t = c) (insert_input n)"
  "keeps (\<lambda>t. core t = c) (update_inputs Pi fi)" "keeps (\<lambda>t. core t = c) (insert_late l)"
  "keeps (\<lambda>t. core t = c) (insert_policy ps)" "keeps (\<lambda>t. core t = c) (insert_command cm)"
  "keeps (\<lambda>t. core t = c) (insert_rejection x)" "keeps (\<lambda>t. core t = c) (change_artifacts ff)"
  "keeps (\<lambda>t. core t = c) saveState"
  by (simp_all add: keeps_def wp statement_defs core_def Let_def)

lemma wp_core_then:
  assumes "\<And>c. keeps (\<lambda>t. core t = c) m" and "\<And>a t'. core t' = core t \<Longrightarrow> Q a t'"
  shows "wp m Q t"
  by (rule wp_mono [OF keepsD [OF assms(1) refl]]) (rule assms(2))

section \<open>From transactions to the database\<close>

text \<open>
  The invariant of a database is the invariant of the transaction that begins on it. A
  transaction body that keeps \<open>I\<close> and saves the state it changed keeps the invariant of the
  database, whether it commits or rolls back.
\<close>

definition db_inv :: "(txn \<Rightarrow> bool) \<Rightarrow> database \<Rightarrow> bool" where
  "db_inv I db \<longleftrightarrow> I (begin_tx db [] [])"

definition ends_saved :: "'a dbtx \<Rightarrow> bool" where
  "ends_saved m \<longleftrightarrow> (\<forall>t. ident_inv t \<longrightarrow> wp m (\<lambda>_. state_saved) t)"

named_theorems saved

lemma state_saved_ident: "state_saved t \<Longrightarrow> ident_inv t"
  by (simp add: state_saved_def ident_inv_def)

lemma keeps_saved_ends: "ends_saved m \<Longrightarrow> keeps state_saved m"
  by (auto simp: ends_saved_def keeps_def dest: state_saved_ident)

lemma ends_saved_save [saved]: "ends_saved saveState"
  by (auto simp: ends_saved_def saveState_saved)

lemma ends_saved_fail [saved]: "ends_saved (tfail e)"
  by (auto simp: ends_saved_def wp)

lemma ends_saved_ret [saved]: "ends_saved m \<Longrightarrow> ends_saved (tseq m (tret a))"
  unfolding ends_saved_def wp_tseq by (blast intro: wp_mono wp_tret [THEN iffD2])

lemma ends_saved_ident:
  "keeps ident_inv m \<Longrightarrow> ident_inv t \<Longrightarrow> (\<And>a t'. ident_inv t' \<Longrightarrow> wp (f a) Q t') \<Longrightarrow> wp m (\<lambda>a. wp (f a) Q) t"
  by (auto intro: wp_mono dest: keepsD)

lemma ends_saved_bind [saved]:
  "keeps ident_inv m \<Longrightarrow> (\<And>a. ends_saved (f a)) \<Longrightarrow> ends_saved (tbind m f)"
  by (auto simp: ends_saved_def wp intro: ends_saved_ident)

lemma ends_saved_seq [saved]: "keeps ident_inv m \<Longrightarrow> ends_saved n \<Longrightarrow> ends_saved (tseq m n)"
  by (simp add: tseq_def ends_saved_bind)

lemma ends_saved_tdo [saved]:
  "keeps ident_inv m \<Longrightarrow> ends_saved (tdo (n # ns)) \<Longrightarrow> ends_saved (tdo (m # n # ns))"
  "ends_saved m \<Longrightarrow> ends_saved (tdo [m])"
  by (simp_all add: tdo.simps ends_saved_seq ends_saved_ret)

lemma ends_saved_if [saved]: "ends_saved m \<Longrightarrow> ends_saved n \<Longrightarrow> ends_saved (if c then m else n)"
  by simp

lemma ends_saved_option [saved]:
  "ends_saved m \<Longrightarrow> (\<And>a. ends_saved (f a)) \<Longrightarrow> ends_saved (case x of None \<Rightarrow> m | Some a \<Rightarrow> f a)"
  by (simp split: option.split)

lemma ends_saved_prod [saved]: "(\<And>a b. ends_saved (f a b)) \<Longrightarrow> ends_saved (case p of (a, b) \<Rightarrow> f a b)"
  by (simp split: prod.split)

lemma ends_saved_let [saved]: "(\<And>y. ends_saved (f y)) \<Longrightarrow> ends_saved (Let x f)"
  by simp

lemma begin_tx_sel [simp]: "st (begin_tx db ids t0) = node_state db" "idsrc (begin_tx db ids t0) = ids"
  "now (begin_tx db ids t0) = t0" "node_state (begin_tx db ids t0) = node_state db"
  "events (begin_tx db ids t0) = events db" "attempts (begin_tx db ids t0) = attempts db"
  "requests (begin_tx db ids t0) = requests db" "dialogs (begin_tx db ids t0) = dialogs db"
  "messages (begin_tx db ids t0) = messages db" "commands (begin_tx db ids t0) = commands db"
  "command_rejections (begin_tx db ids t0) = command_rejections db"
  "administrative_holds (begin_tx db ids t0) = administrative_holds db"
  "hold_outcomes (begin_tx db ids t0) = hold_outcomes db" "quiescence (begin_tx db ids t0) = quiescence db"
  by (simp_all add: begin_tx_def database.defs)

lemma begin_tx_saved: "state_saved (begin_tx db ids t0)"
  by (simp add: state_saved_def)

lemma commit_begin: "state_saved t \<Longrightarrow> begin_tx (commit_tx t) ids t0 = t\<lparr>idsrc := ids, now := t0\<rparr>"
  by (cases t) (simp add: begin_tx_def commit_tx_def state_saved_def database.defs)

lemma begin_begin: "begin_tx db ids t0 = (begin_tx db [] [])\<lparr>idsrc := ids, now := t0\<rparr>"
  by (simp add: begin_tx_def database.defs)

context settled_frame
begin

lemma db_inv_begin: "db_inv I db \<Longrightarrow> I (begin_tx db ids t0)"
  by (subst begin_begin) (simp add: clock_free db_inv_def)

lemma run_tx_inv:
  assumes "keeps I m" and "keeps state_saved m" and "db_inv I db"
  shows "db_inv I (snd (run_tx m ids t0 ok db))"
proof (cases "m (begin_tx db ids t0)")
  case (Inl e)
  then show ?thesis using assms(3) by (simp add: run_tx_def)
next
  case (Inr r)
  then obtain a t where r: "m (begin_tx db ids t0) = Inr (a, t)" by (cases r) auto
  have "I t" using keeps_run [OF assms(1) db_inv_begin [OF assms(3)] r] .
  moreover have "state_saved t"
    using keeps_run [OF assms(2) begin_tx_saved r] .
  ultimately have "db_inv I (commit_tx t)" by (simp add: db_inv_def commit_begin clock_free)
  then show ?thesis using assms(3) r by (simp add: run_tx_def)
qed

end

end
