(* ===== verification/Adapter.thy ===== *)
theory Adapter
  imports Frame
begin

text \<open>
  The provider-neutral adapter contract of \<open>adapters/contract/adapter.go\<close>: the identity pins,
  the attempt reference, the closed union of events an adapter's stream delivers, and the
  outcomes of the calls the runtime makes. The Go enumerations are strings, so each has a
  constructor for a value outside the declared constants.
\<close>

section \<open>Identity\<close>

record Identity =
  IdKind :: string
  IdVersion :: string
  IdProtocolVersion :: int
  IdSchemaID :: string
  IdSchemaSHA256 :: string
  Declared :: "string \<Rightarrow> bool"
  Verified :: "string \<Rightarrow> bool"

definition mandatoryCapabilities :: "string list" where
  "mandatoryCapabilities = [''chat'', ''events'', ''tool_results'', ''cancel'', ''steer_attached'',
     ''session_resume'', ''policy_enforcement'']"

definition ValidateIdentity :: "Identity \<Rightarrow> bool" where
  "ValidateIdentity i \<longleftrightarrow>
     IdProtocolVersion i = ProtocolVersion \<and> IdSchemaID i = SchemaID \<and> IdSchemaSHA256 i = SchemaSHA256 \<and>
     \<not> ((IdKind i = ''cursor'' \<and> IdVersion i \<noteq> ''1.0.31'') \<or> (IdKind i = ''codex'' \<and> IdVersion i \<noteq> ''0.155.1'')) \<and>
     (IdKind i = ''cursor'' \<or> IdKind i = ''codex'') \<and>
     list_all (\<lambda>c. Declared i c \<and> Verified i c) mandatoryCapabilities"

section \<open>Attempts and outcomes\<close>

record AttemptRef =
  ref_node :: string
  ref_dialog :: string
  ref_request :: string
  ref_attempt :: string
  ref_generation :: int

datatype FailureClass = FailureTask | FailureNode | FailurePolicy | FailureProtocol | FailureOther string

fun failure_text :: "FailureClass \<Rightarrow> string" where
  "failure_text FailureTask = ''task''"
| "failure_text FailureNode = ''node''"
| "failure_text FailurePolicy = ''policy''"
| "failure_text FailureProtocol = ''protocol''"
| "failure_text (FailureOther s) = s"

record Failure =
  Class :: FailureClass
  Code :: string
  SafeMessage :: string
  Retryable :: bool

datatype StartOutcome = StartStarted | StartRejected | StartUnknown | StartOther string

datatype ResumeOutcome = ResumeStarted | ResumeContextMissing | ResumeRejected | ResumeUnknown | ResumeOther string

datatype SteerOutcome = SteerApplied | SteerFallbackQueued | SteerUnknown | SteerRejected | SteerOther string

datatype CancelOutcome = CancelAcknowledged | CancelRejected | CancelUnknown | CancelOther string

datatype ResponseOutcome = ResponseApplied | ResponseRejected | ResponseUnknown | ResponseOther string

datatype ReconcileOutcome = ReconcileRunning | ReconcileWaitingInput | ReconcileCompleted | ReconcileFailed
  | ReconcileInterrupted | ReconcileUnknown | ReconcileOther string

fun reconcile_text :: "ReconcileOutcome \<Rightarrow> string" where
  "reconcile_text ReconcileRunning = ''running''"
| "reconcile_text ReconcileWaitingInput = ''waiting_input''"
| "reconcile_text ReconcileCompleted = ''completed''"
| "reconcile_text ReconcileFailed = ''failed''"
| "reconcile_text ReconcileInterrupted = ''interrupted''"
| "reconcile_text ReconcileUnknown = ''unknown''"
| "reconcile_text (ReconcileOther s) = s"

section \<open>Events\<close>

text \<open>
  The members of \<open>FullText\<close> and \<open>FullTextIncomplete\<close> are read only by the capture of safe text
  and are not part of the union here.
\<close>

datatype Event =
    StartedEvent
  | WaitingEvent string
  | AssistantDeltaEvent string int SafeContent
  | AssistantMessageEvent string SafeContent string
  | ToolStartedEvent string string string SafeContent
  | ToolOutputEvent string int string SafeContent
  | ToolCompletedEvent string string SafeContent string string
  | ApprovalRequestedEvent string string string string
  | InputRequestedEvent string SafeContent
  | TerminalEvent ReconcileOutcome "SafeContent option" "Usage option" "Failure option" string
  | UnknownEvent string string

fun isInteractiveWaitEvent :: "Event \<Rightarrow> bool" where
  "isInteractiveWaitEvent (WaitingEvent _) = True"
| "isInteractiveWaitEvent (ApprovalRequestedEvent _ _ _ _) = True"
| "isInteractiveWaitEvent (InputRequestedEvent _ _) = True"
| "isInteractiveWaitEvent _ = False"

text \<open>The events whose text \<open>adapterEventSafeText\<close> captures.\<close>

fun has_safe_text :: "Event \<Rightarrow> bool" where
  "has_safe_text (AssistantMessageEvent _ _ _) = True"
| "has_safe_text (ToolStartedEvent _ _ _ _) = True"
| "has_safe_text (ToolOutputEvent _ _ _ _) = True"
| "has_safe_text (ToolCompletedEvent _ _ _ _ _) = True"
| "has_safe_text _ = False"

end
