(* ===== verification/Budget.thy ===== *)
theory Budget
  imports Adapter
begin

text \<open>
  The output budget of an attempt, \<open>runtime/output_budget.go\<close>: the bytes charged to the attempt
  row and to its archived late observations, 64 MiB together, with a sticky overflow marker. The
  lemmas show that both ledgers refine one abstract budget: the accepted bytes never exceed it, and
  overflow is reported as new exactly once and never forgotten.
\<close>

definition MaximumAttemptOutputBytes :: int where
  "MaximumAttemptOutputBytes = 67108864"

record outputCharge =
  Exceeded :: bool
  NewlyExceeded :: bool

text \<open>\<open>SELECT COALESCE(SUM(output_bytes),0) FROM late_observations WHERE attempt_id=? AND projection_key IS NOT NULL\<close>\<close>

definition archived_bytes :: "string \<Rightarrow> txn \<Rightarrow> int" where
  "archived_bytes i t = sum_list (map l_output_bytes
     (filter (\<lambda>l. l_attempt_id l = i \<and> l_projection_key l \<noteq> None) (late_observations t)))"

definition active_bytes :: "string \<Rightarrow> txn \<Rightarrow> int option" where
  "active_bytes i t = map_option a_output_bytes (lookup_row attempt_id i (attempts t))"

definition over_budget :: "int \<Rightarrow> int \<Rightarrow> bool" where
  "over_budget current archived \<longleftrightarrow> MaximumAttemptOutputBytes < current \<or> MaximumAttemptOutputBytes < archived \<or>
     MaximumAttemptOutputBytes - archived < current"

text \<open>\<open>UPDATE attempts SET output_bytes=... WHERE attempt_id=? AND output_bytes=?\<close>, one row affected.\<close>

definition charge_fenced :: "string \<Rightarrow> int \<Rightarrow> int \<Rightarrow> unit dbtx" where
  "charge_fenced i current bytes = tseq
     (tcheck (\<lambda>t. count_rows (\<lambda>a. attempt_id a = i \<and> a_output_bytes a = current) (attempts t) = 1)
        (Internal ''output charge fence changed''))
     (update_attempts i (\<lambda>a. a\<lparr>a_output_bytes := bytes\<rparr>))"

definition chargeAttemptOutput :: "string \<Rightarrow> int \<Rightarrow> outputCharge dbtx" where
  "chargeAttemptOutput i bytes =
     tseq (tguard (0 \<le> bytes \<and> bytes \<le> MaximumAttemptOutputBytes) (Internal ''output charge is invalid''))
     (tbind (tfind (active_bytes i) NoRows) (\<lambda>current.
      tbind (tgets (archived_bytes i)) (\<lambda>archived.
        if over_budget current archived then tret \<lparr>Exceeded = True, NewlyExceeded = False\<rparr>
        else if MaximumAttemptOutputBytes - current - archived < bytes
        then tseq (charge_fenced i current (MaximumAttemptOutputBytes + 1)) (tret \<lparr>Exceeded = True, NewlyExceeded = True\<rparr>)
        else if bytes = 0 then tret \<lparr>Exceeded = False, NewlyExceeded = False\<rparr>
        else tseq (charge_fenced i current (current + bytes)) (tret \<lparr>Exceeded = False, NewlyExceeded = False\<rparr>))))"

definition inline_bytes :: "SafeContent \<Rightarrow> int" where
  "inline_bytes c = (if Kind c = ''inline'' then int (length (Content c)) else 0)"

definition chargeSafeOutput :: "string \<Rightarrow> SafeContent \<Rightarrow> outputCharge dbtx" where
  "chargeSafeOutput i content = chargeAttemptOutput i (inline_bytes content)"

definition chargeArchivedAttemptOutput :: "string \<Rightarrow> int \<Rightarrow> (outputCharge \<times> int) dbtx" where
  "chargeArchivedAttemptOutput i bytes =
     tseq (tguard (0 \<le> bytes \<and> bytes \<le> MaximumAttemptOutputBytes) (Internal ''archived output charge is invalid''))
     (tbind (tfind (active_bytes i) NoRows) (\<lambda>active.
      tbind (tgets (archived_bytes i)) (\<lambda>archived.
        if over_budget active archived then tret (\<lparr>Exceeded = True, NewlyExceeded = False\<rparr>, 0)
        else (let current = active + archived in
          if MaximumAttemptOutputBytes - current < bytes
          then tret (\<lparr>Exceeded = True, NewlyExceeded = True\<rparr>, MaximumAttemptOutputBytes + 1 - current)
          else tret (\<lparr>Exceeded = False, NewlyExceeded = False\<rparr>, bytes)))))"

definition attemptOutputExceeded :: "string \<Rightarrow> bool dbtx" where
  "attemptOutputExceeded i = tbind (tfind (active_bytes i) NoRows) (\<lambda>active.
     tbind (tgets (archived_bytes i)) (\<lambda>archived. tret (over_budget active archived)))"

definition outputLimitContent :: SafeContent where
  "outputLimitContent = \<lparr>Kind = ''unavailable'', Content = [], ArtifactID = [], SizeBytes = None, SHA256 = [],
     Reason = ''output_limit'', Redaction = ''unknown'', Truncated = True\<rparr>"

lemmas budget_code [code] =
  charge_fenced_def [unfolded exec_unfold]
  chargeAttemptOutput_def [unfolded exec_unfold]
  chargeArchivedAttemptOutput_def [unfolded exec_unfold]
  attemptOutputExceeded_def [unfolded exec_unfold]

section \<open>What a charge keeps\<close>

lemma active_bytes_Some: "active_bytes i t = Some n \<Longrightarrow> \<exists>a. lookup_row attempt_id i (attempts t) = Some a \<and> a_output_bytes a = n"
  by (auto simp: active_bytes_def)

context settled_frame
begin

lemma keep_charge_fenced:
  "I t \<Longrightarrow> lookup_row attempt_id i (attempts t) = Some a \<Longrightarrow> wp (charge_fenced i c n) (\<lambda>_. I) t"
  unfolding charge_fenced_def by (intro wp_front keep_attempts_settled) (simp_all add: frame_defs)

lemma keep_charge: "keeps I (chargeAttemptOutput i bytes)"
proof (rule keepsI)
  fix t
  assume t: "I t"
  show "wp (chargeAttemptOutput i bytes) (\<lambda>_. I) t"
    unfolding chargeAttemptOutput_def
    by (intro wp_front) (auto simp: wp t dest!: active_bytes_Some intro: wp_mono [OF keep_charge_fenced [OF t]])
qed

lemma keep_safe_charge: "keeps I (chargeSafeOutput i content)"
  unfolding chargeSafeOutput_def by (rule keep_charge)

lemma keep_archived_charge: "keeps I (chargeArchivedAttemptOutput i bytes)"
  unfolding chargeArchivedAttemptOutput_def by (intro keeps)

lemma keep_exceeded: "keeps I (attemptOutputExceeded i)"
  unfolding attemptOutputExceeded_def by (intro keeps)

lemmas keep_budget = keep_charge keep_safe_charge keep_archived_charge keep_exceeded

end

section \<open>The abstract budget\<close>

text \<open>
  One counter that saturates one above the maximum. \<open>output_used\<close> reads it off the two ledgers.
\<close>

definition budget_step :: "int \<Rightarrow> int \<Rightarrow> int \<times> outputCharge" where
  "budget_step used bytes = (if MaximumAttemptOutputBytes < used then (used, \<lparr>Exceeded = True, NewlyExceeded = False\<rparr>)
     else if MaximumAttemptOutputBytes < used + bytes
     then (MaximumAttemptOutputBytes + 1, \<lparr>Exceeded = True, NewlyExceeded = True\<rparr>)
     else (used + bytes, \<lparr>Exceeded = False, NewlyExceeded = False\<rparr>))"

definition output_used :: "string \<Rightarrow> txn \<Rightarrow> int" where
  "output_used i t = min (MaximumAttemptOutputBytes + 1) (the (active_bytes i t) + archived_bytes i t)"

definition ledgers_ok :: "string \<Rightarrow> txn \<Rightarrow> bool" where
  "ledgers_ok i t \<longleftrightarrow> (\<exists>n. active_bytes i t = Some n \<and> 0 \<le> n) \<and> list_all (\<lambda>l. 0 \<le> l_output_bytes l) (late_observations t)"

lemma archived_ge0: "list_all (\<lambda>l. 0 \<le> l_output_bytes l) (late_observations t) \<Longrightarrow> 0 \<le> archived_bytes i t"
  unfolding archived_bytes_def by (rule sum_list_nonneg) (auto simp: list_all_iff)

lemma over_budget_sum: "0 \<le> n \<Longrightarrow> 0 \<le> a \<Longrightarrow> over_budget n a \<longleftrightarrow> MaximumAttemptOutputBytes < n + a"
  by (auto simp: over_budget_def)

lemma wp_charge_fenced:
  "wp (charge_fenced i c n) (\<lambda>_ t'. active_bytes i t' = map_option (\<lambda>_. n) (active_bytes i t) \<and>
     late_observations t' = late_observations t) t"
  by (simp add: charge_fenced_def update_attempts_def wp active_bytes_def lookup_update_row option.map_comp comp_def)

lemma charge_spec:
  assumes "ledgers_ok i t"
  shows "wp (chargeAttemptOutput i bytes) (\<lambda>c t'. ledgers_ok i t' \<and> (output_used i t', c) = budget_step (output_used i t) bytes) t"
proof -
  obtain n where n: "active_bytes i t = Some n" "0 \<le> n" and l: "list_all (\<lambda>l. 0 \<le> l_output_bytes l) (late_observations t)"
    using assms by (auto simp: ledgers_ok_def)
  note a = archived_ge0 [OF l, of i]
  have step: "wp (charge_fenced i n k) (\<lambda>_ t'. ledgers_ok i t' \<and>
      output_used i t' = min (MaximumAttemptOutputBytes + 1) (k + archived_bytes i t)) t" if "0 \<le> k" for k
    by (rule wp_mono [OF wp_charge_fenced]) (use n l that in \<open>auto simp: ledgers_ok_def output_used_def archived_bytes_def\<close>)
  have used: "output_used i t = min (MaximumAttemptOutputBytes + 1) (n + archived_bytes i t)"
    by (simp add: output_used_def n)
  have m: "0 \<le> MaximumAttemptOutputBytes" by (simp add: MaximumAttemptOutputBytes_def)
  consider "MaximumAttemptOutputBytes < n + archived_bytes i t"
    | "n + archived_bytes i t \<le> MaximumAttemptOutputBytes" "MaximumAttemptOutputBytes < n + archived_bytes i t + bytes"
    | "n + archived_bytes i t + bytes \<le> MaximumAttemptOutputBytes" "n + archived_bytes i t \<le> MaximumAttemptOutputBytes" by linarith
  then show ?thesis
  proof cases
    case 1
    then show ?thesis by (simp add: chargeAttemptOutput_def wp n over_budget_sum [OF n(2) a] assms used budget_step_def)
  next
    case 2
    then show ?thesis
      by (simp add: chargeAttemptOutput_def wp n over_budget_sum [OF n(2) a] used budget_step_def)
         (use m a in \<open>auto simp: wp intro!: wp_mono [OF step]\<close>)
  next
    case 3
    then show ?thesis
      by (simp add: chargeAttemptOutput_def wp n over_budget_sum [OF n(2) a] used budget_step_def)
         (use n a assms used in \<open>auto simp: wp intro!: wp_mono [OF step]\<close>)
  qed
qed

text \<open>
  The archive's charge with the row \<open>archiveAdapterEvent\<close> stores it in; no row once the budget is
  spent.
\<close>

definition archive_charge :: "string \<Rightarrow> int \<Rightarrow> late_row \<Rightarrow> outputCharge dbtx" where
  "archive_charge i bytes l = tbind (chargeArchivedAttemptOutput i bytes) (\<lambda>(c, ledgerBytes).
     if Exceeded c \<and> \<not> NewlyExceeded c then tret c
     else tseq (insert_late (l\<lparr>l_attempt_id := i, l_output_bytes := ledgerBytes\<rparr>)) (tret c))"

lemma archive_charge_spec:
  assumes "ledgers_ok i t" and "l_projection_key l \<noteq> None"
  shows "wp (archive_charge i bytes l) (\<lambda>c t'. ledgers_ok i t' \<and> (output_used i t', c) = budget_step (output_used i t) bytes) t"
proof -
  obtain n where n: "active_bytes i t = Some n" "0 \<le> n" and l: "list_all (\<lambda>l. 0 \<le> l_output_bytes l) (late_observations t)"
    using assms by (auto simp: ledgers_ok_def)
  note a = archived_ge0 [OF l, of i]
  show ?thesis
    using n l a assms(2)
    by (auto simp: archive_charge_def chargeArchivedAttemptOutput_def insert_late_def wp Let_def ledgers_ok_def
        output_used_def budget_step_def over_budget_sum MaximumAttemptOutputBytes_def active_bytes_def archived_bytes_def)
qed

text \<open>What the abstract budget promises over any sequence of charges.\<close>

fun budget_run :: "int \<Rightarrow> int list \<Rightarrow> int \<times> outputCharge list" where
  "budget_run used [] = (used, [])"
| "budget_run used (b # bs) = (let (u, c) = budget_step used b; (v, cs) = budget_run u bs in (v, c # cs))"

fun accepted_bytes :: "int list \<Rightarrow> outputCharge list \<Rightarrow> int" where
  "accepted_bytes (b # bs) (c # cs) = (if Exceeded c then 0 else b) + accepted_bytes bs cs"
| "accepted_bytes _ _ = 0"

lemma budget_run_over:
  "MaximumAttemptOutputBytes < used \<Longrightarrow> budget_run used bs = (used, map (\<lambda>_. \<lparr>Exceeded = True, NewlyExceeded = False\<rparr>) bs)"
  by (induction bs) (simp_all add: budget_step_def)

lemma accepted_over: "accepted_bytes bs (map (\<lambda>_. \<lparr>Exceeded = True, NewlyExceeded = False\<rparr>) bs) = 0"
  by (induction bs) simp_all

lemma budget_run_bounded:
  "used \<le> MaximumAttemptOutputBytes \<Longrightarrow> \<forall>b \<in> set bs. 0 \<le> b \<Longrightarrow> budget_run used bs = (v, cs) \<Longrightarrow>
     used + accepted_bytes bs cs \<le> MaximumAttemptOutputBytes \<and> length (filter NewlyExceeded cs) \<le> 1"
proof (induction bs arbitrary: used v cs)
  case Nil
  then show ?case by simp
next
  case (Cons b bs)
  show ?case
  proof (cases "MaximumAttemptOutputBytes < used + b")
    case True
    with Cons.prems show ?thesis by (auto simp: budget_step_def budget_run_over accepted_over Let_def)
  next
    case False
    then obtain cs' where r: "budget_run (used + b) bs = (v, cs')" and c: "cs = \<lparr>Exceeded = False, NewlyExceeded = False\<rparr> # cs'"
      using Cons.prems by (auto simp: budget_step_def Let_def split: prod.splits if_splits)
    show ?thesis using Cons.IH [OF _ _ r] Cons.prems(2) False c by simp
  qed
qed

fun charge_all :: "string \<Rightarrow> int list \<Rightarrow> outputCharge list dbtx" where
  "charge_all i [] = tret []"
| "charge_all i (b # bs) = tbind (chargeAttemptOutput i b) (\<lambda>c. tbind (charge_all i bs) (\<lambda>cs. tret (c # cs)))"

lemma charge_all_spec:
  "ledgers_ok i t \<Longrightarrow> wp (charge_all i bs) (\<lambda>cs t'. budget_run (output_used i t) bs = (output_used i t', cs)) t"
proof (induction bs arbitrary: t)
  case Nil
  then show ?case by (simp add: wp)
next
  case (Cons b bs)
  show ?case
    unfolding charge_all.simps wp_tbind wp_tret
    by (rule wp_mono [OF charge_spec [OF Cons.prems]]) (auto intro!: wp_mono [OF Cons.IH] simp: Let_def split: prod.splits)
qed

text \<open>
  C13: over any sequence of charges to an attempt that is within its budget, the bytes that were
  accepted keep the total within 64 MiB, and the overflow is reported as new at most once.
\<close>

theorem output_budget_bounded:
  assumes "ledgers_ok i t" and "output_used i t \<le> MaximumAttemptOutputBytes" and "\<forall>b \<in> set bs. 0 \<le> b"
    and "charge_all i bs t = Inr (cs, t')"
  shows "output_used i t + accepted_bytes bs cs \<le> MaximumAttemptOutputBytes \<and> length (filter NewlyExceeded cs) \<le> 1"
  using budget_run_bounded [OF assms(2,3)] wpD [OF charge_all_spec [OF assms(1)] assms(4)] .

text \<open>
  C14: the two ledgers, the attempt row and the archived observations, implement one abstract
  budget: each charge, active or archived, returns what the abstract step returns and moves the
  combined total as it does. An exceeded budget therefore stays exceeded whichever way the next
  output arrives.
\<close>

theorem ledgers_refine_budget:
  assumes "ledgers_ok i t" and "l_projection_key l \<noteq> None"
    and "(if late then archive_charge i bytes l else chargeAttemptOutput i bytes) t = Inr (c, t')"
  shows "(output_used i t', c) = budget_step (output_used i t) bytes"
  using wpD [OF charge_spec [OF assms(1)], of bytes c t'] wpD [OF archive_charge_spec [OF assms(1,2)], of bytes c t'] assms(3)
  by (simp split: if_splits)

text \<open>An attempt two bytes below its limit, for concrete runs.\<close>

definition sample_attempt :: attempt_row where
  "sample_attempt = \<lparr>attempt_id = ''a1'', a_node_id = sample_node, a_dialog_id = ''d1'', a_request_id = ''r1'',
     a_generation = 1, a_version = 1, a_state = ARunning, a_effect_status = ''none'', a_context_boundary = ''m1'',
     a_policy_hash = ''h'', a_started_at = None, a_finished_at = None, a_output_bytes = 67108862\<rparr>"

definition sample_charged :: txn where
  "sample_charged = begin_tx (sample_volume\<lparr>attempts := [sample_attempt]\<rparr>) [] []"

definition sample_late :: late_row where
  "sample_late = \<lparr>l_attempt_id = ''a1'', l_generation = 1, l_kind = ''assistant.delta'', l_event_seq = 1,
     l_observed_at = [], l_projection_key = Some ''k'', l_projection_hash = Some ''h'', l_output_bytes = 0\<rparr>"

lemma sample_ledgers: "ledgers_ok ''a1'' sample_charged" "output_used ''a1'' sample_charged = 67108862"
  by (simp_all add: ledgers_ok_def output_used_def active_bytes_def archived_bytes_def sample_charged_def begin_tx_def
      sample_volume_def new_volume_def sample_attempt_def lookup_row_def MaximumAttemptOutputBytes_def database.defs)

definition sample_charges :: "(outputCharge list \<times> txn) option" where
  "sample_charges = (case charge_all ''a1'' [1, 5, 1] sample_charged of Inr r \<Rightarrow> Some r | Inl _ \<Rightarrow> None)"

lemma sample_charges_run: "map_option fst sample_charges = Some [\<lparr>Exceeded = False, NewlyExceeded = False\<rparr>,
    \<lparr>Exceeded = True, NewlyExceeded = True\<rparr>, \<lparr>Exceeded = True, NewlyExceeded = False\<rparr>]"
  by code_simp

theorem output_budget_bounded_witness:
  "\<exists>cs t'. charge_all ''a1'' [1, 5, 1] sample_charged = Inr (cs, t') \<and> length (filter NewlyExceeded cs) = 1 \<and>
     output_used ''a1'' sample_charged + accepted_bytes [1, 5, 1] cs \<le> MaximumAttemptOutputBytes"
proof -
  obtain cs t' where r: "charge_all ''a1'' [1, 5, 1] sample_charged = Inr (cs, t')" and
      cs: "cs = [\<lparr>Exceeded = False, NewlyExceeded = False\<rparr>, \<lparr>Exceeded = True, NewlyExceeded = True\<rparr>,
        \<lparr>Exceeded = True, NewlyExceeded = False\<rparr>]"
    using sample_charges_run by (auto simp: sample_charges_def split: sum.splits)
  show ?thesis
    using output_budget_bounded [OF sample_ledgers(1) _ _ r] r cs
    by (auto simp: sample_ledgers MaximumAttemptOutputBytes_def)
qed

definition sample_archived :: "(outputCharge \<times> txn) option" where
  "sample_archived = (case archive_charge ''a1'' 5 sample_late sample_charged of Inr r \<Rightarrow> Some r | Inl _ \<Rightarrow> None)"

lemma sample_archived_run: "map_option fst sample_archived = Some \<lparr>Exceeded = True, NewlyExceeded = True\<rparr>"
  by code_simp

theorem ledgers_refine_budget_witness:
  "\<exists>c t'. archive_charge ''a1'' 5 sample_late sample_charged = Inr (c, t') \<and> NewlyExceeded c \<and>
     output_used ''a1'' t' = MaximumAttemptOutputBytes + 1"
proof -
  obtain c t' where r: "archive_charge ''a1'' 5 sample_late sample_charged = Inr (c, t')" and c: "NewlyExceeded c"
    using sample_archived_run by (auto simp: sample_archived_def split: sum.splits)
  show ?thesis
    using ledgers_refine_budget [OF sample_ledgers(1), where late = True, simplified, OF _ r] r c
    by (auto simp: sample_late_def sample_ledgers(2) budget_step_def MaximumAttemptOutputBytes_def split: if_splits)
qed

end
