(* ===== verification/Commands.thy ===== *)
theory Commands
  imports Frame
begin

text \<open>
  The command handlers of \<open>runtime/command_handlers.go\<close> and \<open>runtime/control_handlers.go\<close>.
  A handler runs inside the admission transaction on a command that has passed
  \<open>Validate("command")\<close>, changes the tables, appends its events, and returns the receipt's
  references, result and blocking reason together with the control action to enqueue. The
  lemmas show that each handler keeps every store invariant, what each of them changes, and
  the fences that reject a stale command.
\<close>

section \<open>Vocabulary\<close>

definition QueueCapacity :: int where "QueueCapacity = 100"

record Config =
  CfgNodeID :: string
  CfgOwnerID :: string
  CfgAdapterKind :: string
  CfgAdapterVersion :: string

record CommandEnvelope =
  CommandID :: string
  CKind :: CommandKind
  Target :: json
  Expected :: json
  Payload :: json

text \<open>\<open>reject\<close> and \<open>stale\<close>.\<close>

definition reject :: "nat \<Rightarrow> string \<Rightarrow> string \<Rightarrow> tx_error" where
  "reject status code message = CommandFailure status code message None []"

definition stale :: "int \<Rightarrow> string \<Rightarrow> tx_error" where
  "stale version currentState = CommandFailure 409 ''stale'' ''expected state is stale'' (Some version) currentState"

record postCommitAction =
  act_kind :: CommandKind
  act_attempt_id :: string
  act_message_id :: string
  act_actor_id :: string
  act_payload :: actionPayload

text \<open>What a handler returns: references, result, blocking reason, control action.\<close>

type_synonym handled = "json \<times> string \<times> string \<times> postCommitAction option"

text \<open>Members of the decoded target, expected and payload parts.\<close>

definition tgt :: "CommandEnvelope \<Rightarrow> string \<Rightarrow> string" where
  "tgt e k = jstr (jfield (Target e) k)"

definition expd :: "CommandEnvelope \<Rightarrow> string \<Rightarrow> int" where
  "expd e k = jint (jfield (Expected e) k)"

definition pay :: "CommandEnvelope \<Rightarrow> string \<Rightarrow> string" where
  "pay e k = jstr (jfield (Payload e) k)"

definition emptyPayload :: actionPayload where
  "emptyPayload = \<lparr>Generation = 0, DialogID = [], RequestID = [], Text = [], ApprovalID = [],
     ApprovalVersion = 0, CallID = [], ActionHash = [], Decision = [], InputRequestID = [], InputVersion = 0\<rparr>"

definition blockingReason :: "durableState \<Rightarrow> string" where
  "blockingReason s = (if QueuePaused s then ''operator_pause''
     else case BlockedReasons s of r # _ \<Rightarrow> r
        | [] \<Rightarrow> if EngineReadiness s \<noteq> ''ready'' then ''engine_unavailable'' else [])"

definition addReason :: "string list \<Rightarrow> string \<Rightarrow> string list" where
  "addReason reasons reason = (if reason \<in> set reasons then reasons else reasons @ [reason])"

definition removeReason :: "string list \<Rightarrow> string \<Rightarrow> string list" where
  "removeReason reasons reason = filter (\<lambda>r. r \<noteq> reason) reasons"

text \<open>\<open>EXISTS(SELECT 1 FROM events WHERE dialog_id=? AND projection_key='dialog.deleted')\<close>\<close>

definition dialog_deleted :: "string \<Rightarrow> txn \<Rightarrow> bool" where
  "dialog_deleted d t = exists_row (\<lambda>e. e_dialog_id e = Some d \<and> e_projection_key e = Some ''dialog.deleted'') (events t)"

section \<open>Dialog and queue commands\<close>

definition applyDialogCreate :: "CommandEnvelope \<Rightarrow> handled dbtx" where
  "applyDialogCreate env = tbind (tgets st) (\<lambda>s.
     tseq (tguard (expd env ''registryVersion'' = RegistryVersion s) (stale (RegistryVersion s) ''registry''))
     (tbind newID (\<lambda>dialogID. tbind (tgets now) (\<lambda>at.
       tseq (tdo [
         insert_dialog \<lparr>dialog_id = dialogID, d_node_id = NodeID s, d_owner_id = OwnerID s, d_version = 1,
           d_title = nullText (pay env ''title''), d_created_at = at\<rparr>,
         mod_state (\<lambda>s. s\<lparr>StateVersion := StateVersion s + 1\<rparr>),
         appendNodeEvent])
       (tbind (tgets st) (\<lambda>s.
         tret (JObj [(''dialogId'', JStr dialogID)], ''admitted'', blockingReason s, None)))))))"

text \<open>
  The settlement query of \<open>applyDialogDelete\<close>: any unfinished request, attempt, control,
  tool call, approval, input, or tool completion with unknown effects in the dialog.
\<close>

definition ascii_lower :: "char \<Rightarrow> char" where
  "ascii_lower c = (if is_upper c then char_of ((of_char c :: int) + 32) else c)"

text \<open>SQLite's \<open>LIKE 'prefix%'\<close> ignores ASCII case.\<close>

definition like_prefix :: "string \<Rightarrow> string option \<Rightarrow> bool" where
  "like_prefix p x = (case x of None \<Rightarrow> False
     | Some s \<Rightarrow> map ascii_lower (take (length p) s) = map ascii_lower p)"

definition event_effect :: "event_row \<Rightarrow> string" where
  "event_effect e = (case jsub (jfield (e_json e) ''payload'') ''effectStatus'' of
     Some (JStr s) \<Rightarrow> s | _ \<Rightarrow> ''unknown'')"

definition known_effect :: "string \<Rightarrow> bool" where
  "known_effect s \<longleftrightarrow> s = ''none'' \<or> s = ''known''"

definition dialog_unresolved :: "string \<Rightarrow> txn \<Rightarrow> bool" where
  "dialog_unresolved d t \<longleftrightarrow>
     exists_row (\<lambda>r. r_dialog_id r = d \<and> r_status r \<notin> {RCancelled, RCompleted, RFailed, RInterrupted}) (requests t) \<or>
     exists_row (\<lambda>a. a_dialog_id a = d \<and> (a_state a \<notin> {ACompleted, AFailed, AInterrupted} \<or>
        \<not> known_effect (a_effect_status a))) (attempts t) \<or>
     exists_row (\<lambda>c. attempt_dialog (k_attempt_id c) t = Some d \<and> k_status c \<notin> {CAcknowledged, CRejected}) (control_actions t) \<or>
     exists_row (\<lambda>c. attempt_dialog (t_attempt_id c) t = Some d \<and> t_status c \<notin> {''succeeded'', ''failed''}) (tool_calls t) \<or>
     exists_row (\<lambda>p. attempt_dialog (p_attempt_id p) t = Some d \<and> p_status p \<noteq> IResolved) (approvals t) \<or>
     exists_row (\<lambda>i. attempt_dialog (i_attempt_id i) t = Some d \<and> i_status i \<noteq> IResolved) (input_requests t) \<or>
     exists_row (\<lambda>e. e_dialog_id e = Some d \<and> like_prefix ''tool.completed:'' (e_projection_key e) \<and>
        \<not> known_effect (event_effect e)) (events t)"

definition applyDialogDelete :: "CommandEnvelope \<Rightarrow> handled dbtx" where
  "applyDialogDelete env = (let dialogID = tgt env ''dialogId'' in
     tbind (tfind (\<lambda>t. lookup_row dialog_id dialogID (dialogs t)) (reject 404 ''not_found'' ''dialog was not found'')) (\<lambda>d.
     tseq (tcheck (\<lambda>t. \<not> dialog_deleted dialogID t) (reject 404 ''not_found'' ''dialog was not found''))
     (tseq (tguard (expd env ''dialogVersion'' = d_version d) (stale (d_version d) ''active''))
     (tseq (tcheck (\<lambda>t. \<not> dialog_unresolved dialogID t) (stale (d_version d) ''active''))
     (tseq (tdo [
        update_dialogs dialogID (\<lambda>r. r\<lparr>d_version := d_version r + 1\<rparr>),
        mod_state (\<lambda>s. s\<lparr>StateVersion := StateVersion s + 1\<rparr>)])
     (tseq (appendEvent ''dialog.deleted'' dialogID (d_version d + 1) [] dialogID (JObj [(''dialogId'', JStr dialogID)]) False)
     (tbind (tgets st) (\<lambda>s.
       (let tombstone = (\<lambda>e. e_node_id e = NodeID s \<and> e_seq e = LastEventSeq s \<and> e_projection_key e = None) in
        tseq (tcheck (\<lambda>t. count_rows tombstone (events t) = 1) (Internal ''dialog tombstone event binding failed''))
        (tseq (update_events tombstone (\<lambda>e. e\<lparr>e_projection_key := Some ''dialog.deleted''\<rparr>))
          (tret (JObj [(''dialogId'', JStr dialogID)], ''deleted'', [], None))))))))))))"

definition applyMessageEnqueue :: "CommandEnvelope \<Rightarrow> handled dbtx" where
  "applyMessageEnqueue env = (let dialogID = tgt env ''dialogId'' in
     tbind (tfind (\<lambda>t. lookup_row dialog_id dialogID (dialogs t)) NoRows) (\<lambda>d.
     tseq (tguard (expd env ''dialogVersion'' = d_version d) (stale (d_version d) ''dialog''))
     (tseq (tcheck (\<lambda>t. \<not> QueueCapacity \<le> PendingCount (st t)) (reject 429 ''queue_full'' ''pending queue is full''))
     (tbind newID (\<lambda>messageID. tbind newID (\<lambda>requestID. tbind (tgets (\<lambda>t. (st t, now t))) (\<lambda>(s, at).
       tseq (tdo [
         insert_message \<lparr>message_id = messageID, m_dialog_id = dialogID, m_sequence = NextMessageSequence s,
           m_version = 1, m_role = RoleUser, m_text = Some (pay env ''text''), m_content = None,
           m_disposition = Some DQueued, m_command_id = Some (CommandID env), m_request_id = Some requestID,
           m_attempt_id = None, m_finish_reason = None, m_created_at = at\<rparr>,
         insert_request \<lparr>request_id = requestID, r_dialog_id = dialogID, r_input_message_id = messageID,
           r_queue_sequence = NextQueueSequence s, r_version = 1, r_status = RQueued, r_created_at = at, r_updated_at = at\<rparr>,
         update_dialogs dialogID (\<lambda>r. r\<lparr>d_version := d_version r + 1\<rparr>),
         mod_state (\<lambda>s. s\<lparr>NextMessageSequence := NextMessageSequence s + 1, NextQueueSequence := NextQueueSequence s + 1,
           PendingCount := PendingCount s + 1, QueueVersion := QueueVersion s + 1, StateVersion := StateVersion s + 1\<rparr>)])
       (tseq (appendEvent ''message.accepted'' messageID 1 [] []
          (json_MessageAccepted dialogID messageID requestID (NextMessageSequence s)) False)
       (tseq (tdo [appendQueueEvent, appendNodeEvent])
       (tbind (tgets st) (\<lambda>s.
         tret (JObj [(''dialogId'', JStr dialogID), (''messageId'', JStr messageID), (''requestId'', JStr requestID)],
           ''admitted'', blockingReason s, None))))))))))))"

definition applyRequestCancel :: "CommandEnvelope \<Rightarrow> handled dbtx" where
  "applyRequestCancel env = (let requestID = tgt env ''requestId'' in
     tbind (tfind (\<lambda>t. lookup_row request_id requestID (requests t)) NoRows) (\<lambda>r.
     tseq (tguard (expd env ''requestVersion'' = r_version r) (stale (r_version r) (request_status_text (r_status r))))
     (tseq (tguard (r_status r = RQueued) (stale (r_version r) (request_status_text (r_status r))))
     (tbind (tgets now) (\<lambda>at.
       tseq (tdo [
         update_requests requestID (\<lambda>r. r\<lparr>r_version := r_version r + 1, r_status := RCancelled, r_updated_at := at\<rparr>),
         update_messages (r_input_message_id r) (\<lambda>m. m\<lparr>m_version := m_version m + 1, m_disposition := Some DCancelled\<rparr>),
         mod_state (\<lambda>s. s\<lparr>PendingCount := PendingCount s - 1, QueueVersion := QueueVersion s + 1,
           StateVersion := StateVersion s + 1\<rparr>)])
       (tseq (appendEvent ''message.disposition_changed'' (r_input_message_id r) 2 [] []
          (json_MessageDisposition (r_input_message_id r) ''queued'' ''cancelled'' ''request_cancelled'') False)
       (tseq (tdo [appendQueueEvent, appendNodeEvent])
         (tret (JObj [(''requestId'', JStr requestID)], ''admitted'', [], None)))))))))"

definition applyQueueResume :: "CommandEnvelope \<Rightarrow> handled dbtx" where
  "applyQueueResume env = tbind (tgets st) (\<lambda>s.
     tseq (tguard (expd env ''queueVersion'' = QueueVersion s) (stale (QueueVersion s) ''queue''))
     (tseq (tdo [
        mod_state (\<lambda>s. s\<lparr>QueuePaused := False, BlockedReasons := removeReason (BlockedReasons s) ''operator_pause'',
          QueueVersion := QueueVersion s + 1, StateVersion := StateVersion s + 1\<rparr>),
        appendQueueEvent, appendNodeEvent])
     (tbind (tgets st) (\<lambda>s.
        tret (JObj [(''nodeId'', JStr (NodeID s))], ''applied'', blockingReason s, None)))))"

section \<open>Attempt commands\<close>

definition applyAttemptStop :: "CommandEnvelope \<Rightarrow> handled dbtx" where
  "applyAttemptStop env = (let attemptID = tgt env ''attemptId'' in
     tbind (tfind (\<lambda>t. lookup_row attempt_id attemptID (attempts t)) NoRows) (\<lambda>a.
     tseq (tcheck (\<lambda>t. expd env ''attemptGeneration'' = a_generation a \<and> ActiveAttemptID (st t) = Some attemptID)
        (stale (a_generation a) (attempt_state_text (a_state a))))
     (tseq (tguard (a_state a \<in> {ADispatching, ARunning, AWaitingInput, AStopping})
        (stale (a_generation a) (attempt_state_text (a_state a))))
     (tseq (tdo [
        update_attempts attemptID (\<lambda>a. a\<lparr>a_version := a_version a + 1, a_state := AStopping\<rparr>),
        mod_state (\<lambda>s. s\<lparr>QueuePaused := True, BlockedReasons := addReason (BlockedReasons s) ''operator_pause'',
          QueueVersion := QueueVersion s + 1, StateVersion := StateVersion s + 1\<rparr>)])
     (tseq (appendEvent ''attempt.stop_requested'' attemptID (a_version a + 1) attemptID (a_dialog_id a)
        (json_AttemptStopRequested (a_generation a) (CommandID env)) False)
     (tseq (tdo [appendQueueEvent, appendNodeEvent])
       (tret (JObj [(''attemptId'', JStr attemptID)], ''admitted'', ''operator_pause'',
         Some \<lparr>act_kind = CKind env, act_attempt_id = attemptID, act_message_id = [], act_actor_id = [],
           act_payload = emptyPayload\<lparr>Generation := a_generation a, DialogID := a_dialog_id a,
             RequestID := a_request_id a\<rparr>\<rparr>))))))))"

text \<open>
  The retry eligibility query. \<open>attempt_request\<close> is the join of an attempt with its request;
  \<open>latest_sequence\<close> and \<open>latest_generation\<close> are the two \<open>MAX\<close> subqueries over an input
  message.
\<close>

definition attempt_request :: "txn \<Rightarrow> attempt_row \<Rightarrow> request_row option" where
  "attempt_request t a = lookup_row request_id (a_request_id a) (requests t)"

definition latest_sequence :: "string \<Rightarrow> txn \<Rightarrow> int option" where
  "latest_sequence m t = max_col r_queue_sequence (filter (\<lambda>r. r_input_message_id r = m) (requests t))"

definition latest_generation :: "string \<Rightarrow> txn \<Rightarrow> int option" where
  "latest_generation m t = max_col a_generation (filter (\<lambda>a. case attempt_request t a of
     None \<Rightarrow> False | Some r \<Rightarrow> r_input_message_id r = m) (attempts t))"

definition is_latest :: "string \<Rightarrow> txn \<Rightarrow> attempt_row \<Rightarrow> request_row \<Rightarrow> bool" where
  "is_latest m t a r \<longleftrightarrow> latest_sequence m t = Some (r_queue_sequence r) \<and> latest_generation m t = Some (a_generation a)"

definition retry_current :: "string \<Rightarrow> string \<Rightarrow> txn \<Rightarrow> bool" where
  "retry_current attemptID m t = exists_row (\<lambda>a. attempt_id a = attemptID \<and> (case attempt_request t a of
     None \<Rightarrow> False | Some r \<Rightarrow> is_latest m t a r)) (attempts t)"

text \<open>The last request and attempt of an input both ended without effects.\<close>

definition failed_effect_free :: "string \<Rightarrow> txn \<Rightarrow> bool" where
  "failed_effect_free m t = exists_row (\<lambda>a. case attempt_request t a of None \<Rightarrow> False
     | Some r \<Rightarrow> r_input_message_id r = m \<and> is_latest m t a r \<and> r_status r \<in> {RFailed, RInterrupted} \<and>
         a_state a \<in> {AFailed, AInterrupted} \<and> a_effect_status a = ''none'') (attempts t)"

definition later_input :: "string \<Rightarrow> string \<Rightarrow> txn \<Rightarrow> message_row \<Rightarrow> bool" where
  "later_input dialogID m t x \<longleftrightarrow> m_dialog_id x = dialogID \<and> m_role x = RoleUser \<and>
     exists_row (\<lambda>r. r_input_message_id r = message_id x) (requests t) \<and>
     (case lookup_row message_id m (messages t) of None \<Rightarrow> False | Some y \<Rightarrow> m_sequence y < m_sequence x)"

definition retry_eligible :: "string \<Rightarrow> string \<Rightarrow> string \<Rightarrow> txn \<Rightarrow> bool" where
  "retry_eligible attemptID dialogID m t \<longleftrightarrow> retry_current attemptID m t \<and>
     \<not> exists_row (\<lambda>x. later_input dialogID m t x \<and> \<not> failed_effect_free (message_id x) t) (messages t)"

definition applyAttemptRetry :: "CommandEnvelope \<Rightarrow> handled dbtx" where
  "applyAttemptRetry env = (let attemptID = tgt env ''attemptId'' in
     tbind (tfind (\<lambda>t. case lookup_row attempt_id attemptID (attempts t) of None \<Rightarrow> None
        | Some a \<Rightarrow> map_option (\<lambda>r. (a, r)) (attempt_request t a)) NoRows) (\<lambda>(a, r).
     (let messageID = r_input_message_id r; dialogID = a_dialog_id a in
     tseq (tguard (expd env ''attemptGeneration'' = a_generation a) (stale (a_generation a) (attempt_state_text (a_state a))))
     (tseq (tguard (a_state a \<in> {AFailed, AInterrupted}) (stale (a_generation a) (attempt_state_text (a_state a))))
     (tseq (tguard (a_effect_status a \<noteq> ''unknown'') (reject 409 ''stale'' ''unknown effects require reconciliation''))
     (tseq (tguard (\<not> (a_effect_status a = ''known'' \<and> \<not> jbool (jfield (Payload env) ''acknowledgeKnownEffects'')))
        (reject 409 ''stale'' ''known effects require acknowledgement''))
     (tseq (tcheck (retry_eligible attemptID dialogID messageID)
        (reject 409 ''stale'' ''retry target is superseded or outside the safe failed tail''))
     (tseq (tcheck (\<lambda>t. \<not> QueueCapacity \<le> PendingCount (st t)) (reject 429 ''queue_full'' ''pending queue is full''))
     (tseq (tcheck (\<lambda>t. \<not> exists_row (\<lambda>r. r_input_message_id r = messageID \<and>
          r_status r \<in> {RQueued, RDispatching, RActive, RUnknown}) (requests t))
        (reject 409 ''stale'' ''a retry for this input is already pending''))
     (tbind newID (\<lambda>requestID. tbind (tgets (\<lambda>t. (st t, now t))) (\<lambda>(s, at).
       tseq (tdo [
         insert_request \<lparr>request_id = requestID, r_dialog_id = dialogID, r_input_message_id = messageID,
           r_queue_sequence = NextQueueSequence s, r_version = 1, r_status = RQueued, r_created_at = at, r_updated_at = at\<rparr>,
         mod_state (\<lambda>s. s\<lparr>NextQueueSequence := NextQueueSequence s + 1, PendingCount := PendingCount s + 1,
           QueueVersion := QueueVersion s + 1, StateVersion := StateVersion s + 1\<rparr>),
         appendQueueEvent, appendNodeEvent])
       (tbind (tgets st) (\<lambda>s.
         tret (JObj [(''priorAttemptId'', JStr attemptID), (''requestId'', JStr requestID)],
           ''admitted'', blockingReason s, None)))))))))))))))"

text \<open>\<open>Scan\<close> into a Go string fails on a NULL column.\<close>

definition scan_text :: "'a option \<Rightarrow> 'a dbtx" where
  "scan_text x = (case x of None \<Rightarrow> tfail (Internal ''converting NULL to string is unsupported'') | Some s \<Rightarrow> tret s)"

definition applyMessageSteer :: "CommandEnvelope \<Rightarrow> handled dbtx" where
  "applyMessageSteer env = (let attemptID = tgt env ''attemptId''; messageID = tgt env ''messageId'';
       dialogID = tgt env ''dialogId'' in
     tbind (tfind (\<lambda>t. lookup_row attempt_id attemptID (attempts t)) NoRows) (\<lambda>a.
     tbind (tfind (\<lambda>t. find (\<lambda>m. message_id m = messageID \<and> m_dialog_id m = dialogID) (messages t)) NoRows) (\<lambda>m.
     tbind (scan_text (m_disposition m)) (\<lambda>disposition.
     tbind (scan_text (m_request_id m)) (\<lambda>requestID.
     tbind (scan_text (m_text m)) (\<lambda>text.
     tseq (tcheck (\<lambda>t. a_generation a = expd env ''attemptGeneration'' \<and> m_version m = expd env ''messageVersion'' \<and>
          a_dialog_id a = dialogID \<and> ActiveAttemptID (st t) = Some attemptID)
        (stale (a_generation a) (attempt_state_text (a_state a))))
     (tseq (tguard (disposition = DQueued \<and> (a_state a = ARunning \<or> a_state a = AWaitingInput))
        (stale (m_version m) (disposition_text disposition)))
     (tseq (tdo [
        update_messages messageID (\<lambda>m. m\<lparr>m_version := m_version m + 1, m_disposition := Some DSteerPending\<rparr>),
        mod_state (\<lambda>s. s\<lparr>QueueVersion := QueueVersion s + 1, StateVersion := StateVersion s + 1\<rparr>)])
     (tseq (appendEvent ''message.disposition_changed'' messageID (m_version m + 1) [] []
        (json_MessageDisposition messageID ''queued'' ''steer_pending'' ''steer_requested'') False)
     (tseq appendQueueEvent
       (tret (JObj [(''dialogId'', JStr dialogID), (''messageId'', JStr messageID), (''attemptId'', JStr attemptID)],
         ''admitted'', [],
         Some \<lparr>act_kind = CKind env, act_attempt_id = attemptID, act_message_id = messageID, act_actor_id = [],
           act_payload = emptyPayload\<lparr>Generation := a_generation a, DialogID := dialogID,
             RequestID := requestID, Text := text\<rparr>\<rparr>))))))))))))"

section \<open>Responses to the attempt\<close>

definition applyApproval :: "Config \<Rightarrow> CommandEnvelope \<Rightarrow> handled dbtx" where
  "applyApproval cfg env = (let approvalID = tgt env ''approvalId''; attemptID = tgt env ''attemptId'' in
     tbind (tfind (\<lambda>t. case find (\<lambda>p. approval_id p = approvalID \<and> p_attempt_id p = attemptID) (approvals t) of
          None \<Rightarrow> None | Some p \<Rightarrow> map_option (\<lambda>a. (p, a)) (lookup_row attempt_id (p_attempt_id p) (attempts t))) NoRows)
       (\<lambda>(p, a).
     tseq (tguard (p_version p = expd env ''approvalVersion'' \<and> a_generation a = expd env ''attemptGeneration'' \<and>
          p_status p = IPending \<and> p_action_hash p = pay env ''actionHash'')
        (stale (p_version p) (interaction_text (p_status p))))
     (tseq (update_approvals (\<lambda>x. approval_id x = approvalID)
          (\<lambda>x. x\<lparr>p_version := p_version x + 1, p_status := IResponding, p_decision := Some (pay env ''decision''),
             p_actor_id := Some (CfgOwnerID cfg)\<rparr>))
       (tret (JObj [(''approvalId'', JStr approvalID), (''attemptId'', JStr attemptID)], ''admitted'', [],
         Some \<lparr>act_kind = CKind env, act_attempt_id = attemptID, act_message_id = [], act_actor_id = CfgOwnerID cfg,
           act_payload = emptyPayload\<lparr>Generation := a_generation a, DialogID := a_dialog_id a, RequestID := a_request_id a,
             ApprovalID := approvalID, ApprovalVersion := p_version p + 1, CallID := p_call_id p,
             ActionHash := p_action_hash p, Decision := pay env ''decision''\<rparr>\<rparr>)))))"

definition applyInput :: "Config \<Rightarrow> CommandEnvelope \<Rightarrow> handled dbtx" where
  "applyInput cfg env = (let inputID = tgt env ''inputRequestId''; attemptID = tgt env ''attemptId'' in
     tbind (tfind (\<lambda>t. case find (\<lambda>i. input_request_id i = inputID \<and> i_attempt_id i = attemptID) (input_requests t) of
          None \<Rightarrow> None | Some i \<Rightarrow> map_option (\<lambda>a. (i, a)) (lookup_row attempt_id (i_attempt_id i) (attempts t))) NoRows)
       (\<lambda>(i, a).
     tseq (tguard (i_version i = expd env ''inputVersion'' \<and> a_generation a = expd env ''attemptGeneration'' \<and>
          i_status i = IPending) (stale (i_version i) (interaction_text (i_status i))))
     (tbind newID (\<lambda>messageID. tbind (tgets (\<lambda>t. (st t, now t))) (\<lambda>(s, at).
       tseq (tdo [
         insert_message \<lparr>message_id = messageID, m_dialog_id = a_dialog_id a, m_sequence = NextMessageSequence s,
           m_version = 1, m_role = RoleUser, m_text = Some (pay env ''text''), m_content = None,
           m_disposition = Some DApplied, m_command_id = Some (CommandID env), m_request_id = Some (a_request_id a),
           m_attempt_id = Some attemptID, m_finish_reason = None, m_created_at = at\<rparr>,
         update_inputs (\<lambda>x. input_request_id x = inputID)
           (\<lambda>x. x\<lparr>i_version := i_version x + 1, i_status := IResponding, i_response_message_id := Some messageID\<rparr>),
         mod_state (\<lambda>s. s\<lparr>NextMessageSequence := NextMessageSequence s + 1\<rparr>)])
       (tret (JObj [(''inputRequestId'', JStr inputID), (''attemptId'', JStr attemptID), (''messageId'', JStr messageID)],
         ''admitted'', [],
         Some \<lparr>act_kind = CKind env, act_attempt_id = attemptID, act_message_id = messageID, act_actor_id = CfgOwnerID cfg,
           act_payload = emptyPayload\<lparr>Generation := a_generation a, DialogID := a_dialog_id a, RequestID := a_request_id a,
             InputRequestID := inputID, InputVersion := i_version i + 1, Text := pay env ''text''\<rparr>\<rparr>)))))))"

definition applyCommand :: "Config \<Rightarrow> CommandEnvelope \<Rightarrow> handled dbtx" where
  "applyCommand cfg env = (case CKind env of
      CommandDialogCreate \<Rightarrow> applyDialogCreate env
    | CommandMessageEnqueue \<Rightarrow> applyMessageEnqueue env
    | CommandRequestCancel \<Rightarrow> applyRequestCancel env
    | CommandQueueResume \<Rightarrow> applyQueueResume env
    | CommandAttemptStop \<Rightarrow> applyAttemptStop env
    | CommandAttemptRetry \<Rightarrow> applyAttemptRetry env
    | CommandMessageSteer \<Rightarrow> applyMessageSteer env
    | CommandApprovalRespond \<Rightarrow> applyApproval cfg env
    | CommandInputRespond \<Rightarrow> applyInput cfg env
    | CommandDialogDelete \<Rightarrow> tfail (reject 400 ''invalid'' ''unsupported command kind''))"

definition sample_config :: Config where
  "sample_config = \<lparr>CfgNodeID = sample_node, CfgOwnerID = ''owner'', CfgAdapterKind = ''cursor'', CfgAdapterVersion = ''1.0.31''\<rparr>"

lemmas handler_code [code] =
  applyDialogCreate_def [unfolded exec_unfold]
  applyDialogDelete_def [unfolded exec_unfold]
  applyMessageEnqueue_def [unfolded exec_unfold]
  applyRequestCancel_def [unfolded exec_unfold]
  applyQueueResume_def [unfolded exec_unfold]
  applyAttemptStop_def [unfolded exec_unfold]
  applyAttemptRetry_def [unfolded exec_unfold]
  scan_text_def [unfolded exec_unfold]
  applyMessageSteer_def [unfolded exec_unfold]
  applyApproval_def [unfolded exec_unfold]
  applyInput_def [unfolded exec_unfold]
  applyCommand_def [unfolded exec_unfold]

section \<open>The handlers keep every store invariant\<close>

context settled_frame
begin

lemma keep_applyDialogCreate: "keeps I (applyDialogCreate env)"
  unfolding applyDialogCreate_def by (intro keeps keep_all) (simp_all add: frame_defs)

lemma keep_applyDialogDelete: "keeps I (applyDialogDelete env)"
  unfolding applyDialogDelete_def by (intro keeps keep_all) (simp_all add: frame_defs)

lemma keep_applyMessageEnqueue: "keeps I (applyMessageEnqueue env)"
  unfolding applyMessageEnqueue_def by (intro keeps keep_all) (simp_all add: frame_defs)

lemma keep_applyRequestCancel: "keeps I (applyRequestCancel env)"
  unfolding applyRequestCancel_def by (intro keeps keep_all) (simp_all add: frame_defs)

lemma keep_applyQueueResume: "keeps I (applyQueueResume env)"
  unfolding applyQueueResume_def by (intro keeps keep_all) (simp_all add: frame_defs)

lemma keep_applyAttemptRetry: "keeps I (applyAttemptRetry env)"
  unfolding applyAttemptRetry_def by (intro keeps keep_all) (simp_all add: frame_defs)

lemma keep_scan_text: "keeps I (scan_text x)"
  unfolding scan_text_def by (intro keeps)

lemma keep_applyMessageSteer: "keeps I (applyMessageSteer env)"
  unfolding applyMessageSteer_def by (intro keeps keep_all keep_scan_text) (simp_all add: frame_defs)

lemma keep_applyApproval: "keeps I (applyApproval cfg env)"
  unfolding applyApproval_def by (intro keeps keep_all) (simp_all add: frame_defs)

lemma keep_applyInput: "keeps I (applyInput cfg env)"
  unfolding applyInput_def by (intro keeps keep_all) (simp_all add: frame_defs)

lemma keep_applyAttemptStop: "keeps I (applyAttemptStop env)"
proof (rule keepsI)
  fix t
  assume "I t"
  then show "wp (applyAttemptStop env) (\<lambda>_. I) t"
    unfolding applyAttemptStop_def Let_def
    by (intro wp_front wp_then wp_then_tdo keep_attempts_settled)
      (auto intro!: keeps keep_all simp: frame_defs)
qed

lemma keep_applyCommand: "keeps I (applyCommand cfg env)"
  unfolding applyCommand_def
  by (cases "CKind env") (simp_all add: keeps keep_applyDialogCreate keep_applyMessageEnqueue keep_applyRequestCancel
    keep_applyQueueResume keep_applyAttemptStop keep_applyAttemptRetry keep_applyMessageSteer keep_applyApproval
    keep_applyInput)

end

end
