(* ===== verification/Barrier.thy ===== *)
theory Barrier
  imports Wire
begin

text \<open>
  The administrative barrier contract of \<open>contracts/barrier/types.go\<close>: requests and receipts
  decoded with \<open>encoding/json\<close> into Go structs (\<open>decodeExact\<close>) and the validators. Unlike
  the wire contract, decoding goes through struct fields, so member names match without regard
  to case, a missing member leaves the zero value and \<open>null\<close> leaves the field as it was;
  \<open>exactFields\<close> and \<open>validScopeEncoding\<close> are the extra checks some types have. The model
  starts from the JSON value; \<open>strictjson.Valid\<close> and the size limit have already accepted the
  bytes.
\<close>

section \<open>Decoding into Go structs\<close>

text \<open>
  \<open>foldName\<close> of \<open>encoding/json\<close>: ASCII letters to upper case; the Kelvin sign and the long s
  (UTF-8 \<open>E2 84 AA\<close> and \<open>C5 BF\<close>) fold to K and S.
\<close>

definition ascii_upper :: "char \<Rightarrow> char" where
  "ascii_upper c = (if is_lower c then char_of ((of_char c :: int) - 32) else c)"

fun go_fold :: "string \<Rightarrow> string" where
  "go_fold [] = []"
| "go_fold (c # cs) =
     (if c = CHR 0xE2 \<and> take 2 cs = [CHR 0x84, CHR 0xAA] then CHR ''K'' # go_fold (drop 2 cs)
      else if c = CHR 0xC5 \<and> take 1 cs = [CHR 0xBF] then CHR ''S'' # go_fold (drop 1 cs)
      else ascii_upper c # go_fold cs)"

type_synonym members = "(string \<times> json) list"

definition go_members :: "string \<Rightarrow> members \<Rightarrow> json list" where
  "go_members name item = map snd (filter (\<lambda>(k, v). go_fold k = go_fold name) item)"

text \<open>Successive assignments to one field; the result is \<open>None\<close> when one of them fails.\<close>

fun go_assign :: "(json \<Rightarrow> 'a \<Rightarrow> 'a option) \<Rightarrow> json list \<Rightarrow> 'a \<Rightarrow> 'a option" where
  "go_assign f [] x = Some x"
| "go_assign f (v # vs) x = (case f v x of None \<Rightarrow> None | Some y \<Rightarrow> go_assign f vs y)"

definition set_string :: "json \<Rightarrow> string \<Rightarrow> string option" where
  "set_string v x = (case v of JStr s \<Rightarrow> Some s | JNull \<Rightarrow> Some x | _ \<Rightarrow> None)"

text \<open>\<open>strconv.ParseInt(literal, 10, 64)\<close>\<close>

definition parse_int64 :: "string \<Rightarrow> int option" where
  "parse_int64 s = (case s of [] \<Rightarrow> None
     | c # cs \<Rightarrow> if c = CHR ''-'' then
           (if cs \<noteq> [] \<and> list_all is_digit cs \<and> decimal 0 cs \<le> 2 ^ 63 then Some (- decimal 0 cs) else None)
         else (if list_all is_digit s \<and> decimal 0 s < 2 ^ 63 then Some (decimal 0 s) else None))"

definition set_int :: "json \<Rightarrow> int \<Rightarrow> int option" where
  "set_int v x = (case v of JNum s \<Rightarrow> parse_int64 s | JNull \<Rightarrow> Some x | _ \<Rightarrow> None)"

definition set_bool :: "json \<Rightarrow> bool \<Rightarrow> bool option" where
  "set_bool v x = (case v of JBool b \<Rightarrow> Some b | JNull \<Rightarrow> Some x | _ \<Rightarrow> None)"

text \<open>A \<open>*string\<close> field: \<open>null\<close> is nil.\<close>

definition set_ptr :: "json \<Rightarrow> string option \<Rightarrow> string option option" where
  "set_ptr v x = (case v of JStr s \<Rightarrow> Some (Some s) | JNull \<Rightarrow> Some None | _ \<Rightarrow> None)"

definition go_string :: "string \<Rightarrow> members \<Rightarrow> string option" where
  "go_string name item = go_assign set_string (go_members name item) []"

definition go_int :: "string \<Rightarrow> members \<Rightarrow> int option" where
  "go_int name item = go_assign set_int (go_members name item) 0"

definition go_bool :: "string \<Rightarrow> members \<Rightarrow> bool option" where
  "go_bool name item = go_assign set_bool (go_members name item) False"

definition go_ptr :: "string \<Rightarrow> members \<Rightarrow> string option option" where
  "go_ptr name item = go_assign set_ptr (go_members name item) None"

text \<open>\<open>DisallowUnknownFields\<close>\<close>

definition known_fields :: "string list \<Rightarrow> members \<Rightarrow> bool" where
  "known_fields names item = list_all (\<lambda>(k, v). go_fold k \<in> go_fold ` set names) item"

record Scope =
  sc_kind :: string
  sc_dialog :: string

text \<open>A nested struct: objects merge into it one after the other, \<open>null\<close> leaves it.\<close>

fun scope_members :: "json list \<Rightarrow> members option" where
  "scope_members [] = Some []"
| "scope_members (JObj m # vs) = map_option (\<lambda>r. m @ r) (scope_members vs)"
| "scope_members (JNull # vs) = scope_members vs"
| "scope_members (v # vs) = None"

definition go_scope :: "members \<Rightarrow> Scope option" where
  "go_scope item = (case scope_members (go_members ''scope'' item) of None \<Rightarrow> None
     | Some m \<Rightarrow> if \<not> known_fields [''kind'', ''dialogId''] m then None
        else (case (go_string ''kind'' m, go_string ''dialogId'' m) of
            (Some k, Some d) \<Rightarrow> Some \<lparr>sc_kind = k, sc_dialog = d\<rparr>
          | _ \<Rightarrow> None))"

section \<open>Shared checks\<close>

definition BarrierSchemaID :: string where "BarrierSchemaID = ''harness-barrier-v1''"

definition operationPattern :: "string \<Rightarrow> bool" where
  "operationPattern s = (case s of [] \<Rightarrow> False
     | c # cs \<Rightarrow> (is_digit c \<or> is_lower c \<or> is_upper c) \<and> length cs \<le> 127 \<and>
         list_all (\<lambda>d. is_digit d \<or> is_lower d \<or> is_upper d \<or> d \<in> set ''._:@-'') cs)"

definition exactFields :: "string list \<Rightarrow> members \<Rightarrow> bool" where
  "exactFields names item \<longleftrightarrow> length item = length names \<and> list_all (\<lambda>k. map_of item k \<noteq> None) names"

definition validPins :: "int \<Rightarrow> string \<Rightarrow> bool" where
  "validPins version schema \<longleftrightarrow> version = 1 \<and> schema = BarrierSchemaID"

definition validSafeInteger :: "int \<Rightarrow> bool" where
  "validSafeInteger v \<longleftrightarrow> 0 \<le> v \<and> v \<le> MaximumSafeInteger"

definition validPositiveInteger :: "int \<Rightarrow> bool" where
  "validPositiveInteger v \<longleftrightarrow> 0 < v \<and> v \<le> MaximumSafeInteger"

definition validScope :: "Scope \<Rightarrow> bool" where
  "validScope s = (if sc_kind s = ''node'' then sc_dialog s = []
     else if sc_kind s = ''dialog'' then uuidPattern (sc_dialog s) else False)"

definition validScopeEncoding :: "members \<Rightarrow> bool" where
  "validScopeEncoding item = (case map_of item ''scope'' of
      Some (JObj scope) \<Rightarrow> (case map_of scope ''kind'' of
          Some (JStr kind) \<Rightarrow> if kind = ''node'' then length scope = 1
             else if kind = ''dialog'' then length scope = 2 \<and> map_of scope ''dialogId'' \<noteq> None
             else False
        | _ \<Rightarrow> False)
    | _ \<Rightarrow> False)"

definition validRejectedCommand :: "string \<Rightarrow> bool" where
  "validRejectedCommand kind \<longleftrightarrow> kind \<in> {''dialog.create'', ''dialog.delete'', ''message.enqueue'',
     ''queue.resume'', ''attempt.retry''}"

text \<open>
  \<open>time.Parse\<close> followed by \<open>Format\<close> must give the text back: no trailing zero in the fraction,
  and the zero offset written as \<open>Z\<close>. \<open>time.Parse\<close> admits offsets up to 24 hours.
\<close>

definition strict_zone :: "string \<Rightarrow> bool" where
  "strict_zone z \<longleftrightarrow> z = ''Z'' \<or>
     (matches [\<lambda>c. c \<in> set ''+-'', is_digit, is_digit, lit CHR '':'', is_digit, is_digit] z \<and>
      decimal 0 (take 2 (drop 1 z)) \<le> 24 \<and> decimal 0 (take 2 (drop 4 z)) \<le> 59 \<and>
      (decimal 0 (take 2 (drop 1 z)) \<noteq> 0 \<or> decimal 0 (take 2 (drop 4 z)) \<noteq> 0))"

definition validTimestamp :: "string \<Rightarrow> bool" where
  "validTimestamp s \<longleftrightarrow> matches datetime_shape (take 19 s) \<and> calendar_ok s \<and>
     (case drop 19 s of
        c # cs \<Rightarrow> if c = CHR ''.''
          then (let ds = takeWhile is_digit cs in ds \<noteq> [] \<and> length ds \<le> 9 \<and> last ds \<noteq> CHR ''0'' \<and>
                  strict_zone (drop (length ds) cs))
          else strict_zone (c # cs)
      | [] \<Rightarrow> False)"

section \<open>Requests and receipts\<close>

record InstallRequest =
  ir_operation :: string
  ir_node :: string
  ir_epoch :: int
  ir_binding :: int
  ir_scope :: Scope
  ir_revision :: int

definition install_fields :: "string list" where
  "install_fields = [''protocolVersion'', ''schemaId'', ''operationId'', ''nodeId'', ''expectedEpoch'',
     ''bindingGeneration'', ''scope'', ''expectedScopeRevision'']"

text \<open>\<open>Validate("installRequest")\<close>, together with the decoded request.\<close>

definition installRequest :: "json \<Rightarrow> InstallRequest option" where
  "installRequest v = (case v of JObj item \<Rightarrow>
     (if \<not> known_fields install_fields item then None
      else (case (go_int ''protocolVersion'' item, go_string ''schemaId'' item, go_string ''operationId'' item,
                 go_string ''nodeId'' item, go_int ''expectedEpoch'' item, go_int ''bindingGeneration'' item,
                 go_scope item, go_int ''expectedScopeRevision'' item) of
          (Some pv, Some sid, Some opr, Some nid, Some ep, Some bg, Some sc, Some rvn) \<Rightarrow>
            if validPins pv sid \<and> operationPattern opr \<and> uuidPattern nid \<and> validPositiveInteger ep \<and>
               validPositiveInteger bg \<and> validSafeInteger rvn \<and> validScope sc \<and> validScopeEncoding item
            then Some \<lparr>ir_operation = opr, ir_node = nid, ir_epoch = ep, ir_binding = bg, ir_scope = sc, ir_revision = rvn\<rparr>
            else None
        | _ \<Rightarrow> None))
    | _ \<Rightarrow> None)"

record ReleaseRequest =
  rr_operation :: string
  rr_node :: string
  rr_epoch :: int
  rr_binding :: int
  rr_scope :: Scope
  rr_hold_version :: int
  rr_revision :: int
  rr_action :: string

definition release_fields :: "string list" where
  "release_fields = [''protocolVersion'', ''schemaId'', ''operationId'', ''nodeId'', ''expectedEpoch'',
     ''bindingGeneration'', ''scope'', ''holdVersion'', ''expectedScopeRevision'', ''action'']"

definition releaseRequest :: "json \<Rightarrow> ReleaseRequest option" where
  "releaseRequest v = (case v of JObj item \<Rightarrow>
     (if \<not> known_fields release_fields item \<or> \<not> exactFields release_fields item then None
      else (case (go_int ''protocolVersion'' item, go_string ''schemaId'' item, go_string ''operationId'' item,
                 go_string ''nodeId'' item, go_int ''expectedEpoch'' item, go_int ''bindingGeneration'' item,
                 go_scope item, go_int ''holdVersion'' item, go_int ''expectedScopeRevision'' item, go_string ''action'' item) of
          (Some pv, Some sid, Some opr, Some nid, Some ep, Some bg, Some sc, Some hv, Some rvn, Some act) \<Rightarrow>
            if validPins pv sid \<and> operationPattern opr \<and> uuidPattern nid \<and> validPositiveInteger ep \<and>
               validPositiveInteger bg \<and> validScope sc \<and> validScopeEncoding item \<and> validPositiveInteger hv \<and>
               validPositiveInteger rvn \<and> (act = ''release'' \<or> act = ''cancel'')
            then Some \<lparr>rr_operation = opr, rr_node = nid, rr_epoch = ep, rr_binding = bg, rr_scope = sc,
                   rr_hold_version = hv, rr_revision = rvn, rr_action = act\<rparr>
            else None
        | _ \<Rightarrow> None))
    | _ \<Rightarrow> None)"

definition json_Scope :: "Scope \<Rightarrow> json" where
  "json_Scope s = JObj ([(''kind'', JStr (sc_kind s))] @
     (if sc_dialog s = [] then [] else [(''dialogId'', JStr (sc_dialog s))]))"

record HoldReceipt =
  hr_operation :: string
  hr_receipt :: string
  hr_node :: string
  hr_epoch :: int
  hr_binding :: int
  hr_scope :: Scope
  hr_hold_version :: int
  hr_revision :: int
  hr_installed_at :: string

definition json_HoldReceipt :: "HoldReceipt \<Rightarrow> json" where
  "json_HoldReceipt r = JObj [(''protocolVersion'', jnum 1), (''schemaId'', JStr BarrierSchemaID),
     (''kind'', JStr ''hold.installed''), (''operationId'', JStr (hr_operation r)), (''receiptId'', JStr (hr_receipt r)),
     (''nodeId'', JStr (hr_node r)), (''epoch'', jnum (hr_epoch r)), (''bindingGeneration'', jnum (hr_binding r)),
     (''scope'', json_Scope (hr_scope r)), (''holdVersion'', jnum (hr_hold_version r)),
     (''scopeRevision'', jnum (hr_revision r)), (''installedAt'', JStr (hr_installed_at r))]"

definition hold_receipt_fields :: "string list" where
  "hold_receipt_fields = [''protocolVersion'', ''schemaId'', ''kind'', ''operationId'', ''receiptId'', ''nodeId'', ''epoch'',
     ''bindingGeneration'', ''scope'', ''holdVersion'', ''scopeRevision'', ''installedAt'']"

text \<open>\<open>Validate("holdReceipt")\<close>\<close>

definition validHoldReceipt :: "json \<Rightarrow> bool" where
  "validHoldReceipt v = (case v of JObj item \<Rightarrow> known_fields hold_receipt_fields item \<and>
     (case (go_int ''protocolVersion'' item, go_string ''schemaId'' item, go_string ''kind'' item,
            go_string ''operationId'' item, go_string ''receiptId'' item, go_string ''nodeId'' item,
            go_int ''epoch'' item, go_int ''bindingGeneration'' item, go_scope item, go_int ''holdVersion'' item,
            go_int ''scopeRevision'' item, go_string ''installedAt'' item) of
        (Some pv, Some sid, Some kind, Some opr, Some rid, Some nid, Some ep, Some bg, Some sc, Some hv, Some rvn, Some at) \<Rightarrow>
          validPins pv sid \<and> kind = ''hold.installed'' \<and> operationPattern opr \<and> uuidPattern rid \<and> uuidPattern nid \<and>
          validPositiveInteger ep \<and> validPositiveInteger bg \<and> validPositiveInteger hv \<and> validPositiveInteger rvn \<and>
          validScope sc \<and> validScopeEncoding item \<and> validTimestamp at
      | _ \<Rightarrow> False)
    | _ \<Rightarrow> False)"

record RejectionReceipt =
  xr_command :: string
  xr_kind :: string
  xr_receipt :: string
  xr_node :: string
  xr_epoch :: int
  xr_hash :: string
  xr_rejected_at :: string
  xr_hold_operation :: string
  xr_hold_version :: int
  xr_scope :: Scope
  xr_revision :: int

definition json_RejectionReceipt :: "RejectionReceipt \<Rightarrow> json" where
  "json_RejectionReceipt r = JObj [(''protocolVersion'', jnum 1), (''schemaId'', JStr BarrierSchemaID),
     (''kind'', JStr ''command.rejected''), (''commandId'', JStr (xr_command r)), (''commandKind'', JStr (xr_kind r)),
     (''receiptId'', JStr (xr_receipt r)), (''nodeId'', JStr (xr_node r)), (''epoch'', jnum (xr_epoch r)),
     (''canonicalPayloadHash'', JStr (xr_hash r)), (''rejectedAt'', JStr (xr_rejected_at r)),
     (''reason'', JStr ''administrative_hold''), (''holdOperationId'', JStr (xr_hold_operation r)),
     (''holdVersion'', jnum (xr_hold_version r)), (''scope'', json_Scope (xr_scope r)),
     (''scopeRevision'', jnum (xr_revision r))]"

definition rejection_receipt_fields :: "string list" where
  "rejection_receipt_fields = [''protocolVersion'', ''schemaId'', ''kind'', ''commandId'', ''commandKind'', ''receiptId'',
     ''nodeId'', ''epoch'', ''canonicalPayloadHash'', ''rejectedAt'', ''reason'', ''holdOperationId'', ''holdVersion'',
     ''scope'', ''scopeRevision'']"

definition validRejectionReceipt :: "json \<Rightarrow> bool" where
  "validRejectionReceipt v = (case v of JObj item \<Rightarrow> known_fields rejection_receipt_fields item \<and>
     (case (go_int ''protocolVersion'' item, go_string ''schemaId'' item, go_string ''kind'' item,
            go_string ''commandId'' item, go_string ''commandKind'' item, go_string ''receiptId'' item,
            go_string ''nodeId'' item, go_int ''epoch'' item, go_string ''canonicalPayloadHash'' item,
            go_string ''rejectedAt'' item, go_string ''reason'' item, go_string ''holdOperationId'' item,
            go_int ''holdVersion'' item, go_scope item, go_int ''scopeRevision'' item) of
        (Some pv, Some sid, Some kind, Some cid, Some ck, Some rid, Some nid, Some ep, Some hash, Some at, Some reason,
         Some hop, Some hv, Some sc, Some rvn) \<Rightarrow>
          validPins pv sid \<and> kind = ''command.rejected'' \<and> uuidPattern cid \<and> validRejectedCommand ck \<and> uuidPattern rid \<and>
          uuidPattern nid \<and> validPositiveInteger ep \<and> sha256Pattern hash \<and> validTimestamp at \<and>
          reason = ''administrative_hold'' \<and> operationPattern hop \<and> validPositiveInteger hv \<and>
          validPositiveInteger rvn \<and> validScope sc \<and> validScopeEncoding item
      | _ \<Rightarrow> False)
    | _ \<Rightarrow> False)"

record ReleaseReceipt =
  rl_kind :: string
  rl_operation :: string
  rl_receipt :: string
  rl_node :: string
  rl_epoch :: int
  rl_binding :: int
  rl_scope :: Scope
  rl_hold_version :: int
  rl_revision :: int
  rl_manual_pause :: bool
  rl_released_at :: string

definition json_ReleaseReceipt :: "ReleaseReceipt \<Rightarrow> json" where
  "json_ReleaseReceipt r = JObj [(''protocolVersion'', jnum 1), (''schemaId'', JStr BarrierSchemaID),
     (''kind'', JStr (rl_kind r)), (''operationId'', JStr (rl_operation r)), (''receiptId'', JStr (rl_receipt r)),
     (''nodeId'', JStr (rl_node r)), (''epoch'', jnum (rl_epoch r)), (''bindingGeneration'', jnum (rl_binding r)),
     (''scope'', json_Scope (rl_scope r)), (''holdVersion'', jnum (rl_hold_version r)),
     (''scopeRevision'', jnum (rl_revision r)), (''manualPause'', JBool (rl_manual_pause r)),
     (''releasedAt'', JStr (rl_released_at r))]"

definition release_receipt_fields :: "string list" where
  "release_receipt_fields = [''protocolVersion'', ''schemaId'', ''kind'', ''operationId'', ''receiptId'', ''nodeId'', ''epoch'',
     ''bindingGeneration'', ''scope'', ''holdVersion'', ''scopeRevision'', ''manualPause'', ''releasedAt'']"

definition validReleaseReceipt :: "json \<Rightarrow> bool" where
  "validReleaseReceipt v = (case v of JObj item \<Rightarrow> known_fields release_receipt_fields item \<and>
     (case (go_int ''protocolVersion'' item, go_string ''schemaId'' item, go_string ''kind'' item,
            go_string ''operationId'' item, go_string ''receiptId'' item, go_string ''nodeId'' item,
            go_int ''epoch'' item, go_int ''bindingGeneration'' item, go_scope item, go_int ''holdVersion'' item,
            go_int ''scopeRevision'' item, go_bool ''manualPause'' item, go_string ''releasedAt'' item) of
        (Some pv, Some sid, Some kind, Some opr, Some rid, Some nid, Some ep, Some bg, Some sc, Some hv, Some rvn,
         Some mp, Some at) \<Rightarrow>
          exactFields release_receipt_fields item \<and> validPins pv sid \<and>
          (kind = ''hold.released'' \<or> kind = ''hold.cancelled'') \<and> operationPattern opr \<and> uuidPattern rid \<and>
          uuidPattern nid \<and> validPositiveInteger ep \<and> validPositiveInteger bg \<and> validScope sc \<and>
          validScopeEncoding item \<and> validPositiveInteger hv \<and> validPositiveInteger rvn \<and> validTimestamp at
      | _ \<Rightarrow> False)
    | _ \<Rightarrow> False)"

record QuiescenceProof =
  qp_operation :: string
  qp_node :: string
  qp_epoch :: int
  qp_binding :: int
  qp_scope :: Scope
  qp_hold_version :: int
  qp_revision :: int
  qp_state_version :: int
  qp_queue_revision :: int
  qp_parked_digest :: string
  qp_stream :: string
  qp_seq :: int
  qp_active :: "string option"
  qp_effect :: string
  qp_unsettled :: int

definition proof_members :: "QuiescenceProof \<Rightarrow> members" where
  "proof_members p = [(''protocolVersion'', jnum 1), (''schemaId'', JStr BarrierSchemaID),
     (''kind'', JStr ''scope.parked''), (''operationId'', JStr (qp_operation p)), (''nodeId'', JStr (qp_node p)),
     (''epoch'', jnum (qp_epoch p)), (''bindingGeneration'', jnum (qp_binding p)), (''scope'', json_Scope (qp_scope p)),
     (''holdVersion'', jnum (qp_hold_version p)), (''scopeRevision'', jnum (qp_revision p)),
     (''stateVersion'', jnum (qp_state_version p)), (''queueRevision'', jnum (qp_queue_revision p)),
     (''parkedRequestIdsDigest'', JStr (qp_parked_digest p)), (''checkpointStreamId'', JStr (qp_stream p)),
     (''checkpointSeq'', jnum (qp_seq p)), (''active'', case qp_active p of None \<Rightarrow> JNull | Some a \<Rightarrow> JStr a),
     (''effectStatus'', JStr (qp_effect p)), (''unsettledCount'', jnum (qp_unsettled p))]"

text \<open>
  \<open>ComputeProofHash\<close>: the digest \<open>H\<close> (\<open>hex(sha256(...))\<close>) of the domain tag and the encoding
  of every field but the hash.
\<close>

definition ComputeProofHash :: "(string \<Rightarrow> string) \<Rightarrow> QuiescenceProof \<Rightarrow> string" where
  "ComputeProofHash H p = H (''hl263-quiescence-proof/v1'' @ [CHR 0x00] @ go_marshal (JObj (proof_members p)))"

text \<open>
  \<open>Validate("quiescenceProof")\<close> on a proof the node has just encoded from the struct: the field
  checks on the struct and the recomputed hash.
\<close>

definition validQuiescenceProof :: "(string \<Rightarrow> string) \<Rightarrow> QuiescenceProof \<Rightarrow> string \<Rightarrow> bool" where
  "validQuiescenceProof H p hash \<longleftrightarrow> operationPattern (qp_operation p) \<and> uuidPattern (qp_node p) \<and>
     validPositiveInteger (qp_epoch p) \<and> validPositiveInteger (qp_binding p) \<and> validScope (qp_scope p) \<and>
     validPositiveInteger (qp_hold_version p) \<and> validPositiveInteger (qp_revision p) \<and>
     validPositiveInteger (qp_state_version p) \<and> validPositiveInteger (qp_queue_revision p) \<and>
     sha256Pattern (qp_parked_digest p) \<and> uuidPattern (qp_stream p) \<and> validPositiveInteger (qp_seq p) \<and>
     qp_active p = None \<and> qp_effect p = ''known'' \<and> qp_unsettled p = 0 \<and> sha256Pattern hash \<and>
     hash = ComputeProofHash H p"

definition json_QuiescenceProof :: "QuiescenceProof \<Rightarrow> string \<Rightarrow> json" where
  "json_QuiescenceProof p hash = JObj (proof_members p @ [(''proofHash'', JStr hash)])"

section \<open>Lemmas\<close>

text \<open>A decoded install request has been validated.\<close>

lemma installRequest_valid:
  "installRequest v = Some r \<Longrightarrow> operationPattern (ir_operation r) \<and> uuidPattern (ir_node r) \<and>
     validPositiveInteger (ir_epoch r) \<and> validPositiveInteger (ir_binding r) \<and> validSafeInteger (ir_revision r) \<and>
     validScope (ir_scope r)"
  by (auto simp: installRequest_def split: json.splits if_splits option.splits prod.splits)

lemma releaseRequest_valid:
  "releaseRequest v = Some r \<Longrightarrow> validScope (rr_scope r) \<and> (rr_action r = ''release'' \<or> rr_action r = ''cancel'')"
  by (auto simp: releaseRequest_def split: json.splits if_splits option.splits prod.splits)

end
