(* ===== verification/Hold.thy ===== *)
theory Hold
  imports Commands Barrier
begin

text \<open>
  Administrative holds, \<open>runtime/hold.go\<close>: installing a hold, its status, the quiescence proof,
  releasing a hold, the durable outcome of a command and the hold that covers a command. Also
  the envelope that every operator and command entry point shares: begin, run the body, commit
  or roll back, deliver.
\<close>

section \<open>Entry points\<close>

text \<open>
  The environment of one entry point: identities and clock, and the outcome of each effect
  outside the database (beginning the transaction, releasing the control reserve file, the
  fault points, the commit, the storage probes). \<open>io_correlation\<close> is the fresh identity that
  \<open>errorResult\<close> draws when the caller gave none.
\<close>

record io =
  io_ids :: "string list"
  io_now :: string
  io_correlation :: string
  io_begin :: bool
  io_reserve :: bool
  io_before_commit :: bool
  io_commit :: bool
  io_after_commit :: bool
  io_storage_low :: bool
  io_admission_space :: bool

definition not_durable :: "string \<Rightarrow> tx_error" where
  "not_durable message = CommandFailure 503 ''not_durable'' message None []"

text \<open>\<open>if err != nil { return errorResult(503, "not_durable", message) }\<close> after a statement.\<close>

definition durably :: "string \<Rightarrow> 'a dbtx \<Rightarrow> 'a dbtx" where
  "durably message m = (\<lambda>t. case m t of Inl e \<Rightarrow> Inl (not_durable message) | Inr r \<Rightarrow> Inr r)"

definition commandError :: "tx_error \<Rightarrow> string \<Rightarrow> Result" where
  "commandError e correlation = (case e of
      CommandFailure status code message ver cur \<Rightarrow> errorResult status code message correlation ver cur
    | _ \<Rightarrow> errorResult 503 ''not_durable'' ''durable operation failed'' correlation None [])"

text \<open>
  A body returns the response and, when it reached the commit, the error messages of the fault
  point before the commit, of the commit itself and of the fault point after it. Without them
  the transaction is rolled back.
\<close>

type_synonym 'a entry = "('a \<times> (string \<times> string \<times> string) option) dbtx"

definition run_entry :: "Result entry \<Rightarrow> io \<Rightarrow> string \<Rightarrow> database \<Rightarrow> Result \<times> database" where
  "run_entry body e correlation db =
     (if \<not> io_begin e then (errorResult 503 ''not_durable'' ''durable store is unavailable'' correlation None [], db)
      else case body (begin_tx db (io_ids e) (io_now e)) of
         Inl err \<Rightarrow> (commandError err correlation, db)
       | Inr ((r, None), t) \<Rightarrow> (r, db)
       | Inr ((r, Some (early, commit, late)), t) \<Rightarrow>
           if \<not> io_before_commit e then (errorResult 503 ''not_durable'' early correlation None [], db)
           else if \<not> io_commit e then (errorResult 503 ''not_durable'' commit correlation None [], db)
           else if \<not> io_after_commit e then
             ((errorResult 503 ''node_unavailable'' late correlation None [])\<lparr>Committed := True\<rparr>, commit_tx t)
           else (r, commit_tx t))"

lemma wp_durably [wp]: "wp (durably msg m) Q t = wp m Q t"
  by (simp add: wp_def durably_def split: sum.split)

lemma keeps_durably [keeps]: "keeps I m \<Longrightarrow> keeps I (durably msg m)"
  by (simp add: keeps_def wp)

lemma ends_saved_durably [saved]: "ends_saved m \<Longrightarrow> ends_saved (durably msg m)"
  by (simp add: ends_saved_def wp)

section \<open>Holds in force\<close>

definition hold_active :: "txn \<Rightarrow> hold_row \<Rightarrow> bool" where
  "hold_active t h \<longleftrightarrow> \<not> exists_row (\<lambda>x. o_operation_id x = operation_id h) (hold_outcomes t)"

definition hold_scope_of :: "hold_row \<Rightarrow> Scope" where
  "hold_scope_of h = \<lparr>sc_kind = (if h_scope h = ScopeNode then ''node'' else ''dialog''),
     sc_dialog = (case h_dialog_id h of None \<Rightarrow> [] | Some d \<Rightarrow> d)\<rparr>"

definition scope_key_of :: "Scope \<Rightarrow> string" where
  "scope_key_of s = (if sc_kind s = ''dialog'' then ''dialog:'' @ sc_dialog s else sc_kind s)"

text \<open>\<open>(?='node' OR dialog_id=?)\<close>\<close>

definition in_scope :: "Scope \<Rightarrow> string \<Rightarrow> bool" where
  "in_scope s d \<longleftrightarrow> sc_kind s = ''node'' \<or> d = sc_dialog s"

definition hold_conflicts :: "Scope \<Rightarrow> hold_row \<Rightarrow> bool" where
  "hold_conflicts s h \<longleftrightarrow> h_scope h = ScopeNode \<or> sc_kind s = ''node'' \<or>
     (h_scope h = ScopeDialog \<and> h_dialog_id h = Some (sc_dialog s))"

text \<open>Attempts whose start is still owed to the adapter, inside the scope.\<close>

definition pre_start :: "Scope \<Rightarrow> txn \<Rightarrow> bool" where
  "pre_start s t = exists_row (\<lambda>a. a_node_id a = NodeID (st t) \<and> a_state a = ADispatching \<and> a_started_at a = None \<and>
     in_scope s (a_dialog_id a) \<and>
     exists_row (\<lambda>c. k_attempt_id c = attempt_id a \<and> k_kind c = ActionDispatchStart \<and>
        k_status c \<in> {CPending, CInflight}) (control_actions t)) (attempts t)"

section \<open>Installing a hold\<close>

definition hold_messages :: "string \<times> string \<times> string" where
  "hold_messages = (''hold commit was not attempted'', ''atomic hold commit failed'', ''hold receipt delivery was interrupted'')"

definition install_body :: "InstallRequest \<Rightarrow> json \<Rightarrow> string \<Rightarrow> io \<Rightarrow> Result entry" where
  "install_body rq raw digest e = tbind (tgets id) (\<lambda>t.
    case lookup_row operation_id (ir_operation rq) (administrative_holds t) of
      Some h \<Rightarrow> tseq (tguard (h_hash h = digest) (reject 409 ''id_conflict'' ''operationId already names different bytes''))
                 (tret (\<lparr>HTTPStatus = 200, Body = h_receipt h, Committed = False\<rparr>, None))
    | None \<Rightarrow> (let s = st t; scope = ir_scope rq; key = scope_key_of scope;
          current = (case scope_revision key t of None \<Rightarrow> 0 | Some v \<Rightarrow> v) in
        tseq (tguard (ir_epoch rq = Epoch s \<and> ir_binding rq = RegistryVersion s)
          (CommandFailure 409 ''stale'' ''node binding changed'' (Some (Epoch s)) ''blocked''))
        (tseq (tguard (sc_kind scope = ''dialog'' \<longrightarrow> exists_row (\<lambda>d. dialog_id d = sc_dialog scope \<and> d_node_id d = NodeID s \<and>
              d_owner_id d = OwnerID s \<and> \<not> dialog_deleted (dialog_id d) t) (dialogs t))
          (reject 404 ''not_found'' ''dialog was not found''))
        (tseq (tguard (\<not> pre_start scope t) (CommandFailure 409 ''stale'' ''dispatch start is already in progress'' None ''active''))
        (tseq (tguard (\<not> exists_row (\<lambda>h. h_node_id h = NodeID s \<and> hold_active t h \<and> hold_conflicts scope h) (administrative_holds t))
          (CommandFailure 409 ''stale'' ''scope is already held'' None ''blocked''))
        (tseq (tguard (ir_revision rq = current)
          (CommandFailure 409 ''stale'' ''hold scope revision changed'' (Some current) ''blocked''))
        (tbind (durably ''hold receipt identity is unavailable'' newID) (\<lambda>receiptID.
        (let receipt = \<lparr>hr_operation = ir_operation rq, hr_receipt = receiptID, hr_node = NodeID s, hr_epoch = Epoch s,
              hr_binding = RegistryVersion s, hr_scope = scope, hr_hold_version = hold_clock t,
              hr_revision = current + 1, hr_installed_at = now t\<rparr> in
         tseq (tguard (validHoldReceipt (json_HoldReceipt receipt)) (not_durable ''internal hold receipt is invalid''))
         (tseq (tguard (io_reserve e) (not_durable ''control reserve is unavailable''))
         (tseq (tdo [
            durably ''hold clock commit failed'' (advance_hold_clock (hold_clock t)),
            durably ''hold revision commit failed'' (upsert_scope_revision key (current + 1)),
            durably ''hold commit failed'' (insert_hold \<lparr>operation_id = ir_operation rq, h_node_id = NodeID s,
              h_node_epoch = Epoch s, h_binding_generation = RegistryVersion s,
              h_scope = (if sc_kind scope = ''node'' then ScopeNode else ScopeDialog),
              h_dialog_id = nullText (sc_dialog scope), h_hold_version = hold_clock t, h_scope_revision = current + 1,
              h_canonical = raw, h_hash = digest, h_receipt = json_HoldReceipt receipt, h_installed_at = now t\<rparr>)])
           (tret (\<lparr>HTTPStatus = 201, Body = json_HoldReceipt receipt, Committed = True\<rparr>, Some hold_messages)))))))))))))"

text \<open>\<open>CanonicalInstallRequest\<close> and \<open>CanonicalReleaseRequest\<close>: validation, canonical text, digest.\<close>

definition CanonicalInstallRequest :: "(string \<Rightarrow> string) \<Rightarrow> json \<Rightarrow> (InstallRequest \<times> string) option" where
  "CanonicalInstallRequest H raw = (case (installRequest raw, appendCanonical raw) of
     (Some r, Some c) \<Rightarrow> Some (r, H c) | _ \<Rightarrow> None)"

definition CanonicalReleaseRequest :: "(string \<Rightarrow> string) \<Rightarrow> json \<Rightarrow> (ReleaseRequest \<times> string) option" where
  "CanonicalReleaseRequest H raw = (case (releaseRequest raw, appendCanonical raw) of
     (Some r, Some c) \<Rightarrow> Some (r, H c) | _ \<Rightarrow> None)"

definition InstallHold :: "(string \<Rightarrow> string) \<Rightarrow> Config \<Rightarrow> string \<Rightarrow> io \<Rightarrow> json option \<Rightarrow> database \<Rightarrow> Result \<times> database" where
  "InstallHold H cfg transport e raw db = (let c = io_correlation e in
     if transport \<noteq> CfgNodeID cfg then (errorResult 404 ''not_found'' ''node was not found'' c None [], db)
     else case raw of None \<Rightarrow> (errorResult 400 ''invalid'' ''hold request does not match harness-barrier-v1'' c None [], db)
     | Some v \<Rightarrow> (case CanonicalInstallRequest H v of
         None \<Rightarrow> (errorResult 400 ''invalid'' ''hold request does not match harness-barrier-v1'' c None [], db)
       | Some (rq, digest) \<Rightarrow>
           if ir_node rq \<noteq> CfgNodeID cfg then (errorResult 404 ''not_found'' ''node was not found'' c None [], db)
           else run_entry (install_body rq v digest e) e c db))"

section \<open>Hold status and quiescence proof\<close>

definition HoldStatus :: "Config \<Rightarrow> string \<Rightarrow> io \<Rightarrow> string \<Rightarrow> database \<Rightarrow> Result" where
  "HoldStatus cfg transport e operationID db = (let c = io_correlation e in
     if transport \<noteq> CfgNodeID cfg then errorResult 404 ''not_found'' ''node was not found'' c None []
     else if operationID = [] \<or> 128 < length operationID then errorResult 400 ''invalid'' ''operation id is invalid'' c None []
     else case lookup_row operation_id operationID (administrative_holds db) of
       None \<Rightarrow> errorResult 404 ''not_found'' ''hold was not found'' c None []
     | Some h \<Rightarrow> if validHoldReceipt (h_receipt h) then \<lparr>HTTPStatus = 200, Body = h_receipt h, Committed = False\<rparr>
         else errorResult 503 ''not_durable'' ''hold status is invalid'' c None [])"

text \<open>The seven counts of the settlement query; a scope is settled when their sum is zero.\<close>

definition attempt_in_scope :: "Scope \<Rightarrow> txn \<Rightarrow> string \<Rightarrow> bool" where
  "attempt_in_scope s t a = (case lookup_row attempt_id a (attempts t) of None \<Rightarrow> False
     | Some x \<Rightarrow> a_node_id x = NodeID (st t) \<and> in_scope s (a_dialog_id x))"

definition unsettled_count :: "Scope \<Rightarrow> txn \<Rightarrow> int" where
  "unsettled_count s t =
     count_rows (\<lambda>r. in_scope s (r_dialog_id r) \<and> r_status r \<in> {RDispatching, RActive, RUnknown}) (requests t) +
     count_rows (\<lambda>a. a_node_id a = NodeID (st t) \<and> in_scope s (a_dialog_id a) \<and> \<not> known_effect (a_effect_status a)) (attempts t) +
     count_rows (\<lambda>c. attempt_in_scope s t (k_attempt_id c) \<and> k_status c \<in> {CPending, CInflight, CUnknown}) (control_actions t) +
     count_rows (\<lambda>c. attempt_in_scope s t (t_attempt_id c) \<and> t_status c \<notin> {''succeeded'', ''failed''}) (tool_calls t) +
     count_rows (\<lambda>p. attempt_in_scope s t (p_attempt_id p) \<and> p_status p \<noteq> IResolved) (approvals t) +
     count_rows (\<lambda>i. attempt_in_scope s t (i_attempt_id i) \<and> i_status i \<noteq> IResolved) (input_requests t) +
     count_rows (\<lambda>e. (sc_kind s = ''node'' \<or> e_dialog_id e = Some (sc_dialog s)) \<and>
        like_prefix ''tool.completed:'' (e_projection_key e) \<and> \<not> known_effect (event_effect e)) (events t)"

text \<open>\<open>SELECT request_id ... ORDER BY queue_sequence,request_id\<close> of the parked queue.\<close>

definition parked_requests :: "Scope \<Rightarrow> txn \<Rightarrow> string list" where
  "parked_requests s t = map request_id (sort_key r_queue_sequence (sort_key request_id
     (filter (\<lambda>r. r_status r = RQueued \<and> in_scope s (r_dialog_id r)) (requests t))))"

definition quiescence_body :: "(string \<Rightarrow> string) \<Rightarrow> string \<Rightarrow> Result dbtx" where
  "quiescence_body H operationID = tbind (tgets id) (\<lambda>t. (let s = st t in
     case find (\<lambda>h. operation_id h = operationID \<and> h_node_id h = NodeID s \<and> hold_active t h) (administrative_holds t) of
       None \<Rightarrow> tfail (reject 404 ''not_found'' ''active hold was not found'')
     | Some h \<Rightarrow> (let scope = hold_scope_of h; key = scope_key_of scope in
        tseq (tguard (h_node_epoch h = Epoch s \<and> h_binding_generation h = RegistryVersion s)
          (CommandFailure 409 ''stale'' ''node binding changed'' (Some (Epoch s)) ''blocked''))
        (tseq (tguard (scope_revision key t = Some (h_scope_revision h)) (CommandFailure 409 ''stale'' ''hold scope revision changed''
            (Some (case scope_revision key t of None \<Rightarrow> 0 | Some v \<Rightarrow> v)) ''blocked''))
        (tbind (tfind (\<lambda>t. lookup_row scope_key key (quiescence t)) (not_durable ''scope checkpoint is unavailable'')) (\<lambda>q.
        tseq (tguard (\<not> exists_row (\<lambda>a. a_node_id a = NodeID s \<and> in_scope scope (a_dialog_id a) \<and> is_active (a_state a)) (attempts t))
          (CommandFailure 409 ''stale'' ''scope is not parked'' None ''active''))
        (tseq (tguard (unsettled_count scope t = 0)
          (CommandFailure 409 ''stale'' ''scope effects or controls are unsettled'' None ''unknown''))
        (let proof0 = \<lparr>qp_operation = operationID, qp_node = NodeID s, qp_epoch = Epoch s, qp_binding = RegistryVersion s,
              qp_scope = scope, qp_hold_version = h_hold_version h, qp_revision = h_scope_revision h,
              qp_state_version = q_state_version q, qp_queue_revision = q_queue_revision q,
              qp_parked_digest = H (''hl263-parked-requests/v1'' @ [CHR 0x00] @ go_marshal (JArr (map JStr (parked_requests scope t)))),
              qp_stream = (if sc_kind scope = ''dialog'' then sc_dialog scope else NodeID s),
              qp_seq = q_state_version q, qp_active = None, qp_effect = ''known'', qp_unsettled = 0\<rparr> in
         tseq (tguard (validQuiescenceProof H proof0 (ComputeProofHash H proof0)) (not_durable ''internal quiescence proof is invalid''))
           (tret \<lparr>HTTPStatus = 200, Body = json_QuiescenceProof proof0 (ComputeProofHash H proof0), Committed = False\<rparr>)))))))))"

definition validBarrierOperationID :: "string \<Rightarrow> bool" where
  "validBarrierOperationID v \<longleftrightarrow> v \<noteq> [] \<and> length v \<le> 128 \<and>
     list_all (\<lambda>i. is_upper (v ! i) \<or> is_lower (v ! i) \<or> is_digit (v ! i) \<or> (0 < i \<and> v ! i \<in> set ''._:@-'')) [0..<length v]"

definition QuiescenceProof :: "(string \<Rightarrow> string) \<Rightarrow> Config \<Rightarrow> string \<Rightarrow> io \<Rightarrow> string \<Rightarrow> database \<Rightarrow> Result" where
  "QuiescenceProof H cfg transport e operationID db = (let c = io_correlation e in
     if transport \<noteq> CfgNodeID cfg then errorResult 404 ''not_found'' ''node was not found'' c None []
     else if \<not> validBarrierOperationID operationID then errorResult 400 ''invalid'' ''operation id is invalid'' c None []
     else if \<not> io_begin e then errorResult 503 ''not_durable'' ''durable store is unavailable'' c None []
     else case quiescence_body H operationID (begin_tx db (io_ids e) (io_now e)) of
       Inl err \<Rightarrow> commandError err c | Inr (r, t) \<Rightarrow> r)"

section \<open>Releasing a hold\<close>

definition release_messages :: "string \<times> string \<times> string" where
  "release_messages = (''release commit was not attempted'', ''atomic release commit failed'', ''release receipt delivery was interrupted'')"

definition release_body :: "ReleaseRequest \<Rightarrow> json \<Rightarrow> string \<Rightarrow> io \<Rightarrow> Result entry" where
  "release_body rq raw digest e = tbind (tgets id) (\<lambda>t.
    case lookup_row o_operation_id (rr_operation rq) (hold_outcomes t) of
      Some x \<Rightarrow> tseq (tguard (o_hash x = digest) (reject 409 ''id_conflict'' ''operationId already names different release bytes''))
                 (tret (\<lparr>HTTPStatus = 200, Body = o_receipt x, Committed = False\<rparr>, None))
    | None \<Rightarrow> (let s = st t in
        tbind (tfind (\<lambda>t. find (\<lambda>h. operation_id h = rr_operation rq \<and> h_node_id h = NodeID s) (administrative_holds t))
           (reject 404 ''not_found'' ''hold was not found'')) (\<lambda>h.
        (let scope = hold_scope_of h; key = scope_key_of scope;
             current = (case scope_revision key t of None \<Rightarrow> 0 | Some v \<Rightarrow> v) in
        tseq (tguard (rr_epoch rq = Epoch s \<and> rr_epoch rq = h_node_epoch h \<and> rr_binding rq = RegistryVersion s \<and>
             rr_binding rq = h_binding_generation h \<and> rr_scope rq = scope \<and> rr_hold_version rq = h_hold_version h \<and>
             rr_revision rq = h_scope_revision h)
           (CommandFailure 409 ''stale'' ''hold binding changed'' (Some (Epoch s)) ''blocked''))
        (tseq (tguard (scope_revision key t = Some (h_scope_revision h))
           (CommandFailure 409 ''stale'' ''hold scope revision changed'' (Some current) ''blocked''))
        (tbind (durably ''release receipt identity is unavailable'' newID) (\<lambda>receiptID.
        (let receipt = \<lparr>rl_kind = (if rr_action rq = ''cancel'' then ''hold.cancelled'' else ''hold.released''),
              rl_operation = rr_operation rq, rl_receipt = receiptID, rl_node = NodeID s, rl_epoch = Epoch s,
              rl_binding = RegistryVersion s, rl_scope = scope, rl_hold_version = h_hold_version h,
              rl_revision = current + 1, rl_manual_pause = QueuePaused s, rl_released_at = now t\<rparr> in
         tseq (tguard (validReleaseReceipt (json_ReleaseReceipt receipt)) (not_durable ''internal release receipt is invalid''))
         (tseq (tguard (io_reserve e) (not_durable ''control reserve is unavailable''))
         (tseq (tdo [
            durably ''release revision commit failed'' (advance_scope_revision key current (current + 1)),
            durably ''release commit failed'' (insert_outcome \<lparr>o_operation_id = rr_operation rq, o_action = rr_action rq,
              o_canonical = raw, o_hash = digest, o_receipt = json_ReleaseReceipt receipt,
              o_scope_revision = current + 1, o_released_at = now t\<rparr>)])
           (tret (\<lparr>HTTPStatus = 201, Body = json_ReleaseReceipt receipt, Committed = True\<rparr>, Some release_messages))))))))))))"

definition ReleaseHold :: "(string \<Rightarrow> string) \<Rightarrow> Config \<Rightarrow> string \<Rightarrow> io \<Rightarrow> json option \<Rightarrow> database \<Rightarrow> Result \<times> database" where
  "ReleaseHold H cfg transport e raw db = (let c = io_correlation e in
     if transport \<noteq> CfgNodeID cfg then (errorResult 404 ''not_found'' ''node was not found'' c None [], db)
     else case raw of None \<Rightarrow> (errorResult 400 ''invalid'' ''release request does not match harness-barrier-v1'' c None [], db)
     | Some v \<Rightarrow> (case CanonicalReleaseRequest H v of
         None \<Rightarrow> (errorResult 400 ''invalid'' ''release request does not match harness-barrier-v1'' c None [], db)
       | Some (rq, digest) \<Rightarrow>
           if rr_node rq \<noteq> CfgNodeID cfg then (errorResult 404 ''not_found'' ''node was not found'' c None [], db)
           else run_entry (release_body rq v digest e) e c db))"

section \<open>Durable outcome of a command\<close>

record storedCommandOutcome =
  oc_hash :: string
  oc_canonical :: json
  oc_body :: json
  oc_status :: nat
  oc_accepted :: bool

definition command_outcomes :: "string \<Rightarrow> txn \<Rightarrow> storedCommandOutcome list" where
  "command_outcomes c t =
     map (\<lambda>r. \<lparr>oc_hash = c_hash r, oc_canonical = c_canonical r, oc_body = c_receipt r, oc_status = 200, oc_accepted = True\<rparr>)
       (filter (\<lambda>r. command_id r = c) (commands t)) @
     map (\<lambda>x. \<lparr>oc_hash = x_hash x, oc_canonical = x_canonical x, oc_body = x_receipt x, oc_status = 409, oc_accepted = False\<rparr>)
       (filter (\<lambda>x. x_command_id x = c) (command_rejections t))"

definition loadCommandOutcome :: "string \<Rightarrow> storedCommandOutcome option dbtx" where
  "loadCommandOutcome c = tbind (tgets (command_outcomes c)) (\<lambda>rows. case rows of
      [] \<Rightarrow> tret None
    | [r] \<Rightarrow> tret (Some r)
    | _ \<Rightarrow> tfail (Internal ''command id has multiple durable outcomes''))"

section \<open>The hold that covers a command\<close>

text \<open>
  \<open>ORDER BY CASE scope WHEN 'node' THEN 0 ELSE 1 END, hold_version LIMIT 1\<close>: the oldest node hold
  if there is one, otherwise the oldest hold of the dialog.
\<close>

definition covering_hold :: "string \<Rightarrow> string \<Rightarrow> txn \<Rightarrow> hold_row option" where
  "covering_hold node dialogID t = (let live = filter (\<lambda>h. h_node_id h = node \<and> hold_active t h) (administrative_holds t) in
     case min_row h_hold_version (filter (\<lambda>h. h_scope h = ScopeNode) live) of
       Some h \<Rightarrow> Some h
     | None \<Rightarrow> if dialogID = [] then None
         else min_row h_hold_version (filter (\<lambda>h. h_scope h = ScopeDialog \<and> h_dialog_id h = Some dialogID) live))"

definition coveringHoldForCommand :: "Config \<Rightarrow> CommandEnvelope \<Rightarrow> hold_row option dbtx" where
  "coveringHoldForCommand cfg env = (case CKind env of
      CommandDialogCreate \<Rightarrow> tgets (covering_hold (CfgNodeID cfg) [])
    | CommandQueueResume \<Rightarrow> tgets (covering_hold (CfgNodeID cfg) [])
    | CommandDialogDelete \<Rightarrow> tgets (covering_hold (CfgNodeID cfg) (tgt env ''dialogId''))
    | CommandMessageEnqueue \<Rightarrow> tgets (covering_hold (CfgNodeID cfg) (tgt env ''dialogId''))
    | CommandAttemptRetry \<Rightarrow>
        tbind (tfind (\<lambda>t. lookup_row attempt_id (tgt env ''attemptId'') (attempts t)) NoRows) (\<lambda>a.
          tgets (covering_hold (CfgNodeID cfg) (a_dialog_id a)))
    | _ \<Rightarrow> tret None)"

definition rejection_messages :: "string \<times> string \<times> string" where
  "rejection_messages = (''rejection commit was not attempted'', ''atomic rejection commit failed'', ''rejection receipt delivery was interrupted'')"

definition commitCommandRejection :: "CommandEnvelope \<Rightarrow> json \<Rightarrow> string \<Rightarrow> hold_row \<Rightarrow> Result entry" where
  "commitCommandRejection env canonical digest h = tbind (tgets (\<lambda>t. (st t, now t))) (\<lambda>(s, at).
     tbind (durably ''rejection receipt identity is unavailable'' newID) (\<lambda>receiptID.
     (let receipt = json_RejectionReceipt \<lparr>xr_command = CommandID env, xr_kind = kind_text (CKind env), xr_receipt = receiptID,
           xr_node = NodeID s, xr_epoch = Epoch s, xr_hash = digest, xr_rejected_at = at,
           xr_hold_operation = operation_id h, xr_hold_version = h_hold_version h, xr_scope = hold_scope_of h,
           xr_revision = h_scope_revision h\<rparr> in
      tseq (tguard (validRejectionReceipt receipt) (not_durable ''internal rejection receipt is invalid''))
      (tseq (durably ''rejection commit failed'' (insert_rejection \<lparr>x_command_id = CommandID env, x_kind = CKind env,
          x_canonical = canonical, x_hash = digest, x_receipt = receipt, x_rejected_at = at,
          x_hold_operation_id = operation_id h\<rparr>))
        (tret (\<lparr>HTTPStatus = 409, Body = receipt, Committed = True\<rparr>, Some rejection_messages))))))"

text \<open>An environment in which every effect succeeds, for concrete runs.\<close>

definition sample_io :: io where
  "sample_io = \<lparr>io_ids = [''00000000-0000-4000-8000-0000000000a1'', ''00000000-0000-4000-8000-0000000000a2'',
       ''00000000-0000-4000-8000-0000000000a3''],
     io_now = ''2026-01-02T03:04:05Z'', io_correlation = ''00000000-0000-4000-8000-0000000000ff'', io_begin = True,
     io_reserve = True, io_before_commit = True, io_commit = True, io_after_commit = True, io_storage_low = False,
     io_admission_space = True\<rparr>"

definition sample_hash :: "string \<Rightarrow> string" where
  "sample_hash s = replicate 64 CHR ''a''"

lemmas hold_code [code] =
  install_body_def [unfolded exec_unfold]
  quiescence_body_def [unfolded exec_unfold]
  release_body_def [unfolded exec_unfold]
  loadCommandOutcome_def [unfolded exec_unfold]
  coveringHoldForCommand_def [unfolded exec_unfold]
  commitCommandRejection_def [unfolded exec_unfold]

section \<open>Lemmas\<close>

lemma list_all_nth: "list_all (\<lambda>i. Q (xs ! i)) [0..<length xs] = list_all Q xs"
  by (auto simp add: list_all_iff all_set_conv_all_nth)

lemma list_all_nth_Cons:
  "list_all (\<lambda>i. P i ((c # cs) ! i)) [0..<length (c # cs)] =
     (P 0 c \<and> list_all (\<lambda>i. P (Suc i) (cs ! i)) [0..<length cs])"
proof -
  have "[0..<length (c # cs)] = 0 # map Suc [0..<length cs]"
    by (simp add: upt_conv_Cons map_Suc_upt del: upt_Suc)
  then show ?thesis by (simp add: list.pred_map comp_def del: upt_Suc)
qed

lemma validBarrierOperationID_pattern: "validBarrierOperationID v = operationPattern v"
proof (cases v)
  case Nil
  then show ?thesis by (simp add: validBarrierOperationID_def operationPattern_def)
next
  case (Cons c cs)
  show ?thesis
    unfolding Cons validBarrierOperationID_def operationPattern_def
      list_all_nth_Cons [where P = "\<lambda>i d. is_upper d \<or> is_lower d \<or> is_digit d \<or> (0 < i \<and> d \<in> set ''._:@-'')"]
    using list_all_nth [where Q = "\<lambda>d. is_upper d \<or> is_lower d \<or> is_digit d \<or> d \<in> set ''._:@-''" and xs = cs]
    by (auto simp: list_all_iff)
qed

context settled_frame
begin

lemma run_entry_inv:
  assumes "keeps I body" and "keeps state_saved body" and "db_inv I db"
  shows "db_inv I (snd (run_entry body e c db))"
proof (cases "body (begin_tx db (io_ids e) (io_now e))")
  case (Inl err)
  then show ?thesis using assms(3) by (simp add: run_entry_def)
next
  case (Inr x)
  then obtain r msgs t where b: "body (begin_tx db (io_ids e) (io_now e)) = Inr ((r, msgs), t)"
    by (cases x) auto
  have "I t" using keeps_run [OF assms(1) db_inv_begin [OF assms(3)] b] .
  moreover have "state_saved t" using keeps_run [OF assms(2) begin_tx_saved b] .
  ultimately have "db_inv I (commit_tx t)" by (simp add: db_inv_def commit_begin clock_free)
  then show ?thesis using assms(3) b by (auto simp: run_entry_def split: option.split)
qed

lemma keep_outcome_read: "keeps I (loadCommandOutcome c)"
  unfolding loadCommandOutcome_def by (intro keeps) (simp add: keeps split: list.split)

lemma keep_covering: "keeps I (coveringHoldForCommand cfg env)"
  unfolding coveringHoldForCommand_def by (cases "CKind env") (simp_all, (intro keeps)+)

end

context release_frame
begin

lemma keep_release: "keeps I (release_body rq raw digest e)"
  unfolding release_body_def by (intro keeps keep_all keep_release_all)

end

context barrier_frame
begin

lemma keep_install: "keeps I (install_body rq raw digest e)"
  unfolding install_body_def by (intro keeps keep_all keep_barrier_all)

end

context admission_frame
begin

lemma keep_rejection_commit: "keeps I (commitCommandRejection env canonical digest h)"
  unfolding commitCommandRejection_def by (intro keeps keep_all keep_rejection)

end

end
