(* ===== verification/Submit.thy ===== *)
theory Submit
  imports Hold
begin

text \<open>
  Command admission, \<open>runtime/command.go\<close>: \<open>SubmitCommand\<close> is the only entry point for commands.
  It validates and canonicalizes the bytes, looks up the durable outcome of the identity,
  authorizes the target, refuses under an administrative hold with a durable rejection, applies
  the handler and commits receipt, control intent and state in one transaction. The lemmas show
  that an identity has at most one durable outcome, that repeating a command reads that outcome
  back without changing anything, and that the store invariants survive every admission.
\<close>

section \<open>The request\<close>

record ExpectedIdentity =
  ei_node :: string
  ei_registry :: int
  ei_epoch :: int
  ei_adapter_kind :: string
  ei_adapter_version :: string

record TrustContext =
  TransportNodeID :: string
  ExpectedID :: "ExpectedIdentity option"

definition bestEffortCommandID :: "json \<Rightarrow> string" where
  "bestEffortCommandID v = (case v of
      JObj m \<Rightarrow> (let ids = concat (map (\<lambda>x. case x of JStr s \<Rightarrow> [s] | _ \<Rightarrow> []) (go_members ''commandId'' m)) in
        if ids \<noteq> [] \<and> uuidPattern (last ids) then last ids else [])
    | _ \<Rightarrow> [])"

text \<open>\<open>json.Unmarshal\<close> of a validated command into \<open>CommandEnvelope\<close>.\<close>

definition decode_envelope :: "json \<Rightarrow> CommandEnvelope option" where
  "decode_envelope v = (case kind_of (jstr (jfield v ''kind'')) of None \<Rightarrow> None
     | Some k \<Rightarrow> (case (jfield v ''target'', jfield v ''expected'', jfield v ''payload'') of
         (Some tg, Some ex, Some py) \<Rightarrow>
            Some \<lparr>CommandID = jstr (jfield v ''commandId''), CKind = k, Target = tg, Expected = ex, Payload = py\<rparr>
       | _ \<Rightarrow> None))"

definition identity_matches :: "Config \<Rightarrow> TrustContext \<Rightarrow> durableState \<Rightarrow> bool" where
  "identity_matches cfg trust s = (case ExpectedID trust of None \<Rightarrow> True
     | Some x \<Rightarrow> ei_node x = CfgNodeID cfg \<and> ei_registry x = RegistryVersion s \<and> ei_epoch x = Epoch s \<and>
         ei_adapter_kind x = CfgAdapterKind cfg \<and> ei_adapter_version x = CfgAdapterVersion cfg)"

section \<open>Isolation of objects\<close>

text \<open>A dialog that is not tombstoned, as \<open>(node_id, owner_id)\<close>.\<close>

definition live_dialog :: "string \<Rightarrow> txn \<Rightarrow> (string \<times> string) option" where
  "live_dialog d t = (case lookup_row dialog_id d (dialogs t) of None \<Rightarrow> None
     | Some r \<Rightarrow> if dialog_deleted d t then None else Some (d_node_id r, d_owner_id r))"

definition via_attempt :: "string \<Rightarrow> txn \<Rightarrow> (string \<times> string) option" where
  "via_attempt a t = (case attempt_dialog a t of None \<Rightarrow> None | Some d \<Rightarrow> live_dialog d t)"

definition target_owner :: "CommandEnvelope \<Rightarrow> txn \<Rightarrow> (string \<times> string) option" where
  "target_owner env t = (case CKind env of
      CommandMessageEnqueue \<Rightarrow> live_dialog (tgt env ''dialogId'') t
    | CommandMessageSteer \<Rightarrow> live_dialog (tgt env ''dialogId'') t
    | CommandRequestCancel \<Rightarrow> (case lookup_row request_id (tgt env ''requestId'') (requests t) of
         None \<Rightarrow> None | Some r \<Rightarrow> live_dialog (r_dialog_id r) t)
    | CommandAttemptStop \<Rightarrow> via_attempt (tgt env ''attemptId'') t
    | CommandAttemptRetry \<Rightarrow> via_attempt (tgt env ''attemptId'') t
    | CommandApprovalRespond \<Rightarrow>
        if exists_row (\<lambda>p. approval_id p = tgt env ''approvalId'' \<and> p_attempt_id p = tgt env ''attemptId'') (approvals t)
        then via_attempt (tgt env ''attemptId'') t else None
    | CommandInputRespond \<Rightarrow>
        if exists_row (\<lambda>i. input_request_id i = tgt env ''inputRequestId'' \<and> i_attempt_id i = tgt env ''attemptId'') (input_requests t)
        then via_attempt (tgt env ''attemptId'') t else None
    | _ \<Rightarrow> None)"

definition authorizeObject :: "Config \<Rightarrow> CommandEnvelope \<Rightarrow> unit dbtx" where
  "authorizeObject cfg env =
     tseq (tguard (tgt env ''nodeId'' = CfgNodeID cfg) (reject 404 ''not_found'' ''target was not found''))
     (if CKind env \<in> {CommandDialogCreate, CommandQueueResume} then tret ()
      else if CKind env = CommandDialogDelete then tfail (reject 400 ''invalid'' ''unsupported command kind'')
      else tcheck (\<lambda>t. target_owner env t = Some (CfgNodeID cfg, CfgOwnerID cfg))
        (reject 404 ''not_found'' ''target was not found''))"

section \<open>Replaying an outcome\<close>

definition outcome_dialog :: "storedCommandOutcome \<Rightarrow> txn \<Rightarrow> string" where
  "outcome_dialog oc t = (let d = (if oc_accepted oc then jstr (jsub (jfield (oc_body oc) ''references'') ''dialogId'') else []);
       tg = (\<lambda>k. jstr (jsub (jfield (oc_canonical oc) ''target'') k)) in
     if d \<noteq> [] then d
     else if tg ''dialogId'' \<noteq> [] then tg ''dialogId''
     else if tg ''requestId'' \<noteq> [] then
       (case lookup_row request_id (tg ''requestId'') (requests t) of None \<Rightarrow> [] | Some r \<Rightarrow> r_dialog_id r)
     else if tg ''attemptId'' \<noteq> [] then
       (case attempt_dialog (tg ''attemptId'') t of None \<Rightarrow> [] | Some d \<Rightarrow> d)
     else if tg ''approvalId'' \<noteq> [] then
       (case lookup_row approval_id (tg ''approvalId'') (approvals t) of None \<Rightarrow> []
        | Some p \<Rightarrow> (case attempt_dialog (p_attempt_id p) t of None \<Rightarrow> [] | Some d \<Rightarrow> d))
     else if tg ''inputRequestId'' \<noteq> [] then
       (case lookup_row input_request_id (tg ''inputRequestId'') (input_requests t) of None \<Rightarrow> []
        | Some i \<Rightarrow> (case attempt_dialog (i_attempt_id i) t of None \<Rightarrow> [] | Some d \<Rightarrow> d))
     else [])"

definition commandOutcomeTargetsDeletedDialog :: "storedCommandOutcome \<Rightarrow> txn \<Rightarrow> bool" where
  "commandOutcomeTargetsDeletedDialog oc t = (let d = outcome_dialog oc t in d \<noteq> [] \<and> dialog_deleted d t)"

section \<open>Admission\<close>

definition admission_messages :: "string \<times> string \<times> string" where
  "admission_messages = (''commit was not attempted'', ''atomic commit failed'', ''receipt delivery was interrupted'')"

definition json_Receipt :: "Config \<Rightarrow> CommandEnvelope \<Rightarrow> string \<Rightarrow> string \<Rightarrow> int \<Rightarrow> string \<Rightarrow> string \<Rightarrow> json \<Rightarrow> json" where
  "json_Receipt cfg env receiptID at eventSeq result blocking references = JObj (
     [(''protocolVersion'', jnum ProtocolVersion), (''schemaId'', JStr SchemaID), (''commandId'', JStr (CommandID env)),
      (''commandKind'', JStr (kind_text (CKind env))), (''receiptId'', JStr receiptID), (''acceptedAt'', JStr at),
      (''nodeId'', JStr (CfgNodeID cfg)), (''eventSeq'', jnum eventSeq), (''result'', JStr result)] @
     omit ''blockingReason'' blocking @ [(''references'', references)])"

text \<open>The control reserve and the storage floors, in front of the handler.\<close>

definition storage_gate :: "io \<Rightarrow> CommandEnvelope \<Rightarrow> unit dbtx" where
  "storage_gate e env = (if IsAdmissionCommand (CKind env)
     then tguard (io_admission_space e) (not_durable ''admission storage floor is unavailable'')
     else tseq (tguard (io_reserve e) (not_durable ''control reserve is unavailable''))
       (if io_storage_low e then mod_state (\<lambda>s. s\<lparr>EngineReadiness := ''blocked'',
            BlockedReasons := addReason (BlockedReasons s) ''storage_unavailable''\<rparr>)
        else tret ()))"

definition enqueue_action :: "CommandEnvelope \<Rightarrow> postCommitAction option \<Rightarrow> unit dbtx" where
  "enqueue_action env action = (case action of None \<Rightarrow> tret ()
     | Some a \<Rightarrow> insert_control \<lparr>k_command_id = CommandID env, k_kind = ActionCommand (act_kind a),
         k_attempt_id = act_attempt_id a, k_message_id = nullText (act_message_id a),
         k_actor_id = nullText (act_actor_id a), k_payload = act_payload a, k_status = CPending\<rparr>)"

definition admit :: "Config \<Rightarrow> io \<Rightarrow> CommandEnvelope \<Rightarrow> json \<Rightarrow> string \<Rightarrow> Result entry" where
  "admit cfg e env canonical digest =
     tseq (storage_gate e env)
     (tbind (applyCommand cfg env) (\<lambda>(references, result, blocking, action).
     tbind (durably ''receipt identity is unavailable'' newID) (\<lambda>receiptID.
     tbind (tgets (\<lambda>t. (st t, now t))) (\<lambda>(s, at).
     (let receipt = json_Receipt cfg env receiptID at (LastEventSeq s) result blocking references in
      tseq (tguard (Validate ''receipt'' receipt) (not_durable ''internal receipt is invalid''))
      (tseq (durably ''control intent commit failed'' (enqueue_action env action))
      (tseq (durably ''command commit failed'' (insert_command \<lparr>command_id = CommandID env, c_kind = CKind env,
          c_canonical = canonical, c_hash = digest, c_receipt = receipt, c_accepted_at = at, c_event_seq = LastEventSeq s\<rparr>))
      (tseq (durably ''state commit failed'' saveState)
        (tret (\<lparr>HTTPStatus = 202, Body = receipt, Committed = True\<rparr>, Some admission_messages))))))))))"

definition submit_body :: "Config \<Rightarrow> TrustContext \<Rightarrow> io \<Rightarrow> CommandEnvelope \<Rightarrow> json \<Rightarrow> string \<Rightarrow> Result entry" where
  "submit_body cfg trust e env canonical digest = tbind (tgets st) (\<lambda>s.
     tseq (tguard (identity_matches cfg trust s) (reject 409 ''stale'' ''routing identity changed''))
     (tbind (durably ''command lookup failed'' (loadCommandOutcome (CommandID env))) (\<lambda>outcome. case outcome of
         Some oc \<Rightarrow>
           tseq (tguard (oc_hash oc = digest) (reject 409 ''id_conflict'' ''commandId already names different bytes''))
           (tseq (tcheck (\<lambda>t. \<not> commandOutcomeTargetsDeletedDialog oc t) (reject 404 ''not_found'' ''command was not found''))
             (tret (\<lparr>HTTPStatus = oc_status oc, Body = oc_body oc, Committed = False\<rparr>, None)))
       | None \<Rightarrow>
           tseq (authorizeObject cfg env)
           (tbind (durably ''hold lookup failed'' (coveringHoldForCommand cfg env)) (\<lambda>hold. case hold of
               Some h \<Rightarrow> tseq (tguard (io_reserve e) (not_durable ''control reserve is unavailable''))
                          (commitCommandRejection env canonical digest h)
             | None \<Rightarrow> admit cfg e env canonical digest)))))"

definition SubmitCommand :: "(string \<Rightarrow> string) \<Rightarrow> Config \<Rightarrow> TrustContext \<Rightarrow> io \<Rightarrow> json option \<Rightarrow> database \<Rightarrow> Result \<times> database" where
  "SubmitCommand H cfg trust e raw db = (let
       resolve = (\<lambda>c. if c = [] then io_correlation e else c);
       best = (case raw of None \<Rightarrow> [] | Some v \<Rightarrow> bestEffortCommandID v) in
     if TransportNodeID trust \<noteq> CfgNodeID cfg
     then (errorResult 404 ''not_found'' ''node was not found'' (resolve best) None [], db)
     else case raw of
       None \<Rightarrow> (errorResult 400 ''invalid'' ''command does not match harness-wire-v2'' (resolve best) None [], db)
     | Some v \<Rightarrow> (case CanonicalCommand H v of
         None \<Rightarrow> (errorResult 400 ''invalid'' ''command does not match harness-wire-v2'' (resolve best) None [], db)
       | Some (canonical, digest) \<Rightarrow> (case decode_envelope v of
           None \<Rightarrow> (errorResult 400 ''invalid'' ''command cannot be decoded'' (resolve best) None [], db)
         | Some env \<Rightarrow>
             if CKind env = CommandDialogDelete
             then (errorResult 403 ''forbidden'' ''dialog deletion requires the logical delete coordinator'' (CommandID env) None [], db)
             else run_entry (submit_body cfg trust e env v digest) e (CommandID env) db)))"

definition sample_trust :: TrustContext where
  "sample_trust = \<lparr>TransportNodeID = sample_node, ExpectedID = None\<rparr>"

definition sample_create :: json where
  "sample_create = JObj [(''protocolVersion'', JNum ''1''), (''schemaId'', JStr ''harness-wire-v2''),
     (''commandId'', JStr ''00000000-0000-4000-8000-0000000000c1''), (''kind'', JStr ''dialog.create''),
     (''target'', JObj [(''nodeId'', JStr sample_node)]), (''expected'', JObj [(''registryVersion'', JNum ''1'')]),
     (''payload'', JObj [(''title'', JStr ''t'')])]"

definition sample_created :: "Result \<times> database" where
  "sample_created = SubmitCommand sample_hash sample_config sample_trust sample_io (Some sample_create) sample_volume"

lemmas submit_code [code] =
  authorizeObject_def [unfolded exec_unfold]
  storage_gate_def [unfolded exec_unfold]
  enqueue_action_def [unfolded exec_unfold]
  admit_def [unfolded exec_unfold]
  submit_body_def [unfolded exec_unfold]

section \<open>Admission keeps the store invariants\<close>

context settled_frame
begin

lemma keep_authorize: "keeps I (authorizeObject cfg env)"
  unfolding authorizeObject_def by (intro keeps)

lemma keep_storage_gate: "keeps I (storage_gate e env)"
  unfolding storage_gate_def by (intro keeps keep_all) (simp_all add: frame_defs)

lemma keep_enqueue_action: "keeps I (enqueue_action env action)"
  unfolding enqueue_action_def by (intro keeps keep_all) simp

end

context admission_frame
begin

lemma keep_admit: "keeps I (admit cfg e env canonical digest)"
  unfolding admit_def
  by (intro keeps keep_storage_gate keep_applyCommand keep_enqueue_action keep_command keep_all)

lemma keep_submit: "keeps I (submit_body cfg trust e env canonical digest)"
  unfolding submit_body_def
  by (intro keeps keep_outcome_read keep_authorize keep_covering keep_rejection_commit keep_admit)

end

text \<open>A transaction that never touches \<open>node_state\<close> nor the in-memory state stays saved.\<close>

lemma saved_insert_rejection: "keeps state_saved (insert_rejection x)"
  by (simp add: keeps_def wp insert_rejection_def state_saved_def)

lemma saved_newID: "keeps state_saved newID"
  by (simp add: keeps_def wp state_saved_def)

lemma saved_outcome_read: "keeps state_saved (loadCommandOutcome c)"
  unfolding loadCommandOutcome_def by (intro keeps) (simp add: keeps split: list.split)

lemma saved_covering: "keeps state_saved (coveringHoldForCommand cfg env)"
  unfolding coveringHoldForCommand_def by (cases "CKind env") (simp_all, (intro keeps)+)

lemma saved_authorize: "keeps state_saved (authorizeObject cfg env)"
  unfolding authorizeObject_def by (intro keeps)

lemma saved_rejection: "keeps state_saved (commitCommandRejection env canonical digest h)"
  unfolding commitCommandRejection_def
  by (intro keeps saved_newID saved_insert_rejection)

lemma ends_saved_admit: "ends_saved (admit cfg e env canonical digest)"
  unfolding admit_def
  by (intro saved keeps identity.keep_storage_gate identity.keep_applyCommand identity.keep_enqueue_action
      identity.keep_command identity.keep_all)

lemma saved_submit: "keeps state_saved (submit_body cfg trust e env canonical digest)"
  unfolding submit_body_def
  by (intro keeps saved_rejection
      ends_saved_admit [THEN keeps_saved_ends] saved_outcome_read saved_authorize saved_covering)

section \<open>One durable outcome per command\<close>

definition outcomes_disjoint :: "txn \<Rightarrow> bool" where
  "outcomes_disjoint t \<longleftrightarrow> command_id ` set (commands t) \<inter> x_command_id ` set (command_rejections t) = {}"

lemma fixed_wp: "(\<And>cs xs. keeps (outcomes_fixed cs xs) m) \<Longrightarrow>
    wp m (\<lambda>_ t'. commands t' = commands t \<and> command_rejections t' = command_rejections t) t"
  using keepsD [of "outcomes_fixed (commands t) (command_rejections t)" m t]
  by (simp add: outcomes_fixed_def [abs_def])

lemma wp_fixed_then:
  assumes "\<And>cs xs. keeps (outcomes_fixed cs xs) m"
    and "\<And>a t'. commands t' = commands t \<Longrightarrow> command_rejections t' = command_rejections t \<Longrightarrow> Q a t'"
  shows "wp m Q t"
  by (rule wp_mono [OF fixed_wp [OF assms(1)]]) (auto intro: assms(2))

text \<open>What a run of \<open>admit\<close> adds to the outcomes.\<close>

lemma admit_outcome:
  "wp (admit cfg e env canonical digest) (\<lambda>(r, msgs) t'. msgs = Some admission_messages \<and> Committed r \<and> HTTPStatus r = 202 \<and>
     (\<exists>c. commands t' = commands t @ [c] \<and> command_id c = CommandID env \<and> c_hash c = digest \<and> c_canonical c = canonical \<and>
        c_receipt c = Body r) \<and> CommandID env \<notin> command_id ` set (commands t) \<and>
     command_rejections t' = command_rejections t) t"
  unfolding admit_def wp_tseq wp_tbind
  apply (rule wp_fixed_then, rule outcomes.keep_storage_gate)
  apply (rule wp_fixed_then, rule outcomes.keep_applyCommand)
  apply (clarsimp simp: wp Let_def)
  apply (rule wp_fixed_then, rule outcomes.keep_enqueue_action)
  apply (simp add: insert_command_def saveState_def wp exists_key)
  done

lemma wp_loadCommandOutcome:
  "wp (loadCommandOutcome c) Q t = (case command_outcomes c t of [] \<Rightarrow> Q None t | [r] \<Rightarrow> Q (Some r) t | _ \<Rightarrow> True)"
  by (simp add: loadCommandOutcome_def wp split: list.split)

lemma wp_readonly:
  assumes "\<And>t0. keeps ((=) t0) m" and "\<And>a. Q a t"
  shows "wp m Q t"
proof -
  have "wp m (\<lambda>_. (=) t) t" using keepsD [OF assms(1)] by blast
  then show ?thesis by (rule wp_mono) (use assms(2) in auto)
qed

lemma readonly_authorize: "keeps ((=) t0) (authorizeObject cfg env)"
  unfolding authorizeObject_def by (intro keeps)

lemma readonly_covering: "keeps ((=) t0) (coveringHoldForCommand cfg env)"
  unfolding coveringHoldForCommand_def by (cases "CKind env") (simp_all, (intro keeps)+)

lemma no_outcome: "command_outcomes c t = [] \<longleftrightarrow>
    c \<notin> command_id ` set (commands t) \<and> c \<notin> x_command_id ` set (command_rejections t)"
  by (auto simp: command_outcomes_def filter_empty_conv)

lemma filter_key_none: "k \<notin> key ` set rows \<Longrightarrow> filter (\<lambda>r. key r = k) rows = []"
  by (auto simp: filter_empty_conv)

text \<open>A run that reaches the commit leaves exactly one outcome, under the command's digest.\<close>

definition outcome_recorded :: "CommandEnvelope \<Rightarrow> json \<Rightarrow> string \<Rightarrow> txn \<Rightarrow>
    Result \<times> (string \<times> string \<times> string) option \<Rightarrow> txn \<Rightarrow> bool" where
  "outcome_recorded env canonical digest t rm t' \<longleftrightarrow> (snd rm = None \<longrightarrow> \<not> Committed (fst rm)) \<and>
     (snd rm \<noteq> None \<longrightarrow> Committed (fst rm) \<and>
     command_outcomes (CommandID env) t = [] \<and>
     (\<exists>oc. command_outcomes (CommandID env) t' = [oc] \<and> oc_hash oc = digest \<and> oc_body oc = Body (fst rm) \<and>
        oc_canonical oc = canonical \<and> (HTTPStatus (fst rm), oc_status oc) \<in> {(202, 200), (409, 409)}))"

lemma submit_outcome:
  "wp (submit_body cfg trust e env canonical digest) (outcome_recorded env canonical digest t) t"
proof -
  let ?Q = "outcome_recorded env canonical digest t"
  have adm: "wp (admit cfg e env canonical digest) ?Q t" if "command_outcomes (CommandID env) t = []"
    by (rule wp_mono [OF admit_outcome]) (use that in \<open>auto simp: command_outcomes_def outcome_recorded_def\<close>)
  have rej: "wp (commitCommandRejection env canonical digest h) ?Q t" if "command_outcomes (CommandID env) t = []" for h
    using that by (simp add: commitCommandRejection_def insert_rejection_def wp Let_def command_outcomes_def
        outcome_recorded_def)
  have old: "?Q (r, None) t'" if "\<not> Committed r" for r t' using that by (simp add: outcome_recorded_def)
  show ?thesis
    unfolding submit_body_def wp_tbind wp_tseq wp_durably wp_tgets wp_tguard wp_loadCommandOutcome
    by (auto simp: wp adm rej old split: list.split option.split
        intro!: wp_readonly [OF readonly_authorize] wp_readonly [OF readonly_covering])
qed

section \<open>Replaying a command\<close>

lemma command_outcomes_begin:
  "command_outcomes c (begin_tx db ids at) = command_outcomes c (begin_tx db [] [])"
  by (simp add: command_outcomes_def)

lemma commit_tx_outcomes: "command_outcomes c (begin_tx (commit_tx t) ids at) = command_outcomes c t"
  by (simp add: command_outcomes_def commit_tx_def database.defs)

lemma submit_unfold:
  assumes "TransportNodeID trust = CfgNodeID cfg" and "CanonicalCommand H v = Some (canonical, digest)"
    and "decode_envelope v = Some env" and "CKind env \<noteq> CommandDialogDelete"
  shows "SubmitCommand H cfg trust e (Some v) db = run_entry (submit_body cfg trust e env v digest) e (CommandID env) db"
  using assms by (simp add: SubmitCommand_def)

lemma errorResult_uncommitted [simp]: "\<not> Committed (errorResult s c m k v u)"
  by (simp add: errorResult_def)

lemma commandError_uncommitted [simp]: "\<not> Committed (commandError err c)"
  by (simp add: commandError_def split: tx_error.split)

text \<open>A committed response comes from a well-formed command whose body reached the commit.\<close>

lemma submit_committed:
  assumes "SubmitCommand H cfg trust e (Some v) db = (r, db')" and "Committed r"
  obtains canonical digest env rb msgs t where
    "TransportNodeID trust = CfgNodeID cfg" "CanonicalCommand H v = Some (canonical, digest)"
    "decode_envelope v = Some env" "CKind env \<noteq> CommandDialogDelete"
    "submit_body cfg trust e env v digest (begin_tx db (io_ids e) (io_now e)) = Inr ((rb, Some msgs), t)"
    "db' = commit_tx t" "io_begin e" "io_before_commit e" "io_commit e"
proof -
  obtain canonical digest env where pre: "TransportNodeID trust = CfgNodeID cfg"
      "CanonicalCommand H v = Some (canonical, digest)" "decode_envelope v = Some env" "CKind env \<noteq> CommandDialogDelete"
    using assms by (auto simp: SubmitCommand_def Let_def split: if_splits option.splits prod.splits)
  have run: "run_entry (submit_body cfg trust e env v digest) e (CommandID env) db = (r, db')"
    using assms(1) submit_unfold [OF pre] by simp
  then obtain rb m t where b: "submit_body cfg trust e env v digest (begin_tx db (io_ids e) (io_now e)) = Inr ((rb, m), t)"
    using assms(2) by (auto simp: run_entry_def split: if_splits sum.splits prod.splits)
  show ?thesis
  proof (cases m)
    case None
    have "\<not> Committed rb" using wpD [OF submit_outcome b] None by (simp add: outcome_recorded_def)
    with None run b assms(2) show ?thesis by (auto simp: run_entry_def split: if_splits)
  next
    case (Some msgs)
    then have "db' = commit_tx t" "io_begin e" "io_before_commit e" "io_commit e"
      using run b assms(2) by (auto simp: run_entry_def split: if_splits prod.splits)
    then show ?thesis using that [OF pre] b Some by blast
  qed
qed

text \<open>Resubmission of a command whose outcome is known.\<close>

lemma submit_known:
  assumes "TransportNodeID trust = CfgNodeID cfg" and "CanonicalCommand H v = Some (canonical, digest)"
    and "decode_envelope v = Some env" and "CKind env \<noteq> CommandDialogDelete"
    and "io_begin e" and "identity_matches cfg trust (node_state db)"
    and "command_outcomes (CommandID env) (begin_tx db [] []) = [oc]"
  shows "SubmitCommand H cfg trust e (Some v) db =
     (if oc_hash oc \<noteq> digest then errorResult 409 ''id_conflict'' ''commandId already names different bytes'' (CommandID env) None []
      else if commandOutcomeTargetsDeletedDialog oc (begin_tx db (io_ids e) (io_now e))
      then errorResult 404 ''not_found'' ''command was not found'' (CommandID env) None []
      else \<lparr>HTTPStatus = oc_status oc, Body = oc_body oc, Committed = False\<rparr>, db)"
proof -
  have "command_outcomes (CommandID env) (begin_tx db (io_ids e) (io_now e)) = [oc]"
    using assms(7) by (subst command_outcomes_begin)
  then show ?thesis
    using assms(5,6)
    by (simp add: submit_unfold [OF assms(1-4)] run_entry_def submit_body_def tx_defs durably_def
        loadCommandOutcome_def commandError_def reject_def)
qed

text \<open>The body does not look at the fault point after the commit.\<close>

lemma submit_body_delivery:
  "submit_body cfg trust (e\<lparr>io_after_commit := b\<rparr>) env canonical digest = submit_body cfg trust e env canonical digest"
  unfolding submit_body_def admit_def storage_gate_def by (simp cong: option.case_cong)

lemma submit_delivered:
  assumes "TransportNodeID trust = CfgNodeID cfg" and "CanonicalCommand H v = Some (canonical, digest)"
    and "decode_envelope v = Some env" and "CKind env \<noteq> CommandDialogDelete"
    and "submit_body cfg trust e env v digest (begin_tx db (io_ids e) (io_now e)) = Inr ((rb, Some msgs), t)"
    and "io_begin e" "io_before_commit e" "io_commit e"
  shows "SubmitCommand H cfg trust (e\<lparr>io_after_commit := True\<rparr>) (Some v) db = (rb, commit_tx t)"
  using assms(5-8) by (cases msgs) (simp add: submit_unfold [OF assms(1-4)] run_entry_def submit_body_delivery)

text \<open>
  C8: a command that was committed is idempotent. Let \<open>first\<close> be the answer of the admission as it
  is delivered when the connection survives; the delivery may also have been lost. The
  admission left exactly one durable outcome for the command id, with the body of \<open>first\<close> and with
  status 200 for an acceptance (answered 202) and 409 for a rejection under a hold (answered
  409). On every database that still holds this outcome, the same bytes, sent in any environment
  that can open a transaction and under the current routing identity, change nothing and are
  answered with exactly the stored status and body, or with 404 exactly when the dialog of the
  outcome carries a tombstone.
\<close>

theorem submit_idempotent:
  assumes "SubmitCommand H cfg trust e (Some v) db = (r, db')" and "Committed r"
    and "command_outcomes (jstr (jfield v ''commandId'')) (begin_tx db'' [] []) =
         command_outcomes (jstr (jfield v ''commandId'')) (begin_tx db' [] [])"
    and "io_begin e'" and "identity_matches cfg trust (node_state db'')"
  shows "\<exists>oc first. fst (SubmitCommand H cfg trust (e\<lparr>io_after_commit := True\<rparr>) (Some v) db) = first \<and>
     command_outcomes (jstr (jfield v ''commandId'')) (begin_tx db' [] []) = [oc] \<and>
     oc_body oc = Body first \<and> (HTTPStatus first, oc_status oc) \<in> {(202, 200), (409, 409)} \<and>
     SubmitCommand H cfg trust e' (Some v) db'' =
       (if commandOutcomeTargetsDeletedDialog oc (begin_tx db'' (io_ids e') (io_now e'))
        then errorResult 404 ''not_found'' ''command was not found'' (jstr (jfield v ''commandId'')) None []
        else \<lparr>HTTPStatus = oc_status oc, Body = Body first, Committed = False\<rparr>, db'')"
proof -
  from assms(1,2) obtain canonical digest env rb msgs t where pre: "TransportNodeID trust = CfgNodeID cfg"
      "CanonicalCommand H v = Some (canonical, digest)" "decode_envelope v = Some env" "CKind env \<noteq> CommandDialogDelete"
    and b: "submit_body cfg trust e env v digest (begin_tx db (io_ids e) (io_now e)) = Inr ((rb, Some msgs), t)"
    and c: "db' = commit_tx t" and io: "io_begin e" "io_before_commit e" "io_commit e"
    by (rule submit_committed)
  from wpD [OF submit_outcome b] obtain oc where
    oc: "command_outcomes (CommandID env) t = [oc]" "oc_hash oc = digest" "oc_body oc = Body rb"
      "(HTTPStatus rb, oc_status oc) \<in> {(202, 200), (409, 409)}"
    by (auto simp: outcome_recorded_def)
  have id: "CommandID env = jstr (jfield v ''commandId'')"
    using pre(3) by (auto simp: decode_envelope_def split: option.splits)
  have stored: "command_outcomes (CommandID env) (begin_tx db' [] []) = [oc]"
    using oc(1) c by (simp add: commit_tx_outcomes)
  have kept: "command_outcomes (CommandID env) (begin_tx db'' [] []) = [oc]"
    using stored assms(3) id by simp
  show ?thesis
    using submit_known [OF pre assms(4,5) kept] submit_delivered [OF pre b io] stored oc(2-4) id by simp
qed

lemma sample_created_committed: "Committed (fst sample_created)"
  by code_simp

theorem submit_idempotent_witness:
  "\<exists>oc first. fst (SubmitCommand sample_hash sample_config sample_trust (sample_io\<lparr>io_after_commit := True\<rparr>)
       (Some sample_create) sample_volume) = first \<and>
     command_outcomes (jstr (jfield sample_create ''commandId'')) (begin_tx (snd sample_created) [] []) = [oc] \<and>
     oc_body oc = Body first \<and> (HTTPStatus first, oc_status oc) \<in> {(202, 200), (409, 409)} \<and>
     SubmitCommand sample_hash sample_config sample_trust sample_io (Some sample_create) (snd sample_created) =
       (if commandOutcomeTargetsDeletedDialog oc (begin_tx (snd sample_created) (io_ids sample_io) (io_now sample_io))
        then errorResult 404 ''not_found'' ''command was not found'' (jstr (jfield sample_create ''commandId'')) None []
        else \<lparr>HTTPStatus = oc_status oc, Body = Body first, Committed = False\<rparr>, snd sample_created)"
proof (rule submit_idempotent [of _ _ _ _ _ _ "fst sample_created"])
  show "SubmitCommand sample_hash sample_config sample_trust sample_io (Some sample_create) sample_volume =
      (fst sample_created, snd sample_created)"
    by (simp add: sample_created_def)
  show "Committed (fst sample_created)" by (rule sample_created_committed)
  show "io_begin sample_io" by (simp add: sample_io_def)
  show "identity_matches sample_config sample_trust (node_state (snd sample_created))"
    by (simp add: identity_matches_def sample_trust_def)
qed simp

text \<open>Every submission either stops in front of the store or is one run of the body.\<close>

lemma submit_cases:
  "snd (SubmitCommand H cfg trust e raw db) = db \<or>
     (\<exists>env v digest c. SubmitCommand H cfg trust e raw db = run_entry (submit_body cfg trust e env v digest) e c db)"
proof (cases raw)
  case None
  then show ?thesis by (simp add: SubmitCommand_def Let_def)
next
  case (Some v)
  show ?thesis
  proof (cases "CanonicalCommand H v")
    case None
    with Some show ?thesis by (simp add: SubmitCommand_def Let_def)
  next
    case (Some cd)
    then obtain canonical digest where "CanonicalCommand H v = Some (canonical, digest)" by (cases cd) auto
    with \<open>raw = Some v\<close> show ?thesis
      by (cases "decode_envelope v") (auto simp: SubmitCommand_def Let_def)
  qed
qed

text \<open>
  C7: a response that is not marked committed left the database exactly as it was, on every path:
  malformed bytes, failed fences, failed statements, injected faults and failed commits included.
\<close>

theorem submit_uncommitted_unchanged:
  assumes "SubmitCommand H cfg trust e raw db = (r, db')" and "\<not> Committed r"
  shows "db' = db"
proof -
  have "snd (run_entry (submit_body cfg trust e env v digest) e c db) = db"
    if "\<not> Committed (fst (run_entry (submit_body cfg trust e env v digest) e c db))" for env v digest c
  proof (cases "submit_body cfg trust e env v digest (begin_tx db (io_ids e) (io_now e))")
    case (Inl err)
    then show ?thesis by (simp add: run_entry_def)
  next
    case (Inr x)
    then obtain rb m t where b: "submit_body cfg trust e env v digest (begin_tx db (io_ids e) (io_now e)) = Inr ((rb, m), t)"
      by (cases x) auto
    from wpD [OF submit_outcome b] that b show ?thesis
      by (auto simp: run_entry_def outcome_recorded_def split: option.splits if_splits prod.splits)
  qed
  with submit_cases [of H cfg trust e raw db] show ?thesis using assms by (metis fst_conv snd_conv)
qed

theorem submit_uncommitted_unchanged_witness:
  "SubmitCommand sample_hash sample_config sample_trust sample_io None sample_volume =
     (errorResult 400 ''invalid'' ''command does not match harness-wire-v2'' (io_correlation sample_io) None [], sample_volume)"
proof -
  let ?run = "SubmitCommand sample_hash sample_config sample_trust sample_io None sample_volume"
  have r: "fst ?run = errorResult 400 ''invalid'' ''command does not match harness-wire-v2'' (io_correlation sample_io) None []"
    by (simp add: SubmitCommand_def sample_trust_def sample_config_def)
  then have "\<not> Committed (fst ?run)" by simp
  then have "snd ?run = sample_volume"
    using submit_uncommitted_unchanged [of sample_hash sample_config sample_trust sample_io None sample_volume "fst ?run" "snd ?run"]
    by simp
  with r show ?thesis by (simp add: prod_eq_iff)
qed

section \<open>Database invariants of the entry points\<close>

context admission_frame
begin

lemma submit_inv: "db_inv I db \<Longrightarrow> db_inv I (snd (SubmitCommand H cfg trust e raw db))"
  using submit_cases [of H cfg trust e raw db] run_entry_inv [OF keep_submit saved_submit] by metis

end

lemma saved_barrier: "keeps state_saved (insert_hold h)" "keeps state_saved (insert_outcome oc)"
  "keeps state_saved (upsert_scope_revision k v)" "keeps state_saved (advance_scope_revision k v w)"
  "keeps state_saved (advance_hold_clock v)"
  by (simp_all add: keeps_def wp statement_defs state_saved_def)

lemma saved_install: "keeps state_saved (install_body rq raw digest e)"
  unfolding install_body_def by (intro keeps saved_newID saved_barrier)

lemma saved_release: "keeps state_saved (release_body rq raw digest e)"
  unfolding release_body_def by (intro keeps saved_newID saved_barrier)

lemma install_cases:
  "snd (InstallHold H cfg transport e raw db) = db \<or>
     (\<exists>rq v digest c. InstallHold H cfg transport e raw db = run_entry (install_body rq v digest e) e c db)"
  by (cases raw) (auto simp: InstallHold_def Let_def split: option.split)

lemma release_cases:
  "snd (ReleaseHold H cfg transport e raw db) = db \<or>
     (\<exists>rq v digest c. ReleaseHold H cfg transport e raw db = run_entry (release_body rq v digest e) e c db)"
  by (cases raw) (auto simp: ReleaseHold_def Let_def split: option.split)

context barrier_frame
begin

lemma install_inv: "db_inv I db \<Longrightarrow> db_inv I (snd (InstallHold H cfg transport e raw db))"
  using install_cases [of H cfg transport e raw db] run_entry_inv [OF keep_install saved_install] by metis

lemma release_inv: "db_inv I db \<Longrightarrow> db_inv I (snd (ReleaseHold H cfg transport e raw db))"
  using release_cases [of H cfg transport e raw db] run_entry_inv [OF keep_release saved_release] by metis

end

text \<open>
  No command is ever both accepted and rejected: the admission path records an outcome only for
  an identity that has none.
\<close>

lemma disjoint_submit: "outcomes_disjoint t \<Longrightarrow> wp (submit_body cfg trust e env canonical digest) (\<lambda>_. outcomes_disjoint) t"
proof -
  assume d: "outcomes_disjoint t"
  have adm: "wp (admit cfg e env canonical digest) (\<lambda>_. outcomes_disjoint) t" if "command_outcomes (CommandID env) t = []"
    by (rule wp_mono [OF admit_outcome]) (use that d in \<open>clarsimp simp: no_outcome outcomes_disjoint_def\<close>)
  have rej: "wp (commitCommandRejection env canonical digest h) (\<lambda>_. outcomes_disjoint) t" if "command_outcomes (CommandID env) t = []" for h
    using that d by (simp add: commitCommandRejection_def insert_rejection_def wp Let_def no_outcome outcomes_disjoint_def)
  show ?thesis
    unfolding submit_body_def wp_tbind wp_tseq wp_durably wp_tgets wp_tguard wp_loadCommandOutcome
    by (auto simp: wp adm rej d split: list.split option.split
        intro!: wp_readonly [OF readonly_authorize] wp_readonly [OF readonly_covering])
qed

end
