(* ===== verification/Dispatch.thy ===== *)
theory Dispatch
  imports Submit
begin

text \<open>
  Dispatch, \<open>runtime/dispatch.go\<close>, and the policy snapshot of \<open>adapters/contract/adapter.go\<close>:
  choosing the oldest queued request that no hold covers, and the transaction that creates the
  attempt, occupies the execution slot and enqueues the start intent. The lemmas show that
  dispatch is first-in first-out among the requests that are not held, never starts work in a
  held scope, on a paused queue or into an occupied slot, and gives each input strictly
  increasing generations.
\<close>

section \<open>Policy snapshots\<close>

text \<open>
  The digest is \<open>hex(sha256(bytes))\<close>, the parameter \<open>H\<close>. \<open>be64\<close> is
  \<open>binary.BigEndian.PutUint64\<close>.
\<close>

definition be64 :: "nat \<Rightarrow> string" where
  "be64 n = map (\<lambda>i. char_of ((n div 256 ^ i) mod 256)) [7, 6, 5, 4, 3, 2, 1, 0]"

lemma char_of_int: "char_of (int n) = char_of n"
  by (simp add: char_of_def bit_of_nat_iff bit_0)

lemma be64_code [code]: "be64 n = map (\<lambda>i. char_of (int n div 256 ^ i mod 256)) [7, 6, 5, 4, 3, 2, 1, 0]"
proof -
  have "char_of (int n div 256 ^ i mod 256) = char_of (n div 256 ^ i mod 256)" for i
    using char_of_int [of "n div 256 ^ i mod 256"] by (simp add: zdiv_int zmod_int)
  then show ?thesis by (simp add: be64_def)
qed

definition policy_frame :: "string list \<Rightarrow> string" where
  "policy_frame vs = concat (map (\<lambda>v. be64 (length v) @ v) vs)"

definition policy_preimage :: "PolicySnapshot \<Rightarrow> string" where
  "policy_preimage p = ''harness-effective-policy-v1'' @ [CHR 0x00] @
     policy_frame [Revision p, ContentHash p, ToolManifestHash p, ApprovalMode p]"

definition EffectivePolicyHash :: "(string \<Rightarrow> string) \<Rightarrow> PolicySnapshot \<Rightarrow> string" where
  "EffectivePolicyHash H p = H (policy_preimage p)"

definition ValidatePolicySnapshot :: "(string \<Rightarrow> string) \<Rightarrow> PolicySnapshot \<Rightarrow> bool" where
  "ValidatePolicySnapshot H p \<longleftrightarrow> Revision p \<noteq> [] \<and> PolicyContent p \<noteq> [] \<and> ToolManifest p \<noteq> [] \<and>
     ContentHash p \<noteq> [] \<and> ToolManifestHash p \<noteq> [] \<and> EffectiveHash p \<noteq> [] \<and>
     (ApprovalMode p = ''deny'' \<or> ApprovalMode p = ''explicit_once'') \<and>
     H (PolicyContent p) = ContentHash p \<and> H (ToolManifest p) = ToolManifestHash p \<and>
     EffectivePolicyHash H p = EffectiveHash p"

definition PreparePolicySnapshot :: "(string \<Rightarrow> string) \<Rightarrow> PolicySnapshot \<Rightarrow> PolicySnapshot option" where
  "PreparePolicySnapshot H p = (if ValidatePolicySnapshot H p then Some p else None)"

section \<open>The oldest request that is not held\<close>

definition request_held :: "txn \<Rightarrow> request_row \<Rightarrow> bool" where
  "request_held t r = exists_row (\<lambda>h. h_node_id h = NodeID (st t) \<and> hold_active t h \<and>
     (h_scope h = ScopeNode \<or> (h_scope h = ScopeDialog \<and> h_dialog_id h = Some (r_dialog_id r)))) (administrative_holds t)"

definition dispatchable :: "txn \<Rightarrow> request_row \<Rightarrow> bool" where
  "dispatchable t r \<longleftrightarrow> r_status r = RQueued \<and> \<not> request_held t r \<and>
     exists_row (\<lambda>m. message_id m = r_input_message_id r) (messages t)"

definition next_request :: "txn \<Rightarrow> (request_row \<times> message_row) option" where
  "next_request t = (case min_row r_queue_sequence (filter (dispatchable t) (requests t)) of None \<Rightarrow> None
     | Some r \<Rightarrow> map_option (\<lambda>m. (r, m)) (lookup_row message_id (r_input_message_id r) (messages t)))"

record dispatchCandidate =
  dc_request :: string
  dc_dialog :: string
  dc_message :: string
  dc_sequence :: int
  dc_state_version :: int

definition peekDispatch :: "dispatchCandidate option dbtx" where
  "peekDispatch = tbind (tgets id) (\<lambda>t. (let s = st t in
     if QueuePaused s \<or> ActiveAttemptID s \<noteq> None \<or> PendingCount s = 0 \<or> ''execution_unknown'' \<in> set (BlockedReasons s)
     then tret None
     else case next_request t of None \<Rightarrow> tret None
       | Some (r, m) \<Rightarrow> tbind (scan_text (m_text m)) (\<lambda>_.
           tret (Some \<lparr>dc_request = request_id r, dc_dialog = r_dialog_id r, dc_message = r_input_message_id r,
             dc_sequence = r_queue_sequence r, dc_state_version = StateVersion s\<rparr>))))"

section \<open>The dispatch transaction\<close>

datatype dispatch_outcome = DispatchBlocked | DispatchIdle | DispatchChanged | DispatchHeld | DispatchUnknown | Dispatching

record DispatchResult =
  dr_outcome :: dispatch_outcome
  dr_attempt :: string
  dr_request :: string

definition dispatch_stop :: "dispatch_outcome \<Rightarrow> DispatchResult" where
  "dispatch_stop oc = \<lparr>dr_outcome = oc, dr_attempt = [], dr_request = []\<rparr>"

text \<open>
  \<open>disposition == "queued"\<close>: the input message is marked applied and bound to the attempt.
\<close>

definition dispatch_message :: "string \<Rightarrow> message_row \<Rightarrow> disposition \<Rightarrow> unit dbtx" where
  "dispatch_message attemptID m disposition = (if disposition = DQueued then
     tseq (update_messages (message_id m) (\<lambda>x. x\<lparr>m_version := m_version x + 1, m_disposition := Some DApplied,
        m_attempt_id := Some attemptID\<rparr>))
     (tseq (appendEvent ''message.disposition_changed'' (message_id m) (m_version m + 1) [] []
        (json_MessageDisposition (message_id m) ''queued'' ''applied'' ''request_dispatched'') False)
       (tret ()))
   else tret ())"

definition occupy_slot :: "string \<Rightarrow> durableState \<Rightarrow> durableState" where
  "occupy_slot attemptID s = s\<lparr>PendingCount := PendingCount s - 1, QueueVersion := QueueVersion s + 1,
     StateVersion := StateVersion s + 1, ActiveAttemptID := Some attemptID, EngineReadiness := ''ready'',
     Occupancy := ''active'', BlockedReasons := removeReason (BlockedReasons s) ''policy_unavailable''\<rparr>"

definition next_generation :: "string \<Rightarrow> txn \<Rightarrow> int" where
  "next_generation m t = (case latest_generation m t of None \<Rightarrow> 0 | Some g \<Rightarrow> g) + 1"

definition new_attempt :: "string \<Rightarrow> request_row \<Rightarrow> int \<Rightarrow> PolicySnapshot \<Rightarrow> durableState \<Rightarrow> attempt_row" where
  "new_attempt attemptID r generation policy s = \<lparr>attempt_id = attemptID, a_node_id = NodeID s, a_dialog_id = r_dialog_id r,
     a_request_id = request_id r, a_generation = generation, a_version = 1, a_state = ADispatching,
     a_effect_status = ''none'', a_context_boundary = r_input_message_id r, a_policy_hash = EffectiveHash policy,
     a_started_at = None, a_finished_at = None, a_output_bytes = 0\<rparr>"

text \<open>The writes of the transaction, after every check.\<close>

definition dispatch_commit :: "request_row \<Rightarrow> message_row \<Rightarrow> disposition \<Rightarrow> PolicySnapshot \<Rightarrow> DispatchResult dbtx" where
  "dispatch_commit r m disposition policy = tbind newID (\<lambda>attemptID. tbind (tgets id) (\<lambda>t.
     (let generation = next_generation (r_input_message_id r) t in
      tseq (tdo [
        insert_policy policy,
        insert_attempt (new_attempt attemptID r generation policy (st t)),
        update_requests (request_id r) (\<lambda>x. x\<lparr>r_version := r_version x + 1, r_status := RDispatching, r_updated_at := now t\<rparr>),
        dispatch_message attemptID m disposition,
        mod_state (occupy_slot attemptID)])
      (tseq (appendEvent ''attempt.dispatching'' attemptID 1 attemptID (r_dialog_id r)
         (json_AttemptDispatching (request_id r) generation (r_input_message_id r) (Revision policy) (EffectiveHash policy)) False)
      (tseq (tdo [appendQueueEvent, appendNodeEvent,
        insert_control \<lparr>k_command_id = attemptID, k_kind = ActionDispatchStart, k_attempt_id = attemptID,
          k_message_id = None, k_actor_id = None, k_payload = emptyPayload\<lparr>Generation := generation,
            DialogID := r_dialog_id r, RequestID := request_id r\<rparr>, k_status = CPending\<rparr>,
        saveState])
        (tret \<lparr>dr_outcome = Dispatching, dr_attempt = attemptID, dr_request = request_id r\<rparr>))))))"

definition dispatch_tx :: "dispatchCandidate \<Rightarrow> PolicySnapshot \<Rightarrow> DispatchResult dbtx" where
  "dispatch_tx c policy = tbind (tgets id) (\<lambda>t. (let s = st t in
     if StateVersion s \<noteq> dc_state_version c \<or> QueuePaused s \<or> ActiveAttemptID s \<noteq> None \<or> PendingCount s = 0
     then tret (dispatch_stop DispatchChanged)
     else case next_request t of None \<Rightarrow> tret (dispatch_stop DispatchHeld)
     | Some (r, m) \<Rightarrow>
       tbind (scan_text (m_text m)) (\<lambda>_. tbind (scan_text (m_disposition m)) (\<lambda>disposition.
       if request_id r \<noteq> dc_request c \<or> r_dialog_id r \<noteq> dc_dialog c \<or> r_input_message_id r \<noteq> dc_message c \<or>
          r_queue_sequence r \<noteq> dc_sequence c
       then tret (dispatch_stop DispatchChanged)
       else dispatch_commit r m disposition policy))))"

definition block_policy_tx :: "unit dbtx" where
  "block_policy_tx = tbind (tgets st) (\<lambda>s.
     if EngineReadiness s = ''blocked'' \<and> ''policy_unavailable'' \<in> set (BlockedReasons s) then tret ()
     else tdo [mod_state (\<lambda>s. s\<lparr>EngineReadiness := ''blocked'', BlockedReasons := addReason (BlockedReasons s) ''policy_unavailable'',
         StateVersion := StateVersion s + 1\<rparr>), appendNodeEvent, saveState])"

definition blockPolicy :: "io \<Rightarrow> database \<Rightarrow> database" where
  "blockPolicy e db = (if io_begin e then snd (run_tx block_policy_tx (io_ids e) (io_now e) (io_commit e) db) else db)"

text \<open>
  \<open>DispatchNext\<close>. The readiness answers of the adapter and of the provider authentication, and
  the policy source's answer, come from outside; \<open>None\<close> is a missing source or an error.
\<close>

record dispatch_io = io +
  dio_native_ready :: bool
  dio_auth_ready :: bool
  dio_auth_ready_again :: bool
  dio_policy :: "string \<Rightarrow> PolicySnapshot option"
  dio_after_intent :: bool

definition DispatchNext :: "(string \<Rightarrow> string) \<Rightarrow> dispatch_io \<Rightarrow> database \<Rightarrow> (tx_error + DispatchResult) \<times> database" where
  "DispatchNext H e db =
     (if \<not> dio_native_ready e \<or> \<not> dio_auth_ready e then (Inr (dispatch_stop DispatchBlocked), db)
      else case peekDispatch (begin_tx db [] []) of
        Inl err \<Rightarrow> (Inl err, db)
      | Inr (None, _) \<Rightarrow> (Inr (dispatch_stop DispatchIdle), db)
      | Inr (Some c, _) \<Rightarrow>
         (case Option.bind (dio_policy e (dc_dialog c)) (PreparePolicySnapshot H) of
            None \<Rightarrow> (Inr (dispatch_stop DispatchBlocked), blockPolicy (io.truncate e) db)
          | Some policy \<Rightarrow>
             if \<not> dio_auth_ready_again e then (Inr (dispatch_stop DispatchBlocked), db)
             else if \<not> io_begin e then (Inl (Internal ''begin''), db)
             else (case run_tx (dispatch_tx c policy) (io_ids e) (io_now e) (io_commit e) db of
                 (Inr r, db') \<Rightarrow> (if dr_outcome r = Dispatching \<and> \<not> dio_after_intent e
                    then Inr (r\<lparr>dr_outcome := DispatchUnknown\<rparr>) else Inr r, db')
               | (Inl err, db') \<Rightarrow> (Inl err, db'))))"

lemmas dispatch_code [code] =
  peekDispatch_def [unfolded exec_unfold]
  dispatch_message_def [unfolded exec_unfold]
  dispatch_commit_def [unfolded exec_unfold]
  dispatch_tx_def [unfolded exec_unfold]
  block_policy_tx_def [unfolded exec_unfold]

text \<open>A volume with one dialog and two queued requests, and a dispatch on it.\<close>

definition sample_dialog :: string where "sample_dialog = ''00000000-0000-4000-8000-0000000000d1''"

definition sample_message :: "string \<Rightarrow> int \<Rightarrow> string \<Rightarrow> message_row" where
  "sample_message i n r = \<lparr>message_id = i, m_dialog_id = sample_dialog, m_sequence = n, m_version = 1, m_role = RoleUser,
     m_text = Some ''hello'', m_content = None, m_disposition = Some DQueued, m_command_id = None,
     m_request_id = Some r, m_attempt_id = None, m_finish_reason = None, m_created_at = io_now sample_io\<rparr>"

definition sample_request :: "string \<Rightarrow> string \<Rightarrow> int \<Rightarrow> request_row" where
  "sample_request i m n = \<lparr>request_id = i, r_dialog_id = sample_dialog, r_input_message_id = m, r_queue_sequence = n,
     r_version = 1, r_status = RQueued, r_created_at = io_now sample_io, r_updated_at = io_now sample_io\<rparr>"

definition sample_queued :: database where
  "sample_queued = sample_volume\<lparr>
     node_state := (node_state sample_volume)\<lparr>PendingCount := 2, NextQueueSequence := 3, NextMessageSequence := 3\<rparr>,
     dialogs := [\<lparr>dialog_id = sample_dialog, d_node_id = sample_node, d_owner_id = ''owner'', d_version = 3, d_title = None,
       d_created_at = io_now sample_io\<rparr>],
     messages := [sample_message ''00000000-0000-4000-8000-0000000000e1'' 1 ''00000000-0000-4000-8000-0000000000f1'',
       sample_message ''00000000-0000-4000-8000-0000000000e2'' 2 ''00000000-0000-4000-8000-0000000000f2''],
     requests := [sample_request ''00000000-0000-4000-8000-0000000000f1'' ''00000000-0000-4000-8000-0000000000e1'' 1,
       sample_request ''00000000-0000-4000-8000-0000000000f2'' ''00000000-0000-4000-8000-0000000000e2'' 2]\<rparr>"

definition sample_policy :: PolicySnapshot where
  "sample_policy = \<lparr>Revision = ''r1'', PolicyContent = ''p'', ContentHash = sample_hash ''p'', ToolManifest = ''m'',
     ToolManifestHash = sample_hash ''m'', ApprovalMode = ''deny'', EffectiveHash = sample_hash []\<rparr>"

definition sample_candidate :: dispatchCandidate where
  "sample_candidate = \<lparr>dc_request = ''00000000-0000-4000-8000-0000000000f1'', dc_dialog = sample_dialog,
     dc_message = ''00000000-0000-4000-8000-0000000000e1'', dc_sequence = 1, dc_state_version = 0\<rparr>"

definition sample_dispatch :: "(tx_error + DispatchResult) \<times> database" where
  "sample_dispatch = run_tx (dispatch_tx sample_candidate sample_policy) (io_ids sample_io) (io_now sample_io) True sample_queued"

definition dispatched :: "tx_error + DispatchResult \<Rightarrow> bool" where
  "dispatched x = (case x of Inl e \<Rightarrow> False | Inr r \<Rightarrow> dr_outcome r = Dispatching)"

section \<open>Dispatch keeps the store invariants\<close>

lemma occupy_slot_ok: "state_update_ok (occupy_slot a)"
  by (simp add: state_update_ok_def occupy_slot_def)

context settled_frame
begin

lemma keep_dispatch_message: "keeps I (dispatch_message a m d)"
  unfolding dispatch_message_def by (intro keeps keep_all) (simp_all add: frame_defs)

lemma keep_block_policy: "keeps I block_policy_tx"
  unfolding block_policy_tx_def by (intro keeps keep_all) (simp_all add: frame_defs)

end

context slot_frame
begin

lemma keep_dispatch_commit: "keeps I (dispatch_commit r m d policy)"
  unfolding dispatch_commit_def
  by (intro keeps keep_all keep_slot_all keep_dispatch_message occupy_slot_ok) (simp_all add: frame_defs)

lemma keep_dispatch: "keeps I (dispatch_tx c policy)"
  unfolding dispatch_tx_def by (intro keeps keep_dispatch_commit keep_scan_text)

end

lemma saved_scan_text: "keeps state_saved (scan_text x)"
  unfolding scan_text_def by (intro keeps)

lemma saved_block_policy: "keeps state_saved block_policy_tx"
  unfolding block_policy_tx_def
  by (intro keeps keeps_saved_ends saved identity.keep_all) (simp_all add: frame_defs)

lemma saved_dispatch_commit: "keeps state_saved (dispatch_commit r m d policy)"
  unfolding dispatch_commit_def
  by (intro keeps_saved_ends saved keeps identity.keep_all identity.keep_slot_all identity.keep_dispatch_message occupy_slot_ok)
    (simp_all add: frame_defs)

lemma saved_dispatch: "keeps state_saved (dispatch_tx c policy)"
  unfolding dispatch_tx_def by (intro keeps saved_dispatch_commit saved_scan_text)

section \<open>What a dispatch does\<close>

lemma next_request_Some:
  assumes "next_request t = Some (r, m)"
  shows "r \<in> set (requests t)" "dispatchable t r" "message_id m = r_input_message_id r" "m \<in> set (messages t)"
    "\<And>q. q \<in> set (requests t) \<Longrightarrow> dispatchable t q \<Longrightarrow> r_queue_sequence r \<le> r_queue_sequence q"
  using assms by (auto simp: next_request_def dest!: min_row_Some lookup_row_Some split: option.splits)

lemma core_dispatch_message [core]: "keeps (\<lambda>t. core t = c) (dispatch_message a m d)"
  unfolding dispatch_message_def by (intro keeps core)

lemma occupy_slot_seq: "(occupy_slot a s)\<lparr>LastEventSeq := n\<rparr> = occupy_slot a (s\<lparr>LastEventSeq := n\<rparr>)"
  by (simp add: occupy_slot_def)

text \<open>The queue, the attempts and the slot after the writes.\<close>

lemma dispatch_commit_effect:
  "wp (dispatch_commit r m d policy) (\<lambda>res t'. dr_outcome res = Dispatching \<and> dr_request res = request_id r \<and>
     attempts t' = attempts t @ [new_attempt (dr_attempt res) r (next_generation (r_input_message_id r) t) policy (st t)] \<and>
     requests t' = update_rows (\<lambda>x. request_id x = request_id r)
       (\<lambda>x. x\<lparr>r_version := r_version x + 1, r_status := RDispatching, r_updated_at := now t\<rparr>) (requests t) \<and>
     (st t')\<lparr>LastEventSeq := 0\<rparr> = (occupy_slot (dr_attempt res) (st t))\<lparr>LastEventSeq := 0\<rparr>) t"
  apply (simp add: dispatch_commit_def wp insert_policy_def insert_attempt_def update_requests_def Let_def, intro allI impI)
  apply (rule wp_core_then, rule core, simp add: wp)
  apply (rule wp_core_then, rule core, simp add: wp)
  apply (rule wp_core_then, rule core, simp add: wp)
  apply (rule wp_core_then, rule core, simp add: wp)
  apply (rule wp_core_then, rule core, simp add: wp)
  apply (rule wp_core_then, rule core, simp add: wp)
  apply (auto simp: core_def occupy_slot_seq next_generation_def latest_generation_def attempt_request_def)
  done

lemma wp_scan_text [wp]: "wp (scan_text x) Q t = (\<forall>s. x = Some s \<longrightarrow> Q s t)"
  by (simp add: scan_text_def wp split: option.split)

text \<open>A run that dispatched passed every check and performed the writes.\<close>

lemma dispatch_tx_dispatching:
  assumes "dispatch_tx c policy t = Inr (res, t')" and "dr_outcome res = Dispatching"
  obtains r m d where "next_request t = Some (r, m)" "\<not> QueuePaused (st t)" "ActiveAttemptID (st t) = None"
    "PendingCount (st t) \<noteq> 0" "dispatch_commit r m d policy t = Inr (res, t')" "request_id r = dc_request c"
  using assms
  by (auto simp: dispatch_tx_def Let_def dispatch_stop_def tbind_def tgets_def tret_def scan_text_def tfail_def
      split: if_splits option.splits)

lemma dispatch_tx_other:
  "dispatch_tx c policy t = Inr (res, t') \<Longrightarrow> dr_outcome res \<noteq> Dispatching \<Longrightarrow> t' = t"
  using dispatch_commit_effect [THEN wpD]
  by (auto simp: dispatch_tx_def Let_def dispatch_stop_def tbind_def tgets_def tret_def scan_text_def tfail_def
      split: if_splits option.splits)

lemma dispatch_effect:
  assumes "dispatch_tx c policy t = Inr (res, t')" and "dr_outcome res = Dispatching"
  obtains r m where "next_request t = Some (r, m)" "\<not> QueuePaused (st t)" "ActiveAttemptID (st t) = None"
    "PendingCount (st t) \<noteq> 0" "dr_request res = request_id r"
    "attempts t' = attempts t @ [new_attempt (dr_attempt res) r (next_generation (r_input_message_id r) t) policy (st t)]"
    "requests t' = update_rows (\<lambda>x. request_id x = request_id r)
       (\<lambda>x. x\<lparr>r_version := r_version x + 1, r_status := RDispatching, r_updated_at := now t\<rparr>) (requests t)"
    "(st t')\<lparr>LastEventSeq := 0\<rparr> = (occupy_slot (dr_attempt res) (st t))\<lparr>LastEventSeq := 0\<rparr>"
proof -
  from dispatch_tx_dispatching [OF assms] obtain r m d where
    pre: "next_request t = Some (r, m)" "\<not> QueuePaused (st t)" "ActiveAttemptID (st t) = None" "PendingCount (st t) \<noteq> 0"
    and run: "dispatch_commit r m d policy t = Inr (res, t')" by blast
  from wpD [OF dispatch_commit_effect run] that [OF pre] show ?thesis by blast
qed

lemma occupied_state:
  assumes "(s' :: durableState)\<lparr>LastEventSeq := 0\<rparr> = (occupy_slot a s)\<lparr>LastEventSeq := 0\<rparr>"
  shows "ActiveAttemptID s' = Some a" "PendingCount s' = PendingCount s - 1" "QueuePaused s' = QueuePaused s"
    "Occupancy s' = ''active''" "QueueVersion s' = QueueVersion s + 1" "StateVersion s' = StateVersion s + 1"
  using arg_cong [OF assms, of ActiveAttemptID] arg_cong [OF assms, of PendingCount] arg_cong [OF assms, of QueuePaused]
    arg_cong [OF assms, of Occupancy] arg_cong [OF assms, of QueueVersion] arg_cong [OF assms, of StateVersion]
  by (simp_all add: occupy_slot_def)

text \<open>
  C9: dispatch is first-in first-out among the requests that may run, and never starts held or
  paused work. When the dispatch transaction dispatches, the chosen request was queued, no hold in
  force covered its dialog or the node, the queue was not paused, the execution slot was free, and
  every other request that could have been dispatched was admitted later.
\<close>

theorem dispatch_fifo_unheld:
  assumes "run_tx (dispatch_tx c policy) ids t0 ok db = (Inr res, db')" and "dr_outcome res = Dispatching"
  shows "\<exists>r \<in> set (requests db). dr_request res = request_id r \<and> r_status r = RQueued \<and>
     \<not> request_held (begin_tx db ids t0) r \<and> \<not> QueuePaused (node_state db) \<and> ActiveAttemptID (node_state db) = None \<and>
     (\<forall>q \<in> set (requests db). dispatchable (begin_tx db ids t0) q \<longrightarrow> r_queue_sequence r \<le> r_queue_sequence q)"
proof -
  let ?t = "begin_tx db ids t0"
  obtain t' where run: "dispatch_tx c policy ?t = Inr (res, t')"
    using assms(1) by (auto simp: run_tx_def split: sum.splits if_splits)
  obtain r m where n: "next_request ?t = Some (r, m)" and g: "\<not> QueuePaused (st ?t)" "ActiveAttemptID (st ?t) = None"
    and id: "dr_request res = request_id r"
    by (rule dispatch_effect [OF run assms(2)])
  from next_request_Some [OF n] g id show ?thesis
    by (intro bexI [of _ r]) (auto simp: dispatchable_def)
qed

lemma sample_dispatch_ok: "dispatched (fst sample_dispatch)"
  by code_simp

lemma sample_dispatched:
  obtains res where "run_tx (dispatch_tx sample_candidate sample_policy) (io_ids sample_io) (io_now sample_io) True sample_queued =
    (Inr res, snd sample_dispatch)" "dr_outcome res = Dispatching"
  using sample_dispatch_ok by (cases "fst sample_dispatch") (auto simp: dispatched_def sample_dispatch_def prod_eq_iff)

theorem dispatch_fifo_unheld_witness:
  "\<exists>r \<in> set (requests sample_queued). r_status r = RQueued \<and>
     (\<forall>q \<in> set (requests sample_queued). dispatchable (begin_tx sample_queued (io_ids sample_io) (io_now sample_io)) q \<longrightarrow>
        r_queue_sequence r \<le> r_queue_sequence q)"
  by (rule sample_dispatched) (use dispatch_fifo_unheld in blast)

lemma keep_slot_dispatch: "keeps slot_keys (dispatch_tx c policy)"
proof (rule keepsI, rule wpI)
  fix t res t'
  assume inv: "slot_keys t" and run: "dispatch_tx c policy t = Inr (res, t')"
  have keys: "primary_keys t'" using table_keys.keep_dispatch inv run by (auto simp: slot_keys_def dest: keeps_run)
  show "slot_keys t'"
  proof (cases "dr_outcome res = Dispatching")
    case True
    obtain r m where a: "attempts t' = attempts t @ [new_attempt (dr_attempt res) r (next_generation (r_input_message_id r) t) policy (st t)]"
      and f: "ActiveAttemptID (st t) = None"
      and s: "(st t')\<lparr>LastEventSeq := 0\<rparr> = (occupy_slot (dr_attempt res) (st t))\<lparr>LastEventSeq := 0\<rparr>"
      by (rule dispatch_effect [OF run True])
    from inv f have "active_ids (attempts t) = []" by (simp add: slot_keys_def slot_inv_def)
    then have "active_ids (attempts t') = [dr_attempt res]" using a by (simp add: active_ids_def new_attempt_def)
    with occupied_state(1) [OF s] keys show ?thesis by (simp add: slot_keys_def slot_inv_def)
  next
    case False
    with dispatch_tx_other [OF run] inv show ?thesis by simp
  qed
qed

text \<open>The number of the new attempt is above that of every attempt at the same input.\<close>

lemma latest_generation_ge:
  assumes "a \<in> set (attempts t)" and "attempt_request t a = Some r" and "r_input_message_id r = m"
  shows "a_generation a < next_generation m t"
proof -
  let ?rows = "filter (\<lambda>a. case attempt_request t a of None \<Rightarrow> False | Some r \<Rightarrow> r_input_message_id r = m) (attempts t)"
  have a: "a \<in> set ?rows" using assms by simp
  then have "?rows \<noteq> []" by (metis list.distinct(1) list.set_cases)
  then obtain g where g: "max_col a_generation ?rows = Some g" by (cases "max_col a_generation ?rows") auto
  show ?thesis using max_col_ge [OF g a] g by (simp add: next_generation_def latest_generation_def)
qed

text \<open>
  C15: a dispatch occupies the slot with a fresh attempt whose generation is strictly greater than
  the generation of every earlier attempt at the same input message, so that a late observation of
  an earlier attempt can always be told apart.
\<close>

theorem dispatch_generation_increases:
  assumes "run_tx (dispatch_tx c policy) ids t0 True db = (Inr res, db')" and "dr_outcome res = Dispatching"
  shows "\<exists>r a. r \<in> set (requests db) \<and> request_id r = dr_request res \<and> attempts db' = attempts db @ [a] \<and>
     attempt_id a = dr_attempt res \<and> a_request_id a = request_id r \<and> a_state a = ADispatching \<and>
     ActiveAttemptID (node_state db') = Some (attempt_id a) \<and>
     (\<forall>b \<in> set (attempts db). \<forall>q \<in> set (requests db).
        lookup_row request_id (a_request_id b) (requests db) = Some q \<longrightarrow>
        r_input_message_id q = r_input_message_id r \<longrightarrow> a_generation b < a_generation a)"
proof -
  let ?t = "begin_tx db ids t0"
  obtain t' where run: "dispatch_tx c policy ?t = Inr (res, t')" and c: "db' = commit_tx t'"
    using assms(1) by (auto simp: run_tx_def split: sum.splits if_splits)
  obtain r m where n: "next_request ?t = Some (r, m)" and id: "dr_request res = request_id r"
    and a: "attempts t' = attempts ?t @ [new_attempt (dr_attempt res) r (next_generation (r_input_message_id r) ?t) policy (st ?t)]"
    and s: "(st t')\<lparr>LastEventSeq := 0\<rparr> = (occupy_slot (dr_attempt res) (st ?t))\<lparr>LastEventSeq := 0\<rparr>"
    by (rule dispatch_effect [OF run assms(2)])
  have "node_state t' = st t'" using keeps_run [OF saved_dispatch begin_tx_saved run] by (simp add: state_saved_def)
  then show ?thesis
    using next_request_Some(1) [OF n] id a occupied_state(1) [OF s] c latest_generation_ge [of _ ?t]
    by (intro exI [of _ r] exI [of _ "new_attempt (dr_attempt res) r (next_generation (r_input_message_id r) ?t) policy (st ?t)"])
      (auto simp: new_attempt_def commit_tx_def database.defs attempt_request_def)
qed

theorem dispatch_generation_increases_witness:
  "\<exists>r a. r \<in> set (requests sample_queued) \<and> attempts (snd sample_dispatch) = attempts sample_queued @ [a] \<and>
     a_request_id a = request_id r \<and> ActiveAttemptID (node_state (snd sample_dispatch)) = Some (attempt_id a)"
  by (rule sample_dispatched) (use dispatch_generation_increases in blast)

text \<open>
  The pending counter counts the queued requests. This is an invariant of admission and dispatch.
\<close>

definition pending_inv :: "txn \<Rightarrow> bool" where
  "pending_inv t \<longleftrightarrow> PendingCount (st t) = count_rows (\<lambda>r. r_status r = RQueued) (requests t)"

lemma pending_dispatch:
  assumes "pending_inv t" and "primary_keys t" and "dispatch_tx c policy t = Inr (res, t')" and "dr_outcome res = Dispatching"
  shows "pending_inv t'"
proof -
  obtain r m where n: "next_request t = Some (r, m)"
    and q: "requests t' = update_rows (\<lambda>x. request_id x = request_id r)
       (\<lambda>x. x\<lparr>r_version := r_version x + 1, r_status := RDispatching, r_updated_at := now t\<rparr>) (requests t)"
    and s: "(st t')\<lparr>LastEventSeq := 0\<rparr> = (occupy_slot (dr_attempt res) (st t))\<lparr>LastEventSeq := 0\<rparr>"
    by (rule dispatch_effect [OF assms(3,4)])
  have d: "distinct (map request_id (requests t))" using assms(2) by (simp add: primary_keys_def)
  have l: "lookup_row request_id (request_id r) (requests t) = Some r"
    using lookup_row_unique [OF d next_request_Some(1) [OF n]] .
  have "r_status r = RQueued" using next_request_Some(2) [OF n] by (simp add: dispatchable_def)
  then show ?thesis
    using assms(1) occupied_state(2) [OF s]
    by (simp add: pending_inv_def q count_update_row [OF d l])
qed

text \<open>\<open>DispatchNext\<close> as a whole keeps the invariants of the database.\<close>

context slot_frame
begin

lemma dispatch_next_inv: "db_inv I db \<Longrightarrow> db_inv I (snd (DispatchNext H e db))"
proof -
  assume inv: "db_inv I db"
  have "db_inv I (snd (run_tx (dispatch_tx c policy) ids t0 ok db))" for c policy ids t0 ok
    using run_tx_inv [OF keep_dispatch saved_dispatch inv] .
  moreover have "db_inv I (blockPolicy x db)" for x
    using run_tx_inv [OF keep_block_policy saved_block_policy inv] inv by (simp add: blockPolicy_def)
  ultimately show ?thesis
    using inv by (auto simp: DispatchNext_def split: sum.split option.split prod.split) (metis snd_conv)+
qed

end

section \<open>Policy binding\<close>

lemma digits_mod_eq: "(\<And>i. i < k \<Longrightarrow> m div b ^ i mod b = n div b ^ i mod b) \<Longrightarrow> m mod b ^ k = n mod b ^ k" for m n b :: nat
proof (induction k)
  case 0
  then show ?case by simp
next
  case (Suc k)
  then have "m mod b ^ k = n mod b ^ k" "m div b ^ k mod b = n div b ^ k mod b" by auto
  then show ?case by (simp add: mod_mult2_eq mult.commute [of b])
qed

lemma char_of_mod_inj: "char_of (m mod 256) = char_of (n mod 256) \<Longrightarrow> m mod 256 = n mod 256" for m n :: nat
  by (metis mod_mod_trivial of_char_of)

lemma be64_inj:
  assumes "m < 2 ^ 64" and "n < 2 ^ 64" and "be64 m = be64 n"
  shows "m = n"
proof -
  have "m div 256 ^ i mod 256 = n div 256 ^ i mod 256" if "i < 8" for i
  proof (rule char_of_mod_inj)
    have "i = 7 \<or> i = 6 \<or> i = 5 \<or> i = 4 \<or> i = 3 \<or> i = 2 \<or> i = 1 \<or> i = 0" using that by arith
    then have "i \<in> set [7, 6, 5, 4, 3, 2, 1, 0]" by simp
    then show "char_of (m div 256 ^ i mod 256) = char_of (n div 256 ^ i mod 256)"
      using assms(3) unfolding be64_def by (simp only: map_eq_conv)
  qed
  then have "m mod 256 ^ 8 = n mod 256 ^ 8" by (rule digits_mod_eq)
  with assms(1,2) show ?thesis by simp
qed

lemma be64_length [simp]: "length (be64 n) = 8"
  by (simp add: be64_def)

lemma policy_frame_inj:
  assumes "policy_frame vs = policy_frame ws" and "length vs = length ws"
    and "\<forall>v \<in> set vs \<union> set ws. length v < 2 ^ 64"
  shows "vs = ws"
  using assms
proof (induction vs ws rule: list_induct2')
  case (4 v vs w ws)
  from "4.prems"(1) have e: "be64 (length v) @ v @ policy_frame vs = be64 (length w) @ w @ policy_frame ws"
    by (simp add: policy_frame_def)
  then have "be64 (length v) = be64 (length w)" and r: "v @ policy_frame vs = w @ policy_frame ws" by simp_all
  then have "length v = length w" using be64_inj "4.prems"(3) by auto
  with r have "v = w" "policy_frame vs = policy_frame ws" by simp_all
  with 4 show ?case by simp
qed simp_all

definition policy_parts :: "PolicySnapshot \<Rightarrow> string list" where
  "policy_parts p = [Revision p, ContentHash p, ToolManifestHash p, ApprovalMode p]"

definition collides :: "(string \<Rightarrow> string) \<Rightarrow> string \<Rightarrow> string \<Rightarrow> bool" where
  "collides H x y \<longleftrightarrow> x \<noteq> y \<and> H x = H y"

text \<open>
  C16: the effective hash binds the whole policy. Two snapshots that pass \<open>ValidatePolicySnapshot\<close>
  and share an effective hash are the same snapshot, content and tool manifest included, or one of
  three named pairs of byte strings is a collision of the digest; so keeping the first row on a
  conflict of \<open>effective_hash\<close> loses nothing. The length prefixes make the framing injective.
\<close>

theorem policy_hash_binds:
  assumes "ValidatePolicySnapshot H p" and "ValidatePolicySnapshot H q" and "EffectiveHash p = EffectiveHash q"
    and "\<forall>v \<in> set (policy_parts p) \<union> set (policy_parts q). length v < 2 ^ 64"
  shows "p = q \<or> collides H (policy_preimage p) (policy_preimage q) \<or>
     collides H (PolicyContent p) (PolicyContent q) \<or> collides H (ToolManifest p) (ToolManifest q)"
proof -
  have h: "H (policy_preimage p) = H (policy_preimage q)"
    using assms(1-3) by (simp add: ValidatePolicySnapshot_def EffectivePolicyHash_def)
  have "policy_preimage p = policy_preimage q \<longrightarrow> policy_parts p = policy_parts q"
    using policy_frame_inj [of "policy_parts p" "policy_parts q"] assms(4)
    by (auto simp: policy_parts_def policy_preimage_def)
  moreover have "policy_parts p = policy_parts q \<longrightarrow> H (PolicyContent p) = H (PolicyContent q) \<and> H (ToolManifest p) = H (ToolManifest q)"
    using assms(1,2) by (auto simp: ValidatePolicySnapshot_def policy_parts_def)
  moreover have "policy_parts p = policy_parts q \<and> PolicyContent p = PolicyContent q \<and> ToolManifest p = ToolManifest q \<longrightarrow> p = q"
    using assms(3) by (auto simp: policy_parts_def intro!: PolicySnapshot.equality)
  ultimately show ?thesis using h by (auto simp: collides_def)
qed

definition sample_plain_policy :: PolicySnapshot where
  "sample_plain_policy = (let p = \<lparr>Revision = ''r1'', PolicyContent = ''p'', ContentHash = ''p'', ToolManifest = ''m'',
     ToolManifestHash = ''m'', ApprovalMode = ''deny'', EffectiveHash = []\<rparr> in p\<lparr>EffectiveHash := EffectivePolicyHash id p\<rparr>)"

definition sample_prepared_policy :: PolicySnapshot where
  "sample_prepared_policy = the (PreparePolicySnapshot id sample_plain_policy)"

theorem policy_hash_binds_witness:
  "ValidatePolicySnapshot id sample_plain_policy \<and> ValidatePolicySnapshot id sample_prepared_policy \<and>
     sample_plain_policy = sample_prepared_policy"
proof -
  have v: "ValidatePolicySnapshot id sample_plain_policy"
    by (simp add: sample_plain_policy_def ValidatePolicySnapshot_def EffectivePolicyHash_def policy_preimage_def Let_def)
  have w: "ValidatePolicySnapshot id sample_prepared_policy"
    by (simp add: sample_prepared_policy_def PreparePolicySnapshot_def sample_plain_policy_def ValidatePolicySnapshot_def
        EffectivePolicyHash_def policy_preimage_def Let_def)
  show ?thesis
    using policy_hash_binds [OF v w] v w
    by (simp add: collides_def policy_parts_def sample_prepared_policy_def PreparePolicySnapshot_def sample_plain_policy_def
        ValidatePolicySnapshot_def EffectivePolicyHash_def policy_preimage_def Let_def)
qed

end
