(* ===== verification/Attempt.thy ===== *)
theory Attempt
  imports Budget Dispatch
begin

text \<open>
  The life of an attempt after dispatch, the first part of \<open>runtime/observe.go\<close>: losing track of
  it (\<open>setAttemptUnknown\<close>), its end (\<open>applyTerminal\<close>), waiting for the operator
  (\<open>transitionWaiting\<close>), the stop that an exceeded output budget schedules, and the generic
  \<open>Observe\<close> entry with the archive of late observations. The lemmas show who holds the execution
  slot after each of them.
\<close>

section \<open>Transitions\<close>

definition attempt_generation :: "string \<Rightarrow> int \<Rightarrow> txn \<Rightarrow> attempt_row option" where
  "attempt_generation i g t = (case lookup_row attempt_id i (attempts t) of
     None \<Rightarrow> None | Some a \<Rightarrow> if a_generation a = g then Some a else None)"

definition setAttemptUnknown :: "AttemptRef \<Rightarrow> string \<Rightarrow> string \<Rightarrow> unit dbtx" where
  "setAttemptUnknown ref reason effect =
     tbind (tfind (attempt_generation (ref_attempt ref) (ref_generation ref)) NoRows) (\<lambda>a.
     if a_state a = AUnknown then tret ()
     else (let effectStatus = (if effect = [] then ''unknown'' else effect) in
       tbind (tgets now) (\<lambda>at.
       tseq (update_attempts (ref_attempt ref) (\<lambda>x. x\<lparr>a_version := a_version x + 1, a_state := AUnknown, a_effect_status := effectStatus\<rparr>))
       (tseq (tdo [
         update_requests (ref_request ref) (\<lambda>r. r\<lparr>r_version := r_version r + 1, r_status := RUnknown, r_updated_at := at\<rparr>),
         mod_state (\<lambda>s. s\<lparr>StateVersion := StateVersion s + 1, EngineReadiness := ''unknown'', Occupancy := ''unknown'',
           ActiveAttemptID := Some (ref_attempt ref), BlockedReasons := addReason (BlockedReasons s) ''execution_unknown''\<rparr>)])
       (tseq (appendEvent ''attempt.unknown'' (ref_attempt ref) (a_version a + 1) (ref_attempt ref) (ref_dialog ref)
          (json_AttemptEnded (ref_generation ref) reason effectStatus) False)
        appendNodeEvent)))))"

record Observation =
  ob_attempt :: string
  ob_generation :: int
  ob_kind :: string
  ob_terminal :: string
  ob_reason :: string
  ob_effect :: string
  ob_confirmed :: bool

text \<open>The three terminal states, as attempt state and request status.\<close>

definition terminal_of :: "string \<Rightarrow> (attempt_state \<times> request_status) option" where
  "terminal_of s = (if s = ''completed'' then Some (ACompleted, RCompleted)
     else if s = ''failed'' then Some (AFailed, RFailed)
     else if s = ''interrupted'' then Some (AInterrupted, RInterrupted) else None)"

text \<open>The rows and the slot at the end of an attempt.\<close>

definition finish_rows :: "AttemptRef \<Rightarrow> attempt_state \<times> request_status \<Rightarrow> string \<Rightarrow> unit dbtx" where
  "finish_rows ref final effect = tbind (tgets now) (\<lambda>at. tdo [
     update_attempts (ref_attempt ref) (\<lambda>a. a\<lparr>a_version := a_version a + 1, a_state := fst final, a_effect_status := effect,
       a_finished_at := Some at\<rparr>),
     update_requests (ref_request ref) (\<lambda>r. r\<lparr>r_version := r_version r + 1, r_status := snd final, r_updated_at := at\<rparr>)])"

definition terminal_event :: "int \<Rightarrow> string \<Rightarrow> string \<Rightarrow> string \<Rightarrow> string \<Rightarrow> string \<times> json" where
  "terminal_event generation terminal effect code message =
     (if terminal = ''completed'' then (''attempt.completed'', json_AttemptCompleted generation (json_AttemptOutput ''empty'' []) None)
      else if terminal = ''failed'' then (''attempt.failed'', json_AttemptFailed generation ''task'' code message False effect)
      else (''attempt.interrupted'', json_AttemptEnded generation ''provider_interrupt'' effect))"

definition applyTerminal :: "AttemptRef \<Rightarrow> int \<Rightarrow> Observation \<Rightarrow> unit dbtx" where
  "applyTerminal ref version ob =
     tbind (tfind (\<lambda>_. terminal_of (ob_terminal ob)) (Internal ''unsupported terminal state'')) (\<lambda>final.
     tseq (finish_rows ref final (ob_effect ob))
     (tseq (mod_state (\<lambda>s. s\<lparr>StateVersion := StateVersion s + 1, ActiveAttemptID := None, Occupancy := ''idle'',
        EngineReadiness := (if EngineReadiness s = ''unknown'' then ''blocked'' else EngineReadiness s)\<rparr>))
     (tseq (let (ty, payload) = terminal_event (ref_generation ref) (ob_terminal ob) (ob_effect ob) ''adapter_failed'' ''attempt failed''
        in appendEvent ty (ref_attempt ref) (version + 1) (ref_attempt ref) (ref_dialog ref) payload False)
      appendNodeEvent)))"

definition archiveLateObservation :: "Observation \<Rightarrow> int \<Rightarrow> string \<Rightarrow> unit dbtx" where
  "archiveLateObservation ob entityVersion dialogID =
     tseq (tguard (ob_kind ob = ''terminal'' \<longrightarrow> terminal_of (ob_terminal ob) \<noteq> None) (Internal ''unsupported late terminal state''))
     (tseq (let (ty, payload) = (if ob_kind ob = ''terminal''
          then terminal_event (ob_generation ob) (ob_terminal ob) (ob_effect ob) ''late_failure'' ''late attempt failure''
          else (''attempt.unknown'', json_AttemptEnded (ob_generation ob) ''provider_state'' (ob_effect ob)))
        in appendEvent ty (ob_attempt ob) entityVersion (ob_attempt ob) dialogID payload True)
     (tbind (tgets id) (\<lambda>t.
       tdo [insert_late \<lparr>l_attempt_id = ob_attempt ob, l_generation = ob_generation ob, l_kind = ob_kind ob,
          l_event_seq = LastEventSeq (st t), l_observed_at = now t, l_projection_key = None, l_projection_hash = None,
          l_output_bytes = 0\<rparr>,
        saveState])))"

text \<open>The attempt of an observation, unless its dialog is deleted.\<close>

definition live_attempt :: "string \<Rightarrow> txn \<Rightarrow> attempt_row option" where
  "live_attempt i t = (case lookup_row attempt_id i (attempts t) of None \<Rightarrow> None
     | Some a \<Rightarrow> if dialog_deleted (a_dialog_id a) t then None else Some a)"

definition attempt_ref :: "durableState \<Rightarrow> attempt_row \<Rightarrow> AttemptRef" where
  "attempt_ref s a = \<lparr>ref_node = NodeID s, ref_dialog = a_dialog_id a, ref_request = a_request_id a,
     ref_attempt = attempt_id a, ref_generation = a_generation a\<rparr>"

definition observe_tx :: "Observation \<Rightarrow> unit dbtx" where
  "observe_tx ob = tbind (tfind (live_attempt (ob_attempt ob)) NoRows) (\<lambda>a. tbind (tgets st) (\<lambda>s.
     if ob_generation ob \<noteq> a_generation a \<or> ActiveAttemptID s \<noteq> Some (ob_attempt ob)
     then archiveLateObservation ob (a_version a) (a_dialog_id a)
     else if ob_kind ob = ''unknown'' then tseq (setAttemptUnknown (attempt_ref s a) (ob_reason ob) (ob_effect ob)) saveState
     else if ob_kind ob = ''terminal'' then
       tseq (tguard (ob_confirmed ob) (Internal ''unconfirmed terminal observation''))
       (tseq (applyTerminal (attempt_ref s a) (a_version a) ob) saveState)
     else tfail (Internal ''unsupported observation kind'')))"

definition Observe :: "io \<Rightarrow> Observation \<Rightarrow> database \<Rightarrow> (tx_error + unit) \<times> database" where
  "Observe e ob db = (if io_begin e then run_tx (observe_tx ob) (io_ids e) (io_now e) (io_commit e) db
     else (Inl (Internal ''begin''), db))"

text \<open>\<open>markAttemptUnknown\<close> gives up silently: any error leaves the database as it was.\<close>

definition mark_unknown_tx :: "AttemptRef \<Rightarrow> string \<Rightarrow> string \<Rightarrow> unit dbtx" where
  "mark_unknown_tx ref reason effect =
     tseq (tcheck (\<lambda>t. ActiveAttemptID (st t) = Some (ref_attempt ref)) (Internal ''inactive''))
     (tseq (setAttemptUnknown ref reason effect) saveState)"

definition markAttemptUnknown :: "io \<Rightarrow> AttemptRef \<Rightarrow> string \<Rightarrow> string \<Rightarrow> database \<Rightarrow> database" where
  "markAttemptUnknown e ref reason effect db = (if io_begin e
     then snd (run_tx (mark_unknown_tx ref reason effect) (io_ids e) (io_now e) (io_commit e) db) else db)"

definition transitionWaiting :: "AttemptRef \<Rightarrow> int \<Rightarrow> attempt_state \<Rightarrow> string \<Rightarrow> unit dbtx" where
  "transitionWaiting ref attemptVersion attemptState waitKind =
     tseq (tguard (attemptState = ARunning \<or> attemptState = AWaitingInput) (Internal ''attempt cannot enter waiting_input''))
     (tseq (update_attempts (ref_attempt ref) (\<lambda>a. a\<lparr>a_version := a_version a + 1, a_state := AWaitingInput\<rparr>))
     (tseq (mod_state (\<lambda>s. s\<lparr>StateVersion := StateVersion s + 1\<rparr>))
     (tseq (appendEvent ''attempt.waiting_input'' (ref_attempt ref) (attemptVersion + 1) (ref_attempt ref) (ref_dialog ref)
        (json_AttemptWaiting (ref_request ref) (ref_generation ref) waitKind) False)
      (tret ()))))"

definition scheduleOutputLimitStop :: "AttemptRef \<Rightarrow> unit dbtx" where
  "scheduleOutputLimitStop ref = tbind (tgets st) (\<lambda>s.
     if ActiveAttemptID s \<noteq> Some (ref_attempt ref) then tret ()
     else tbind (tfind (\<lambda>t. lookup_row attempt_id (ref_attempt ref) (attempts t)) NoRows) (\<lambda>a.
       if a_generation a \<noteq> ref_generation ref \<or> (a_state a \<noteq> ARunning \<and> a_state a \<noteq> AWaitingInput) then tret ()
       else tbind newID (\<lambda>commandID.
         tseq (update_attempts (ref_attempt ref) (\<lambda>x. x\<lparr>a_version := a_version x + 1, a_state := AStopping\<rparr>))
         (tseq (mod_state (\<lambda>s. s\<lparr>StateVersion := StateVersion s + 1\<rparr>))
         (tseq (appendEvent ''attempt.stop_requested'' (ref_attempt ref) (a_version a + 1) (ref_attempt ref) (ref_dialog ref)
            (json_AttemptStopRequested (ref_generation ref) commandID) False)
          (insert_control \<lparr>k_command_id = commandID, k_kind = ActionCommand CommandAttemptStop, k_attempt_id = ref_attempt ref,
             k_message_id = None, k_actor_id = None, k_payload = emptyPayload\<lparr>Generation := ref_generation ref,
               DialogID := ref_dialog ref, RequestID := ref_request ref\<rparr>, k_status = CPending\<rparr>))))))"

lemmas attempt_code [code] =
  setAttemptUnknown_def [unfolded exec_unfold]
  finish_rows_def [unfolded exec_unfold]
  applyTerminal_def [unfolded exec_unfold]
  archiveLateObservation_def [unfolded exec_unfold]
  observe_tx_def [unfolded exec_unfold]
  mark_unknown_tx_def [unfolded exec_unfold]
  transitionWaiting_def [unfolded exec_unfold]
  scheduleOutputLimitStop_def [unfolded exec_unfold]

section \<open>The transitions keep every store invariant\<close>

lemma attempt_generation_Some:
  "attempt_generation i g t = Some a \<Longrightarrow> lookup_row attempt_id i (attempts t) = Some a \<and> a_generation a = g"
  by (auto simp: attempt_generation_def split: option.splits if_splits)

lemma live_attempt_Some: "live_attempt i t = Some a \<Longrightarrow> lookup_row attempt_id i (attempts t) = Some a \<and> attempt_id a = i"
  by (auto simp: live_attempt_def split: option.splits if_splits dest: lookup_row_Some)

context settled_frame
begin

lemma keep_archive_observation: "keeps I (archiveLateObservation ob v d)"
  unfolding archiveLateObservation_def by (intro keeps keep_all)

text \<open>A change of the attempt's state that leaves it active.\<close>

lemma keep_active_change:
  "I t \<Longrightarrow> lookup_row attempt_id i (attempts t) = Some a \<Longrightarrow> is_active (a_state a) \<Longrightarrow> attempt_update_ok f \<Longrightarrow>
     (\<And>x. is_active (a_state (f x))) \<Longrightarrow> wp (update_attempts i f) (\<lambda>_. I) t"
  by (rule keep_attempts_settled) simp_all

lemma keep_schedule_stop: "keeps I (scheduleOutputLimitStop ref)"
proof (rule keepsI)
  fix t
  assume t: "I t"
  show "wp (scheduleOutputLimitStop ref) (\<lambda>_. I) t"
    unfolding scheduleOutputLimitStop_def
  proof (intro wp_gets_then wp_if [THEN iffD2] if_bool_eq_conj [THEN iffD2] conjI impI wp_find_then)
    fix a
    assume a: "lookup_row attempt_id (ref_attempt ref) (attempts t) = Some a" and
      s: "\<not> (a_generation a \<noteq> ref_generation ref \<or> (a_state a \<noteq> ARunning \<and> a_state a \<noteq> AWaitingInput))"
    have "is_active (a_state a)" using s by auto
    then have u: "wp (update_attempts (ref_attempt ref) (\<lambda>x. x\<lparr>a_version := a_version x + 1, a_state := AStopping\<rparr>)) (\<lambda>_. I) t'"
      if "I t'" "attempts t' = attempts t" for t' :: txn
      using that a by (intro keep_active_change) (simp_all add: frame_defs)
    have "wp newID (\<lambda>_ t'. I t' \<and> attempts t' = attempts t) t"
      using keep_newID t by (auto simp: keeps_def wp_conj) (auto simp: wp)
    then show "wp (tbind newID (\<lambda>commandID.
         tseq (update_attempts (ref_attempt ref) (\<lambda>x. x\<lparr>a_version := a_version x + 1, a_state := AStopping\<rparr>))
         (tseq (mod_state (\<lambda>s. s\<lparr>StateVersion := StateVersion s + 1\<rparr>))
         (tseq (appendEvent ''attempt.stop_requested'' (ref_attempt ref) (a_version a + 1) (ref_attempt ref) (ref_dialog ref)
            (json_AttemptStopRequested (ref_generation ref) commandID) False)
          (insert_control \<lparr>k_command_id = commandID, k_kind = ActionCommand CommandAttemptStop, k_attempt_id = ref_attempt ref,
             k_message_id = None, k_actor_id = None, k_payload = emptyPayload\<lparr>Generation := ref_generation ref,
               DialogID := ref_dialog ref, RequestID := ref_request ref\<rparr>, k_status = CPending\<rparr>))))) (\<lambda>_. I) t"
      unfolding wp_tbind
      by (rule wp_mono) (auto intro!: wp_then u keeps keep_all simp: frame_defs)
  qed (simp_all add: wp t)
qed

lemma keep_waiting:
  assumes "I t" and "lookup_row attempt_id (ref_attempt ref) (attempts t) = Some a" and "is_active (a_state a)"
  shows "wp (transitionWaiting ref v s k) (\<lambda>_. I) t"
  unfolding transitionWaiting_def
  using assms by (intro wp_front wp_then keep_active_change) (auto intro!: keeps keep_all simp: frame_defs)

end

lemma terminal_of_inactive: "terminal_of s = Some final \<Longrightarrow> \<not> is_active (fst final)"
  by (auto simp: terminal_of_def split: if_splits)

context slot_mover
begin

lemma keep_set_unknown: "keeps I (setAttemptUnknown ref reason effect)"
  unfolding setAttemptUnknown_def by (intro keeps keep_all keep_moves) (simp_all add: frame_defs)

lemma keep_finish_rows: "\<not> is_active (fst final) \<Longrightarrow> keeps I (finish_rows ref final effect)"
  unfolding finish_rows_def by (intro keeps keep_all keep_moves) (auto simp: frame_defs)

lemma keep_apply_terminal: "keeps I (applyTerminal ref v ob)"
  unfolding applyTerminal_def
  by (rule keeps_tbind_result [where R = "\<lambda>final. \<not> is_active (fst final)"], intro keeps)
     (auto simp: wp terminal_of_inactive frame_defs intro!: keeps keep_all keep_moves keep_finish_rows)

lemma keep_observe: "keeps I (observe_tx ob)"
  unfolding observe_tx_def by (intro keeps keep_all keep_archive_observation keep_set_unknown keep_apply_terminal)

lemma keep_mark_unknown: "keeps I (mark_unknown_tx ref reason effect)"
  unfolding mark_unknown_tx_def by (intro keeps keep_all keep_set_unknown)

lemma keep_waiting_any: "keeps I (transitionWaiting ref v s k)"
  unfolding transitionWaiting_def by (intro keeps keep_all keep_moves) (simp_all add: frame_defs)

end

lemma saved_archive_observation: "ends_saved (archiveLateObservation ob v d)"
  unfolding archiveLateObservation_def
  by (intro saved keeps identity.keep_all)

lemma saved_observe: "keeps state_saved (observe_tx ob)"
  unfolding observe_tx_def
  by (rule keeps_saved_ends)
     (intro saved saved_archive_observation keeps identity.keep_set_unknown identity.keep_apply_terminal)

lemma saved_mark_unknown: "keeps state_saved (mark_unknown_tx ref reason effect)"
  unfolding mark_unknown_tx_def
  by (rule keeps_saved_ends) (intro saved keeps identity.keep_set_unknown)

section \<open>Who holds the slot\<close>

definition holds_slot :: "string \<Rightarrow> txn \<Rightarrow> bool" where
  "holds_slot i t \<longleftrightarrow> slot_keys t \<and> ActiveAttemptID (st t) = Some i"

definition slot_is :: "string option \<Rightarrow> txn \<Rightarrow> bool" where
  "slot_is x t \<longleftrightarrow> ActiveAttemptID (st t) = x"

lemma holds_slot_alt: "holds_slot i = (\<lambda>t. slot_keys t \<and> slot_is (Some i) t)"
  by (simp add: fun_eq_iff holds_slot_def slot_is_def)

interpretation occupant: slot_holder "slot_is x" for x
proof unfold_locales
  show "keeps (slot_is x) (appendEvent ty ent ver att dia pay late)" for ty ent ver att dia pay late
    by (auto simp: keeps_def wp_appendEvent slot_is_def Let_def)
  show "keeps (slot_is x) saveState"
    by (simp add: keeps_def wp saveState_def slot_is_def)
qed (auto simp: keeps_def wp statement_defs slot_is_def slot_unchanged_def Let_def)

interpretation occupied: slot_holder "holds_slot i" for i
proof unfold_locales
  show "wp (update_attempts j f) (\<lambda>_. holds_slot i) t"
    if "attempt_update_ok f" "holds_slot i t" "lookup_row attempt_id j (attempts t) = Some a"
      "is_active (a_state (f a)) = is_active (a_state a)" for j f t a
    unfolding holds_slot_alt wp_conj
    using that exec_slot.keep_attempts_settled occupant.keep_attempts_settled by (auto simp: holds_slot_alt)
qed (unfold holds_slot_alt, simp add: exec_slot.clock_free occupant.clock_free,
     (rule keeps_conj; fast intro: exec_slot.keep_statements occupant.keep_statements exec_slot.keep_command
        occupant.keep_command exec_slot.keep_rejection occupant.keep_rejection exec_slot.keep_barrier_all
        occupant.keep_barrier_all)+)

lemma active_ids_holder:
  assumes "holds_slot i t"
  obtains a where "lookup_row attempt_id i (attempts t) = Some a" and "is_active (a_state a)"
proof -
  have ids: "active_ids (attempts t) = [i]" and d: "distinct (map attempt_id (attempts t))"
    using assms by (auto simp: holds_slot_def slot_keys_def slot_inv_def primary_keys_def)
  from ids have "i \<in> set (active_ids (attempts t))" by simp
  then obtain a where "a \<in> set (attempts t)" "is_active (a_state a)" "attempt_id a = i"
    by (auto simp: active_ids_def)
  with that lookup_row_unique [OF d, of a] show ?thesis by auto
qed

lemma slot_set_same: "ActiveAttemptID (st t) = Some i \<Longrightarrow> (\<And>s. ActiveAttemptID (f s) = Some i) \<Longrightarrow> slot_keys t \<Longrightarrow>
    slot_keys (t\<lparr>st := f (st t)\<rparr>)"
  by (simp add: slot_keys_def slot_inv_def primary_keys_def)

lemma slot_set_unknown:
  assumes "holds_slot (ref_attempt ref) t"
  shows "wp (setAttemptUnknown ref reason effect) (\<lambda>_. holds_slot (ref_attempt ref)) t"
proof -
  obtain a where a: "lookup_row attempt_id (ref_attempt ref) (attempts t) = Some a" "is_active (a_state a)"
    using active_ids_holder [OF assms] by blast
  have m: "keeps (holds_slot (ref_attempt ref)) (mod_state (\<lambda>s. s\<lparr>StateVersion := StateVersion s + 1,
      EngineReadiness := ''unknown'', Occupancy := ''unknown'', ActiveAttemptID := Some (ref_attempt ref),
      BlockedReasons := addReason (BlockedReasons s) ''execution_unknown''\<rparr>))"
    by (auto simp: keeps_def wp holds_slot_def intro!: slot_set_same)
  show ?thesis
    unfolding setAttemptUnknown_def Let_def
    by (intro wp_front wp_if [THEN iffD2] if_bool_eq_conj [THEN iffD2] conjI impI wp_then occupied.keep_active_change
        keeps m occupied.keep_all)
       (use assms a in \<open>auto simp: wp frame_defs dest: attempt_generation_Some\<close>)
qed

text \<open>A terminal transition of the holder, followed by the release of the slot.\<close>

lemma active_ids_finish:
  assumes "distinct (map attempt_id rows)" and "active_ids rows = [i]" and "\<And>a. \<not> is_active (a_state (f a))"
  shows "active_ids (update_rows (\<lambda>a. attempt_id a = i) f rows) = []"
proof -
  have "\<not> is_active (a_state a) \<or> attempt_id a = i" if "a \<in> set rows" for a
  proof -
    have "set (active_ids rows) = {i}" using assms(2) by simp
    then show ?thesis using that by (auto simp: active_ids_def)
  qed
  then show ?thesis using assms(3) by (auto simp: active_ids_def filter_empty_conv set_update_rows)
qed

lemma finish_rows_slot:
  assumes "holds_slot (ref_attempt ref) t" and "\<not> is_active (fst final)"
  shows "wp (finish_rows ref final effect) (\<lambda>_ t'. active_ids (attempts t') = [] \<and> primary_keys t') t"
proof -
  have k: "wp (finish_rows ref final effect) (\<lambda>_. primary_keys) t"
    using table_keys.keep_finish_rows assms by (auto simp: keeps_def holds_slot_def slot_keys_def)
  have "wp (finish_rows ref final effect) (\<lambda>_ t'. active_ids (attempts t') = []) t"
    using assms by (auto simp: finish_rows_def wp update_attempts_def update_requests_def Let_def holds_slot_def slot_keys_def
        slot_inv_def primary_keys_def intro!: active_ids_finish)
  with k show ?thesis by (simp add: wp_conj)
qed

lemma release_slot:
  "active_ids (attempts t) = [] \<Longrightarrow> primary_keys t \<Longrightarrow> (\<And>s. ActiveAttemptID (f s) = None) \<Longrightarrow> wp (mod_state f) (\<lambda>_. slot_keys) t"
  by (simp add: wp slot_keys_def slot_inv_def primary_keys_def)

lemma wp_seq_step: "wp m Q s \<Longrightarrow> (\<And>a s'. Q a s' \<Longrightarrow> wp n R s') \<Longrightarrow> wp (tseq m n) R s"
  by (auto simp: wp_tseq intro: wp_mono)

lemma slot_apply_terminal:
  assumes "holds_slot (ref_attempt ref) t"
  shows "wp (applyTerminal ref v ob) (\<lambda>_. slot_keys) t"
  unfolding applyTerminal_def
  by (intro wp_find_then, rule wp_seq_step [OF finish_rows_slot [OF assms terminal_of_inactive]], assumption)
     (auto intro!: wp_then keeps exec_slot.keep_all release_slot)

lemma attempt_ref_sel [simp]: "ref_attempt (attempt_ref s a) = attempt_id a" "ref_generation (attempt_ref s a) = a_generation a"
  by (simp_all add: attempt_ref_def)

lemma keep_slot_observe: "keeps slot_keys (observe_tx ob)"
proof (rule keepsI)
  fix t
  assume t: "slot_keys t"
  have "wp (archiveLateObservation ob v d) (\<lambda>_. slot_keys) t" for v d
    using exec_slot.keep_archive_observation t by (auto simp: keeps_def)
  moreover have "wp (setAttemptUnknown (attempt_ref s a) r e) (\<lambda>_. slot_keys) t"
    if "ActiveAttemptID (st t) = Some (attempt_id a)" for s a r e
    by (rule wp_mono [OF slot_set_unknown]) (use t that in \<open>auto simp: holds_slot_def\<close>)
  moreover have "wp (applyTerminal (attempt_ref s a) v ob) (\<lambda>_. slot_keys) t"
    if "ActiveAttemptID (st t) = Some (attempt_id a)" for s a v
    by (rule slot_apply_terminal) (use t that in \<open>auto simp: holds_slot_def\<close>)
  ultimately show "wp (observe_tx ob) (\<lambda>_. slot_keys) t"
    unfolding observe_tx_def
    by (intro wp_front wp_if [THEN iffD2] if_bool_eq_conj [THEN iffD2] conjI impI wp_then exec_slot.keep_save)
       (auto simp: wp dest: live_attempt_Some)
qed

lemma keep_slot_mark_unknown: "keeps slot_keys (mark_unknown_tx ref reason effect)"
proof (rule keepsI)
  fix t
  assume t: "slot_keys t"
  show "wp (mark_unknown_tx ref reason effect) (\<lambda>_. slot_keys) t"
    unfolding mark_unknown_tx_def
    by (intro wp_front wp_then exec_slot.keep_save, rule wp_mono [OF slot_set_unknown])
       (use t in \<open>auto simp: holds_slot_def\<close>)
qed

end
