(* ===== verification/Observe.thy ===== *)
theory Observe
  imports Attempt
begin

text \<open>
  Projecting adapter events, the second part of \<open>runtime/observe.go\<close>: each event of the adapter's
  stream becomes at most one durable wire event with its rows, deduplicated by a projection key
  and the digest of its payload, charged to the output budget, and archived when it arrives late
  or while the attempt is being stopped. The lemmas show that every store invariant is kept, that
  a replayed event changes nothing and a conflicting one is refused, and that a late event never
  changes the slot, the queue or an attempt.
\<close>

section \<open>Payloads\<close>

datatype payload =
    AttemptStartedPayload string int
  | AttemptWaitingPayload string int string
  | AssistantDeltaPayload string int SafeContent
  | AssistantMessagePayload string SafeContent string
  | ToolStartedPayload string string string SafeContent
  | ToolOutputPayload string int string SafeContent
  | ToolCompletedPayload string string SafeContent string string
  | ApprovalRequestedPayload string string string string int
  | InputRequestedPayload string SafeContent int
  | AttemptCompletedPayload int string string "Usage option"
  | AttemptFailedPayload int string string string bool string
  | AttemptInterruptedPayload int string string
  | AttemptUnknownPayload int string string
  | archivedTerminalIdentity ReconcileOutcome "SafeContent option" "Usage option" "Failure option" string

definition json_Failure :: "Failure \<Rightarrow> json" where
  "json_Failure f = JObj [(''Class'', JStr (failure_text (Class f))), (''Code'', JStr (Code f)),
     (''SafeMessage'', JStr (SafeMessage f)), (''Retryable'', JBool (Retryable f))]"

definition json_nullable :: "('a \<Rightarrow> json) \<Rightarrow> 'a option \<Rightarrow> json" where
  "json_nullable f x = (case x of None \<Rightarrow> JNull | Some a \<Rightarrow> f a)"

fun json_payload :: "payload \<Rightarrow> json" where
  "json_payload (AttemptStartedPayload request generation) = json_AttemptStarted request generation"
| "json_payload (AttemptWaitingPayload request generation kind) = json_AttemptWaiting request generation kind"
| "json_payload (AssistantDeltaPayload message idx content) = json_AssistantDelta message idx content"
| "json_payload (AssistantMessagePayload message content finish) = json_AssistantMessage message content finish"
| "json_payload (ToolStartedPayload call name hash input) = json_ToolStarted call name hash input"
| "json_payload (ToolOutputPayload call idx stream output) = json_ToolOutput call idx stream output"
| "json_payload (ToolCompletedPayload call status result effect ref) = json_ToolCompleted call status result effect ref"
| "json_payload (ApprovalRequestedPayload approval call hash prompt version) = json_ApprovalRequested approval call hash prompt version"
| "json_payload (InputRequestedPayload input prompt version) = json_InputRequested input prompt version"
| "json_payload (AttemptCompletedPayload generation kind message usage) =
     json_AttemptCompleted generation (json_AttemptOutput kind message) usage"
| "json_payload (AttemptFailedPayload generation class code message retryable effect) =
     json_AttemptFailed generation class code message retryable effect"
| "json_payload (AttemptInterruptedPayload generation reason effect) = json_AttemptEnded generation reason effect"
| "json_payload (AttemptUnknownPayload generation reason effect) = json_AttemptEnded generation reason effect"
| "json_payload (archivedTerminalIdentity outcome output usage failure effect) = JObj [(''Outcome'', JStr (reconcile_text outcome)),
     (''Output'', json_nullable json_SafeContent output), (''Usage'', json_nullable json_Usage usage),
     (''Failure'', json_nullable json_Failure failure), (''EffectStatus'', JStr effect)]"

section \<open>Projections\<close>

record adapterProjection =
  eventType :: string
  entityID :: string
  entityVersion :: int
  pr_payload :: payload
  hashPayload :: "payload option"
  pr_key :: string
  outputLimit :: bool
  markerOnly :: bool

definition projection :: "string \<Rightarrow> string \<Rightarrow> int \<Rightarrow> payload \<Rightarrow> payload option \<Rightarrow> string \<Rightarrow> adapterProjection" where
  "projection ty ent ver body hash k = \<lparr>eventType = ty, entityID = ent, entityVersion = ver, pr_payload = body,
     hashPayload = hash, pr_key = k, outputLimit = False, markerOnly = False\<rparr>"

text \<open>\<open>fmt.Sprintf("%d")\<close>\<close>

definition decimal_text :: "int \<Rightarrow> string" where
  "decimal_text n = (if n < 0 then CHR ''-'' # digits_of (- n) else digits_of n)"

definition adapterProjectionHash :: "(string \<Rightarrow> string) \<Rightarrow> json \<Rightarrow> string" where
  "adapterProjectionHash H v = H (go_marshal v)"

definition adapterProjectionDigest :: "(string \<Rightarrow> string) \<Rightarrow> adapterProjection \<Rightarrow> string" where
  "adapterProjectionDigest H p = adapterProjectionHash H (json_payload (case hashPayload p of None \<Rightarrow> pr_payload p | Some h \<Rightarrow> h))"

definition safeContentEqual :: "(string \<Rightarrow> string) \<Rightarrow> SafeContent \<Rightarrow> SafeContent \<Rightarrow> bool" where
  "safeContentEqual H x y \<longleftrightarrow> adapterProjectionHash H (json_SafeContent x) = adapterProjectionHash H (json_SafeContent y)"

text \<open>\<open>SELECT projection_hash FROM events WHERE attempt_id=? AND projection_key=?\<close>\<close>

definition stored_projection :: "string \<Rightarrow> string \<Rightarrow> string option dbtx" where
  "stored_projection i k = tbind (tgets (\<lambda>t. find (\<lambda>e. e_attempt_id e = Some i \<and> e_projection_key e = Some k) (events t))) (\<lambda>x.
     case x of None \<Rightarrow> tret None | Some e \<Rightarrow> tbind (scan_text (e_projection_hash e)) (\<lambda>h. tret (Some h)))"

definition adapterProjectionExists :: "(string \<Rightarrow> string) \<Rightarrow> string \<Rightarrow> adapterProjection \<Rightarrow> bool dbtx" where
  "adapterProjectionExists H i p = tbind (stored_projection i (pr_key p)) (\<lambda>stored. case stored of None \<Rightarrow> tret False
     | Some h \<Rightarrow> tseq (tguard (h = adapterProjectionDigest H p) (Internal ''conflicting duplicate adapter event'')) (tret True))"

definition recordAdapterProjection :: "(string \<Rightarrow> string) \<Rightarrow> int \<Rightarrow> string \<Rightarrow> adapterProjection \<Rightarrow> unit dbtx" where
  "recordAdapterProjection H seq i p = (if pr_key p = [] then tret ()
     else (let unbound = (\<lambda>e. e_seq e = seq \<and> e_attempt_id e = Some i \<and> e_projection_key e = None) in
       tseq (tcheck (\<lambda>t. count_rows unbound (events t) = 1) (Internal ''adapter projection event binding failed''))
       (update_events unbound (\<lambda>e. e\<lparr>e_projection_key := Some (pr_key p), e_projection_hash := Some (adapterProjectionDigest H p)\<rparr>))))"

definition validateAdapterProjectionEnvelope :: "AttemptRef \<Rightarrow> adapterProjection \<Rightarrow> unit dbtx" where
  "validateAdapterProjectionEnvelope ref p = tcheck (\<lambda>t. Validate ''event''
     (event_envelope ((st t)\<lparr>LastEventSeq := LastEventSeq (st t) + 1\<rparr>) (now t) (eventType p) (entityID p) (entityVersion p)
        (ref_attempt ref) (ref_dialog ref) (json_payload (pr_payload p)))) (Internal ''adapter projection envelope'')"

text \<open>\<open>chargeAdapterProjection\<close>, and \<open>chargeSafeAdapterProjection\<close> on the inline bytes of the content.\<close>

definition chargeAdapterProjection :: "(string \<Rightarrow> string) \<Rightarrow> AttemptRef \<Rightarrow> adapterProjection \<Rightarrow> int \<Rightarrow> (outputCharge \<times> bool) dbtx" where
  "chargeAdapterProjection H ref p bytes =
     tseq (validateAdapterProjectionEnvelope ref p)
     (tbind (adapterProjectionExists H (ref_attempt ref) p) (\<lambda>duplicate.
        if duplicate then tret (\<lparr>Exceeded = False, NewlyExceeded = False\<rparr>, True)
        else tbind (chargeAttemptOutput (ref_attempt ref) bytes) (\<lambda>charge. tret (charge, False))))"

definition chargeSafeAdapterProjection :: "(string \<Rightarrow> string) \<Rightarrow> AttemptRef \<Rightarrow> adapterProjection \<Rightarrow> SafeContent \<Rightarrow> (outputCharge \<times> bool) dbtx" where
  "chargeSafeAdapterProjection H ref p content = chargeAdapterProjection H ref p (inline_bytes content)"

definition validateSafeContentReference :: "AttemptRef \<Rightarrow> SafeContent \<Rightarrow> string \<Rightarrow> bool \<Rightarrow> unit dbtx" where
  "validateSafeContentReference ref content expectedCallID bindCall = (if Kind content \<noteq> ''artifact'' then tret ()
     else tbind (tfind (\<lambda>_. SizeBytes content) (Internal ''artifact safe content is missing size'')) (\<lambda>size.
       tbind (tfind (\<lambda>t. find (\<lambda>f. artifact_id f = ArtifactID content \<and> f_dialog_id f = ref_dialog ref \<and>
          f_attempt_id f = ref_attempt ref) (artifacts t)) NoRows) (\<lambda>f.
       tguard (f_size_bytes f = size \<and> f_sha256 f = SHA256 content \<and> f_redaction f = Redaction content \<and>
          f_truncated f = Truncated content \<and> (f_disposition f = ''inline'' \<or> f_disposition f = ''attachment'') \<and>
          (bindCall \<longrightarrow> (case f_call_id f of None \<Rightarrow> [] | Some c \<Rightarrow> c) = expectedCallID))
         (Internal ''artifact safe content binding mismatch''))))"

text \<open>
  The capture of safe text, which writes files and rows of \<open>artifacts\<close> only, and the comparison
  of a replayed event with the stored text. \<open>None\<close> is a capture that fails.
\<close>

record safe_text =
  replay_matches :: bool
  capture :: "(artifact_row list \<Rightarrow> artifact_row list) option"

definition validateAdapterEventSafeTextReplay :: "safe_text \<Rightarrow> Event \<Rightarrow> unit dbtx" where
  "validateAdapterEventSafeTextReplay x ev = tguard (has_safe_text ev \<longrightarrow> replay_matches x) (Internal ''safe text replay'')"

definition captureAdapterEventSafeText :: "safe_text \<Rightarrow> bool \<Rightarrow> Event \<Rightarrow> unit dbtx" where
  "captureAdapterEventSafeText x published ev = (if \<not> has_safe_text ev then tret ()
     else tseq (tguard published (Internal ''safe text publication is unavailable''))
       (case capture x of None \<Rightarrow> tfail (Internal ''safe text capture'') | Some f \<Rightarrow> change_artifacts f))"

section \<open>The archive of late and suppressed events\<close>

definition last_assistant :: "string \<Rightarrow> txn \<Rightarrow> message_row option" where
  "last_assistant i t = min_row (\<lambda>m. - m_sequence m)
     (filter (\<lambda>m. m_attempt_id m = Some i \<and> m_role m = RoleAssistant) (messages t))"

fun prepareLateProjection :: "AttemptRef \<Rightarrow> Event \<Rightarrow> int \<Rightarrow> adapterProjection option" where
  "prepareLateProjection ref StartedEvent v = (let p = AttemptStartedPayload (ref_request ref) (ref_generation ref) in
     Some (projection ''attempt.started'' (ref_attempt ref) v p (Some p) ''archive:started''))"
| "prepareLateProjection ref (WaitingEvent kind) v = (let p = AttemptWaitingPayload (ref_request ref) (ref_generation ref) kind in
     Some (projection ''attempt.waiting_input'' (ref_attempt ref) v p (Some p) (''archive:waiting:'' @ decimal_text v)))"
| "prepareLateProjection ref (AssistantDeltaEvent message idx content) v = (let p = AssistantDeltaPayload message idx content in
     Some (projection ''assistant.delta'' message (idx + 1) p (Some p) (''archive:assistant.delta:'' @ message @ '':'' @ decimal_text idx)))"
| "prepareLateProjection ref (AssistantMessageEvent message content finish) v = (let p = AssistantMessagePayload message content finish in
     Some (projection ''assistant.message'' message 1 p (Some p) (''archive:assistant.message:'' @ message)))"
| "prepareLateProjection ref (ToolStartedEvent call name hash input) v = (let p = ToolStartedPayload call name hash input in
     Some (projection ''tool.started'' call 1 p (Some p) (''archive:tool.started:'' @ call)))"
| "prepareLateProjection ref (ToolOutputEvent call idx stream output) v = (let p = ToolOutputPayload call idx stream output in
     Some (projection ''tool.output'' call (idx + 1) p (Some p) (''archive:tool.output:'' @ call @ '':'' @ decimal_text idx)))"
| "prepareLateProjection ref (ToolCompletedEvent call status result effect eref) v =
     (let p = ToolCompletedPayload call status result effect eref in
     Some (projection ''tool.completed'' call 1 p (Some p) (''archive:tool.completed:'' @ call)))"
| "prepareLateProjection ref (ApprovalRequestedEvent approval call hash prompt) v =
     (let p = ApprovalRequestedPayload approval call hash prompt 1 in
     Some (projection ''approval.requested'' approval 1 p (Some p) (''archive:approval.requested:'' @ approval)))"
| "prepareLateProjection ref (InputRequestedEvent input prompt) v = (let p = InputRequestedPayload input prompt 1 in
     Some (projection ''input.requested'' input 1 p (Some p) (''archive:input.requested:'' @ input)))"
| "prepareLateProjection ref (TerminalEvent outcome output usage failure effect) v =
     (let effectStatus = (if effect = [] then ''none'' else effect);
          identity = Some (archivedTerminalIdentity outcome output usage failure effectStatus) in
      case outcome of
        ReconcileCompleted \<Rightarrow> Some (projection ''attempt.completed'' (ref_attempt ref) v
          (AttemptCompletedPayload (ref_generation ref) ''empty'' [] usage) identity ''archive:terminal'')
      | ReconcileFailed \<Rightarrow> map_option (\<lambda>f. projection ''attempt.failed'' (ref_attempt ref) v
          (AttemptFailedPayload (ref_generation ref) (failure_text (Class f)) (Code f) (SafeMessage f) (Retryable f) effectStatus)
          identity ''archive:terminal'') failure
      | ReconcileInterrupted \<Rightarrow> Some (projection ''attempt.interrupted'' (ref_attempt ref) v
          (AttemptInterruptedPayload (ref_generation ref) ''provider_interrupt'' effectStatus) identity ''archive:terminal'')
      | _ \<Rightarrow> None)"
| "prepareLateProjection ref (UnknownEvent reason effect) v = (let p = AttemptUnknownPayload (ref_generation ref) reason effect in
     Some (projection ''attempt.unknown'' (ref_attempt ref) v p (Some p) ''archive:unknown''))"

fun event_content :: "Event \<Rightarrow> (SafeContent \<times> string \<times> bool) option" where
  "event_content (AssistantDeltaEvent _ _ content) = Some (content, [], False)"
| "event_content (AssistantMessageEvent _ content _) = Some (content, [], False)"
| "event_content (ToolStartedEvent call _ _ input) = Some (input, call, True)"
| "event_content (ToolOutputEvent call _ _ output) = Some (output, call, True)"
| "event_content (ToolCompletedEvent call _ result _ _) = Some (result, call, True)"
| "event_content (InputRequestedEvent _ prompt) = Some (prompt, [], False)"
| "event_content (TerminalEvent _ output _ _ _) = map_option (\<lambda>c. (c, [], False)) output"
| "event_content _ = None"

definition validateAdapterEventSafeContent :: "AttemptRef \<Rightarrow> Event \<Rightarrow> unit dbtx" where
  "validateAdapterEventSafeContent ref ev = (case event_content ev of None \<Rightarrow> tret ()
     | Some (content, call, bindCall) \<Rightarrow> if Kind content = [] then tret () else validateSafeContentReference ref content call bindCall)"

text \<open>\<open>SELECT ... FROM tool_calls WHERE call_id=? AND attempt_id=?\<close>\<close>

definition attempt_call :: "string \<Rightarrow> string \<Rightarrow> txn \<Rightarrow> tool_call_row option" where
  "attempt_call call i t = find (\<lambda>c. call_id c = call \<and> t_attempt_id c = i) (tool_calls t)"

definition known_terminal_effect :: "string \<Rightarrow> bool" where
  "known_terminal_effect e \<longleftrightarrow> e = ''none'' \<or> e = ''known'' \<or> e = ''unknown''"

definition validateArchivedAdapterEvent :: "AttemptRef \<Rightarrow> Event \<Rightarrow> adapterProjection \<Rightarrow> unit dbtx" where
  "validateArchivedAdapterEvent ref ev p =
     tseq (validateAdapterEventSafeContent ref ev)
     (tseq (case ev of
        ToolOutputEvent call _ _ _ \<Rightarrow> tbind (tfind (attempt_call call (ref_attempt ref)) NoRows) (\<lambda>_. tret ())
      | ToolCompletedEvent call _ _ _ _ \<Rightarrow> tbind (tfind (attempt_call call (ref_attempt ref)) NoRows) (\<lambda>_. tret ())
      | ApprovalRequestedEvent _ call hash _ \<Rightarrow> tbind (tfind (attempt_call call (ref_attempt ref)) NoRows) (\<lambda>c.
          tguard (t_action_hash c = hash) (Internal ''archived approval action hash mismatch''))
      | TerminalEvent _ _ _ _ effect \<Rightarrow> tguard (known_terminal_effect effect) (Internal ''archived terminal effect status is invalid'')
      | _ \<Rightarrow> tret ())
      (validateAdapterProjectionEnvelope ref p))"

definition activeTerminalProjectionDigest :: "(string \<Rightarrow> string) \<Rightarrow> string \<Rightarrow> adapterProjection \<Rightarrow> string dbtx" where
  "activeTerminalProjectionDigest H i p = (let expected = (case hashPayload p of
          Some (archivedTerminalIdentity _ output _ _ _) \<Rightarrow> output | _ \<Rightarrow> None);
        compatible = p\<lparr>hashPayload := None\<rparr> in
     case pr_payload p of
       AttemptCompletedPayload generation kind message usage \<Rightarrow> tbind (tgets (last_assistant i)) (\<lambda>m. case m of
           Some row \<Rightarrow>
             if (case expected of None \<Rightarrow> False | Some out \<Rightarrow> (case m_content row of None \<Rightarrow> True
                   | Some stored \<Rightarrow> \<not> safeContentEqual H stored out)) then tret []
             else tret (adapterProjectionDigest H (compatible\<lparr>pr_payload := AttemptCompletedPayload generation ''message'' (message_id row) usage\<rparr>))
         | None \<Rightarrow> if expected \<noteq> None then tret [] else tret (adapterProjectionDigest H compatible))
     | _ \<Rightarrow> tret (adapterProjectionDigest H compatible))"

definition has_prefix :: "string \<Rightarrow> string \<Rightarrow> bool" where
  "has_prefix s p \<longleftrightarrow> take (length p) s = p"

text \<open>The key the active projection of the same event has, and whether it is the terminal one.\<close>

definition active_key :: "string \<Rightarrow> string \<times> bool" where
  "active_key k = (let a = (if has_prefix k ''archive:'' then drop 8 k else k) in
     if has_prefix a ''terminal:'' then (''terminal'', True)
     else if a = ''unknown'' then ([], False) else (a, a = ''terminal''))"

definition stored_late :: "string \<Rightarrow> string \<Rightarrow> string option dbtx" where
  "stored_late i k = tbind (tgets (\<lambda>t. find (\<lambda>l. l_attempt_id l = i \<and> l_projection_key l = Some k) (late_observations t))) (\<lambda>x.
     case x of None \<Rightarrow> tret None | Some l \<Rightarrow> tbind (scan_text (l_projection_hash l)) (\<lambda>h. tret (Some h)))"

definition archived_conflict :: tx_error where
  "archived_conflict = Internal ''conflicting duplicate archived adapter event''"

text \<open>The comparison with the active projection of the same event: \<open>True\<close> ends the search.\<close>

definition active_duplicate :: "(string \<Rightarrow> string) \<Rightarrow> string \<Rightarrow> adapterProjection \<Rightarrow> bool dbtx" where
  "active_duplicate H i p = (let (activeKey, terminal) = active_key (pr_key p); want = adapterProjectionDigest H p in
     if activeKey = [] then tret False
     else tbind (stored_projection i activeKey) (\<lambda>stored. case stored of None \<Rightarrow> tret False
       | Some h \<Rightarrow> if terminal then tbind (activeTerminalProjectionDigest H i p) (\<lambda>compatible. tret (h = compatible))
           else tseq (tguard (h = want \<or> has_prefix activeKey ''waiting:'') archived_conflict) (tret False)))"

definition archivedProjectionExists :: "(string \<Rightarrow> string) \<Rightarrow> string \<Rightarrow> adapterProjection \<Rightarrow> bool dbtx" where
  "archivedProjectionExists H i p = (let want = adapterProjectionDigest H p in
     tbind (tgets (\<lambda>t. exists_row (\<lambda>e. e_attempt_id e = Some i \<and> e_projection_hash e = Some want \<and> e_projection_key e \<noteq> None) (events t))) (\<lambda>exact.
     if exact then tret True
     else tbind (active_duplicate H i p) (\<lambda>found. if found then tret True
     else tbind (stored_projection i (pr_key p)) (\<lambda>stored. case stored of
         Some h \<Rightarrow> tseq (tguard (h = want) archived_conflict) (tret True)
       | None \<Rightarrow> tbind (stored_late i (pr_key p)) (\<lambda>late. case late of
           Some h \<Rightarrow> tseq (tguard (h = want) archived_conflict) (tret True)
         | None \<Rightarrow> tret False)))))"

fun archivedAdapterOutputBytes :: "Event \<Rightarrow> int" where
  "archivedAdapterOutputBytes (ApprovalRequestedEvent _ _ _ prompt) = int (length prompt)"
| "archivedAdapterOutputBytes (TerminalEvent _ output _ failure _) =
     (case failure of None \<Rightarrow> 0 | Some f \<Rightarrow> int (length (SafeMessage f))) +
     (case output of None \<Rightarrow> 0 | Some c \<Rightarrow> inline_bytes c)"
| "archivedAdapterOutputBytes ev = (case event_content ev of None \<Rightarrow> 0 | Some (c, _, _) \<Rightarrow> inline_bytes c)"

definition archivedOutputLimitProjection :: "adapterProjection \<Rightarrow> adapterProjection dbtx" where
  "archivedOutputLimitProjection p = (case pr_payload p of
       AssistantDeltaPayload message idx _ \<Rightarrow> tret (p\<lparr>pr_payload := AssistantDeltaPayload message idx outputLimitContent\<rparr>)
     | AssistantMessagePayload message _ finish \<Rightarrow> tret (p\<lparr>pr_payload := AssistantMessagePayload message outputLimitContent finish\<rparr>)
     | ToolStartedPayload call name hash _ \<Rightarrow> tret (p\<lparr>pr_payload := ToolStartedPayload call name hash outputLimitContent\<rparr>)
     | ToolOutputPayload call idx stream _ \<Rightarrow> tret (p\<lparr>pr_payload := ToolOutputPayload call idx stream outputLimitContent\<rparr>)
     | ToolCompletedPayload call status _ effect ref \<Rightarrow> tret (p\<lparr>pr_payload := ToolCompletedPayload call status outputLimitContent effect ref\<rparr>)
     | InputRequestedPayload input _ version \<Rightarrow> tret (p\<lparr>pr_payload := InputRequestedPayload input outputLimitContent version\<rparr>)
     | _ \<Rightarrow> tbind newID (\<lambda>messageID. tret (p\<lparr>eventType := ''assistant.message'', entityID := messageID, entityVersion := 1,
         pr_payload := AssistantMessagePayload messageID outputLimitContent ''length''\<rparr>)))"

text \<open>The durable row of an archived event; only a late event, not a suppressed one, enters the log.\<close>

definition archive_event :: "(string \<Rightarrow> string) \<Rightarrow> AttemptRef \<Rightarrow> adapterProjection \<Rightarrow> adapterProjection \<Rightarrow> unit dbtx" where
  "archive_event H ref p archived =
     tseq (appendEvent (eventType archived) (entityID archived) (entityVersion archived) (ref_attempt ref) (ref_dialog ref)
        (json_payload (pr_payload archived)) True)
     (tbind (tgets (\<lambda>t. LastEventSeq (st t))) (\<lambda>seq. recordAdapterProjection H seq (ref_attempt ref) p))"

definition archive_kind :: "adapterProjection \<Rightarrow> bool \<Rightarrow> string \<Rightarrow> string" where
  "archive_kind p suppressed kindOverride = (if kindOverride \<noteq> [] then kindOverride
     else if suppressed then ''suppressed.'' @ eventType p else eventType p)"

definition archive_row :: "(string \<Rightarrow> string) \<Rightarrow> AttemptRef \<Rightarrow> adapterProjection \<Rightarrow> string \<Rightarrow> int \<Rightarrow> unit dbtx" where
  "archive_row H ref p kind ledgerBytes = tbind (tgets id) (\<lambda>t. insert_late \<lparr>l_attempt_id = ref_attempt ref,
     l_generation = ref_generation ref, l_kind = kind, l_event_seq = LastEventSeq (st t), l_observed_at = now t,
     l_projection_key = Some (pr_key p), l_projection_hash = Some (adapterProjectionDigest H p), l_output_bytes = ledgerBytes\<rparr>)"

definition archiveAdapterEvent :: "(string \<Rightarrow> string) \<Rightarrow> safe_text \<Rightarrow> bool \<Rightarrow> AttemptRef \<Rightarrow> Event \<Rightarrow> int \<Rightarrow> bool \<Rightarrow> string \<Rightarrow> unit dbtx" where
  "archiveAdapterEvent H x published ref ev v suppressed kindOverride =
     tbind (tfind (\<lambda>_. prepareLateProjection ref ev v) (Internal ''unsupported late adapter event'')) (\<lambda>p.
     tseq (validateArchivedAdapterEvent ref ev p)
     (tbind (archivedProjectionExists H (ref_attempt ref) p) (\<lambda>duplicate.
       if duplicate then validateAdapterEventSafeTextReplay x ev
       else tseq (captureAdapterEventSafeText x published ev)
       (tbind (chargeArchivedAttemptOutput (ref_attempt ref) (archivedAdapterOutputBytes ev)) (\<lambda>(charge, ledgerBytes).
         if Exceeded charge \<and> \<not> NewlyExceeded charge then tret ()
         else tbind (if NewlyExceeded charge then tbind (archivedOutputLimitProjection p) (\<lambda>q.
               tseq (validateAdapterProjectionEnvelope ref q) (tret q)) else tret p) (\<lambda>archived.
           tseq (if suppressed then tret () else archive_event H ref p archived)
           (tseq (archive_row H ref p (archive_kind p suppressed kindOverride) ledgerBytes)
             (if NewlyExceeded charge then scheduleOutputLimitStop ref else tret ()))))))))"

section \<open>Terminal events\<close>

definition output_mismatch :: tx_error where
  "output_mismatch = Internal ''terminal output does not match assistant message''"

text \<open>The \<open>output\<close> of a completed attempt: its last assistant message, checked against the event.\<close>

definition terminal_output :: "(string \<Rightarrow> string) \<Rightarrow> string \<Rightarrow> SafeContent option \<Rightarrow> (string \<times> string) dbtx" where
  "terminal_output H i output = tbind (tgets (last_assistant i)) (\<lambda>m. case m of
     Some row \<Rightarrow> (case output of None \<Rightarrow> tret (''message'', message_id row)
       | Some out \<Rightarrow> tbind (tfind (\<lambda>_. m_content row) output_mismatch) (\<lambda>stored.
           tbind (if safeContentEqual H stored outputLimitContent then attemptOutputExceeded i else tret False) (\<lambda>limited.
           tseq (tguard (limited \<or> safeContentEqual H stored out) output_mismatch) (tret (''message'', message_id row)))))
   | None \<Rightarrow> (case output of None \<Rightarrow> tret (''empty'', [])
       | Some out \<Rightarrow> tbind (attemptOutputExceeded i) (\<lambda>limited.
           tseq (tguard limited (Internal ''terminal output has no durable assistant message'')) (tret (''empty'', [])))))"

text \<open>Final state, event type and payload of a terminal event.\<close>

definition terminal_parts :: "(string \<Rightarrow> string) \<Rightarrow> AttemptRef \<Rightarrow> ReconcileOutcome \<Rightarrow> SafeContent option \<Rightarrow> Usage option \<Rightarrow>
    Failure option \<Rightarrow> string \<Rightarrow> ((attempt_state \<times> request_status) \<times> string \<times> payload) dbtx" where
  "terminal_parts H ref outcome output usage failure effect = (case outcome of
       ReconcileCompleted \<Rightarrow> tbind (terminal_output H (ref_attempt ref) output) (\<lambda>(kind, message).
         tret ((ACompleted, RCompleted), ''attempt.completed'', AttemptCompletedPayload (ref_generation ref) kind message usage))
     | ReconcileFailed \<Rightarrow> tbind (tfind (\<lambda>_. failure) (Internal ''failed terminal is missing failure'')) (\<lambda>f.
         tret ((AFailed, RFailed), ''attempt.failed'', AttemptFailedPayload (ref_generation ref) (failure_text (Class f)) (Code f)
           (SafeMessage f) (Retryable f) effect))
     | ReconcileInterrupted \<Rightarrow> tret ((AInterrupted, RInterrupted), ''attempt.interrupted'',
         AttemptInterruptedPayload (ref_generation ref) ''provider_interrupt'' effect)
     | _ \<Rightarrow> tfail (Internal ''adapter terminal outcome is not terminal''))"

definition failure_reason :: "Failure option \<Rightarrow> string list \<Rightarrow> string list" where
  "failure_reason failure reasons = (case failure of None \<Rightarrow> reasons | Some f \<Rightarrow> (case Class f of
       FailureNode \<Rightarrow> addReason reasons ''engine_unavailable''
     | FailurePolicy \<Rightarrow> addReason reasons ''policy_unavailable''
     | FailureProtocol \<Rightarrow> addReason reasons ''adapter_protocol''
     | _ \<Rightarrow> reasons))"

definition terminal_state :: "ReconcileOutcome \<Rightarrow> Failure option \<Rightarrow> durableState \<Rightarrow> durableState" where
  "terminal_state outcome failure s = (let cleared = removeReason (BlockedReasons s) ''execution_unknown'';
       reasons = (if outcome = ReconcileFailed then failure_reason failure cleared else cleared) in
     s\<lparr>ActiveAttemptID := None, Occupancy := ''idle'', BlockedReasons := reasons,
       EngineReadiness := (if reasons = [] then ''ready'' else ''blocked'')\<rparr>)"

text \<open>A control of the attempt that may still have an effect.\<close>

definition unresolved_controls :: "string \<Rightarrow> txn \<Rightarrow> bool" where
  "unresolved_controls i t = exists_row (\<lambda>k. k_attempt_id k = i \<and>
     k_kind k \<in> {ActionCommand CommandMessageSteer, ActionCommand CommandApprovalRespond, ActionCommand CommandInputRespond} \<and>
     k_status k \<in> {CPending, CInflight, CUnknown}) (control_actions t)"

definition finish_terminal :: "(string \<Rightarrow> string) \<Rightarrow> AttemptRef \<Rightarrow> int \<Rightarrow> ReconcileOutcome \<Rightarrow> Failure option \<Rightarrow> string \<Rightarrow>
    (attempt_state \<times> request_status) \<times> string \<times> payload \<Rightarrow> (adapterProjection option \<times> bool) dbtx" where
  "finish_terminal H ref v outcome failure effect parts = (case parts of (final, ty, body) \<Rightarrow>
     (let p = projection ty (ref_attempt ref) (v + 1) body None ''terminal'' in
      tbind (adapterProjectionExists H (ref_attempt ref) p) (\<lambda>duplicate.
        if duplicate then tret (None, True)
        else tseq (finish_rows ref final effect) (tseq (mod_state (terminal_state outcome failure)) (tret (Some p, True))))))"

definition prepareTerminalProjection :: "(string \<Rightarrow> string) \<Rightarrow> safe_text \<Rightarrow> AttemptRef \<Rightarrow> int \<Rightarrow> ReconcileOutcome \<Rightarrow> SafeContent option \<Rightarrow>
    Usage option \<Rightarrow> Failure option \<Rightarrow> string \<Rightarrow> (adapterProjection option \<times> bool) dbtx" where
  "prepareTerminalProjection H x ref v outcome output usage failure effect =
     tseq (tguard (known_terminal_effect effect) (Internal ''adapter terminal effect status is invalid''))
     (tbind (tgets (unresolved_controls (ref_attempt ref))) (\<lambda>unresolved.
       if unresolved \<or> effect = ''unknown'' then
         tseq (setAttemptUnknown ref ''provider_state'' ''unknown'')
         (tbind (tfind (\<lambda>t. lookup_row attempt_id (ref_attempt ref) (attempts t)) NoRows) (\<lambda>a.
          tseq (archiveAdapterEvent H x False ref (TerminalEvent outcome output usage failure effect) (a_version a) True
             ''terminal_while_steer_unresolved'')
            (tret (None, True))))
       else if outcome = ReconcileUnknown then tseq (setAttemptUnknown ref ''provider_state'' effect) (tret (None, True))
       else tbind (terminal_parts H ref outcome output usage failure effect)
         (finish_terminal H ref v outcome failure effect)))"

section \<open>Projecting an event of the active attempt\<close>

definition assistant_row :: "AttemptRef \<Rightarrow> string \<Rightarrow> SafeContent \<Rightarrow> string \<Rightarrow> durableState \<Rightarrow> string \<Rightarrow> message_row" where
  "assistant_row ref message content finish s at = \<lparr>message_id = message, m_dialog_id = ref_dialog ref,
     m_sequence = NextMessageSequence s, m_version = 1, m_role = RoleAssistant, m_text = None, m_content = Some content,
     m_disposition = None, m_command_id = None, m_request_id = None, m_attempt_id = Some (ref_attempt ref),
     m_finish_reason = Some finish, m_created_at = at\<rparr>"

definition insert_assistant :: "AttemptRef \<Rightarrow> string \<Rightarrow> SafeContent \<Rightarrow> string \<Rightarrow> unit dbtx" where
  "insert_assistant ref message content finish = tbind (tgets id) (\<lambda>t.
     tdo [insert_message (assistant_row ref message content finish (st t) (now t)),
       mod_state (\<lambda>s. s\<lparr>NextMessageSequence := NextMessageSequence s + 1\<rparr>)])"

text \<open>
  The common shape of a projection with content: charge it, drop a duplicate or an event past the
  limit, replace the content of the event that crosses the limit, and write its row.
\<close>

definition charged :: "(string \<Rightarrow> string) \<Rightarrow> AttemptRef \<Rightarrow> adapterProjection \<Rightarrow> (SafeContent \<Rightarrow> payload) \<Rightarrow> SafeContent \<Rightarrow>
    (SafeContent \<Rightarrow> bool \<Rightarrow> unit dbtx) \<Rightarrow> (adapterProjection option \<times> bool) dbtx" where
  "charged H ref p body content row = tbind (chargeSafeAdapterProjection H ref p content) (\<lambda>(charge, duplicate).
     if duplicate \<or> (Exceeded charge \<and> \<not> NewlyExceeded charge) then tret (None, False)
     else if Exceeded charge then tseq (row outputLimitContent True)
       (tret (Some (p\<lparr>pr_payload := body outputLimitContent, outputLimit := True\<rparr>), False))
     else tseq (row content False) (tret (Some p, False)))"

definition content_projection :: "string \<Rightarrow> string \<Rightarrow> int \<Rightarrow> payload \<Rightarrow> string \<Rightarrow> adapterProjection" where
  "content_projection ty ent ver body k = projection ty ent ver body (Some body) k"

definition prepare_waiting :: "AttemptRef \<Rightarrow> int \<Rightarrow> attempt_state \<Rightarrow> string \<Rightarrow> (adapterProjection option \<times> bool) dbtx" where
  "prepare_waiting ref v s kind =
     tseq (tguard (kind = ''approval'' \<or> kind = ''input'') (Internal ''adapter wait kind is invalid''))
     (if s = AWaitingInput then tret (None, False)
      else if s = ARunning then
        tseq (update_attempts (ref_attempt ref) (\<lambda>a. a\<lparr>a_version := a_version a + 1, a_state := AWaitingInput\<rparr>))
        (tret (Some (projection ''attempt.waiting_input'' (ref_attempt ref) (v + 1)
          (AttemptWaitingPayload (ref_request ref) (ref_generation ref) kind) None (''waiting:'' @ decimal_text (v + 1))), False))
      else tfail (Internal ''attempt cannot enter waiting_input''))"

definition prepare_approval :: "(string \<Rightarrow> string) \<Rightarrow> AttemptRef \<Rightarrow> int \<Rightarrow> attempt_state \<Rightarrow> string \<Rightarrow> string \<Rightarrow> string \<Rightarrow> string \<Rightarrow>
    (adapterProjection option \<times> bool) dbtx" where
  "prepare_approval H ref v s approval call hash prompt =
     tbind (tfind (attempt_call call (ref_attempt ref)) NoRows) (\<lambda>c.
     tseq (tguard (t_action_hash c = hash) (Internal ''approval action hash mismatch''))
     (let p = content_projection ''approval.requested'' approval 1 (ApprovalRequestedPayload approval call hash prompt 1)
            (''approval.requested:'' @ approval) in
      tbind (chargeAdapterProjection H ref p (int (length prompt))) (\<lambda>(charge, duplicate).
        if duplicate \<or> (Exceeded charge \<and> \<not> NewlyExceeded charge) then tret (None, False)
        else if Exceeded charge then tret (Some (p\<lparr>outputLimit := True, markerOnly := True\<rparr>), False)
        else tseq (insert_approval \<lparr>approval_id = approval, p_attempt_id = ref_attempt ref, p_call_id = call, p_action_hash = hash,
             p_version = 1, p_status = IPending, p_decision = None, p_actor_id = None\<rparr>)
          (tseq (transitionWaiting ref v s ''approval'') (tret (Some p, False))))))"

definition prepare_input :: "(string \<Rightarrow> string) \<Rightarrow> AttemptRef \<Rightarrow> int \<Rightarrow> attempt_state \<Rightarrow> string \<Rightarrow> SafeContent \<Rightarrow>
    (adapterProjection option \<times> bool) dbtx" where
  "prepare_input H ref v s input prompt =
     tseq (validateSafeContentReference ref prompt [] False)
     (charged H ref (content_projection ''input.requested'' input 1 (InputRequestedPayload input prompt 1) (''input.requested:'' @ input))
        (\<lambda>c. InputRequestedPayload input c 1) prompt
        (\<lambda>c exceeded. tseq (insert_input \<lparr>input_request_id = input, i_attempt_id = ref_attempt ref, i_version = 1, i_status = IPending,
             i_prompt = c, i_response_message_id = None\<rparr>)
           (if exceeded then tret () else transitionWaiting ref v s ''input'')))"

fun prepareProjection :: "(string \<Rightarrow> string) \<Rightarrow> safe_text \<Rightarrow> AttemptRef \<Rightarrow> int \<Rightarrow> attempt_state \<Rightarrow> Event \<Rightarrow> (adapterProjection option \<times> bool) dbtx" where
  "prepareProjection H x ref v s StartedEvent = tret (Some (projection ''attempt.started'' (ref_attempt ref) v
     (AttemptStartedPayload (ref_request ref) (ref_generation ref)) None ''started''), False)"
| "prepareProjection H x ref v s (WaitingEvent kind) = prepare_waiting ref v s kind"
| "prepareProjection H x ref v s (AssistantDeltaEvent message idx content) =
     tseq (validateSafeContentReference ref content [] False)
     (charged H ref (content_projection ''assistant.delta'' message (idx + 1) (AssistantDeltaPayload message idx content)
          (''assistant.delta:'' @ message @ '':'' @ decimal_text idx))
        (\<lambda>c. AssistantDeltaPayload message idx c) content (\<lambda>_ _. tret ()))"
| "prepareProjection H x ref v s (AssistantMessageEvent message content finish) =
     tseq (validateSafeContentReference ref content [] False)
     (charged H ref (content_projection ''assistant.message'' message 1 (AssistantMessagePayload message content finish)
          (''assistant.message:'' @ message))
        (\<lambda>c. AssistantMessagePayload message c finish) content (\<lambda>c _. insert_assistant ref message c finish))"
| "prepareProjection H x ref v s (ToolStartedEvent call name hash input) =
     tseq (validateSafeContentReference ref input call True)
     (charged H ref (content_projection ''tool.started'' call 1 (ToolStartedPayload call name hash input) (''tool.started:'' @ call))
        (\<lambda>c. ToolStartedPayload call name hash c) input
        (\<lambda>c _. insert_tool_call \<lparr>call_id = call, t_attempt_id = ref_attempt ref, t_action_hash = hash, t_version = 1,
           t_status = ''running'', t_safe_input = c, t_safe_result = None, t_effect_ref = None\<rparr>))"
| "prepareProjection H x ref v s (ToolOutputEvent call idx stream output) =
     tseq (validateSafeContentReference ref output call True)
     (tbind (tfind (attempt_call call (ref_attempt ref)) NoRows) (\<lambda>_.
      charged H ref (content_projection ''tool.output'' call (idx + 1) (ToolOutputPayload call idx stream output)
          (''tool.output:'' @ call @ '':'' @ decimal_text idx))
        (\<lambda>c. ToolOutputPayload call idx stream c) output (\<lambda>_ _. tret ())))"
| "prepareProjection H x ref v s (ToolCompletedEvent call status result effect eref) =
     tseq (validateSafeContentReference ref result call True)
     (tbind (tfind (attempt_call call (ref_attempt ref)) NoRows) (\<lambda>row.
      charged H ref (content_projection ''tool.completed'' call (t_version row + 1) (ToolCompletedPayload call status result effect eref)
          (''tool.completed:'' @ call))
        (\<lambda>c. ToolCompletedPayload call status c effect eref) result
        (\<lambda>c _. update_tool_calls call (\<lambda>t. t\<lparr>t_version := t_version t + 1, t_status := status, t_safe_result := Some c,
           t_effect_ref := nullText eref\<rparr>))))"
| "prepareProjection H x ref v s (ApprovalRequestedEvent approval call hash prompt) = prepare_approval H ref v s approval call hash prompt"
| "prepareProjection H x ref v s (InputRequestedEvent input prompt) = prepare_input H ref v s input prompt"
| "prepareProjection H x ref v s (TerminalEvent outcome output usage failure effect) =
     prepareTerminalProjection H x ref v outcome output usage failure effect"
| "prepareProjection H x ref v s (UnknownEvent reason effect) = tseq (setAttemptUnknown ref reason effect) (tret (None, True))"

text \<open>The visible marker of an event that crosses the limit and has no content to replace.\<close>

definition limit_marker :: "AttemptRef \<Rightarrow> bool \<Rightarrow> string dbtx" where
  "limit_marker ref late = tbind newID (\<lambda>messageID.
     tseq (tdo [insert_assistant ref messageID outputLimitContent ''length'',
       mod_state (\<lambda>s. s\<lparr>StateVersion := StateVersion s + 1\<rparr>)])
     (tseq (appendEvent ''assistant.message'' messageID 1 (ref_attempt ref) (ref_dialog ref)
        (json_AssistantMessage messageID outputLimitContent ''length'') late)
      (tret messageID)))"

definition appendAdapterOutputLimitMarker :: "(string \<Rightarrow> string) \<Rightarrow> AttemptRef \<Rightarrow> adapterProjection \<Rightarrow> unit dbtx" where
  "appendAdapterOutputLimitMarker H ref source = tseq (limit_marker ref False)
     (tbind (tgets (\<lambda>t. LastEventSeq (st t))) (\<lambda>seq. recordAdapterProjection H seq (ref_attempt ref) source))"

definition appendArtifactOutputLimitMarker :: "(string \<Rightarrow> string) \<Rightarrow> AttemptRef \<Rightarrow> int \<Rightarrow> unit dbtx" where
  "appendArtifactOutputLimitMarker H ref v = tbind (tgets (\<lambda>t. ActiveAttemptID (st t) \<noteq> Some (ref_attempt ref))) (\<lambda>late.
     tbind (limit_marker ref late) (\<lambda>messageID. tbind (tgets (\<lambda>t. LastEventSeq (st t))) (\<lambda>seq.
       recordAdapterProjection H seq (ref_attempt ref) (projection ''assistant.message'' messageID v
         (AssistantMessagePayload messageID outputLimitContent ''length'') None ''output_limit:artifact''))))"

definition append_projection :: "(string \<Rightarrow> string) \<Rightarrow> AttemptRef \<Rightarrow> adapterProjection \<Rightarrow> unit dbtx" where
  "append_projection H ref p =
     tseq (mod_state (\<lambda>s. s\<lparr>StateVersion := StateVersion s + 1\<rparr>))
     (tseq (appendEvent (eventType p) (entityID p) (entityVersion p) (ref_attempt ref) (ref_dialog ref) (json_payload (pr_payload p)) False)
     (tbind (tgets (\<lambda>t. LastEventSeq (st t))) (\<lambda>seq. recordAdapterProjection H seq (ref_attempt ref) p)))"

definition commit_projection :: "(string \<Rightarrow> string) \<Rightarrow> AttemptRef \<Rightarrow> adapterProjection \<Rightarrow> bool \<Rightarrow> (bool \<times> bool) dbtx" where
  "commit_projection H ref p terminal =
     (if markerOnly p then tseq (appendAdapterOutputLimitMarker H ref p) (tseq (scheduleOutputLimitStop ref) (tret (False, True)))
      else tseq (append_projection H ref p)
        (tseq (if outputLimit p then scheduleOutputLimitStop ref else tret ())
        (tseq (if terminal then appendNodeEvent else tret ()) (tret (terminal, outputLimit p)))))"

definition projectAdapterEvent :: "(string \<Rightarrow> string) \<Rightarrow> safe_text \<Rightarrow> AttemptRef \<Rightarrow> int \<Rightarrow> attempt_state \<Rightarrow> Event \<Rightarrow> (bool \<times> bool) dbtx" where
  "projectAdapterEvent H x ref v s ev =
     tseq (validateAdapterEventSafeTextReplay x ev)
     (tbind (prepareProjection H x ref v s ev) (\<lambda>(prepared, terminal). case prepared of None \<Rightarrow> tret (terminal, False)
      | Some p \<Rightarrow> tbind (adapterProjectionExists H (ref_attempt ref) p) (\<lambda>duplicate.
          if duplicate then tseq (validateAdapterEventSafeTextReplay x ev) (tret (terminal, False))
          else tseq (captureAdapterEventSafeText x True ev) (commit_projection H ref p terminal))))"

section \<open>The entry point\<close>

text \<open>What the caller does after the commit: cancel the attempt's stream, wake the action worker.\<close>

definition suppressed_event :: "(string \<Rightarrow> string) \<Rightarrow> safe_text \<Rightarrow> AttemptRef \<Rightarrow> Event \<Rightarrow> int \<Rightarrow> (bool \<times> bool) dbtx" where
  "suppressed_event H x ref ev v = tseq (archiveAdapterEvent H x False ref ev v True []) (tret (False, False))"

definition late_event :: "(string \<Rightarrow> string) \<Rightarrow> safe_text \<Rightarrow> AttemptRef \<Rightarrow> Event \<Rightarrow> int \<Rightarrow> (bool \<times> bool) dbtx" where
  "late_event H x ref ev v = tseq (archiveAdapterEvent H x True ref ev v False []) (tseq saveState (tret (False, False)))"

definition active_event :: "(string \<Rightarrow> string) \<Rightarrow> safe_text \<Rightarrow> AttemptRef \<Rightarrow> Event \<Rightarrow> int \<Rightarrow> attempt_state \<Rightarrow> (bool \<times> bool) dbtx" where
  "active_event H x ref ev v s = tbind (projectAdapterEvent H x ref v s ev) (\<lambda>(terminal, wake).
     tseq saveState (tbind (tgets st) (\<lambda>s'. tret (ActiveAttemptID s' \<noteq> Some (ref_attempt ref), terminal \<or> wake))))"

definition adapter_event_tx :: "(string \<Rightarrow> string) \<Rightarrow> safe_text \<Rightarrow> AttemptRef \<Rightarrow> Event \<Rightarrow> (bool \<times> bool) dbtx" where
  "adapter_event_tx H x expected ev = tbind (tfind (live_attempt (ref_attempt expected)) NoRows) (\<lambda>a. tbind (tgets st) (\<lambda>s.
     tseq (tguard (attempt_ref s a = expected) (Internal ''adapter event durable scope mismatch''))
     (if a_state a \<in> {AStopping, AUnknown} \<and> isInteractiveWaitEvent ev then suppressed_event H x expected ev (a_version a)
      else if ActiveAttemptID s \<noteq> Some (ref_attempt expected) \<or> \<not> is_active (a_state a) then late_event H x expected ev (a_version a)
      else active_event H x expected ev (a_version a) (a_state a))))"

definition ObserveAdapterEvent :: "(string \<Rightarrow> string) \<Rightarrow> io \<Rightarrow> safe_text \<Rightarrow> AttemptRef \<Rightarrow> AttemptRef \<Rightarrow> Event \<Rightarrow> database \<Rightarrow>
    (tx_error + (bool \<times> bool)) \<times> database" where
  "ObserveAdapterEvent H e x expected ref ev db = (if ref \<noteq> expected then (Inl (Internal ''adapter event attempt scope mismatch''), db)
     else if \<not> io_begin e then (Inl (Internal ''begin''), db)
     else run_tx (adapter_event_tx H x expected ev) (io_ids e) (io_now e) (io_before_commit e \<and> io_commit e) db)"

end
