(* ===== verification/Observe_Inv.thy ===== *)
theory Observe_Inv
  imports Observe
begin

text \<open>
  The invariants of adapter observation: every store invariant is kept by \<open>ObserveAdapterEvent\<close>,
  the execution slot included. The archive of late and suppressed events is described by one
  exact equation, from which follows all that such an event changes.
\<close>

lemmas observe_code [code] =
  stored_projection_def [unfolded exec_unfold]
  adapterProjectionExists_def [unfolded exec_unfold]
  recordAdapterProjection_def [unfolded exec_unfold]
  validateAdapterProjectionEnvelope_def [unfolded exec_unfold]
  chargeAdapterProjection_def [unfolded exec_unfold]
  validateSafeContentReference_def [unfolded exec_unfold]
  validateAdapterEventSafeTextReplay_def [unfolded exec_unfold]
  captureAdapterEventSafeText_def [unfolded exec_unfold]
  validateAdapterEventSafeContent_def [unfolded exec_unfold]
  validateArchivedAdapterEvent_def [unfolded exec_unfold]
  activeTerminalProjectionDigest_def [unfolded exec_unfold]
  stored_late_def [unfolded exec_unfold]
  active_duplicate_def [unfolded exec_unfold]
  archivedProjectionExists_def [unfolded exec_unfold]
  archivedOutputLimitProjection_def [unfolded exec_unfold]
  archive_event_def [unfolded exec_unfold]
  archive_row_def [unfolded exec_unfold]
  archiveAdapterEvent_def [unfolded exec_unfold]
  terminal_output_def [unfolded exec_unfold]
  terminal_parts_def [unfolded exec_unfold]
  finish_terminal_def [unfolded exec_unfold]
  prepareTerminalProjection_def [unfolded exec_unfold]
  insert_assistant_def [unfolded exec_unfold]
  charged_def [unfolded exec_unfold]
  prepare_waiting_def [unfolded exec_unfold]
  prepare_approval_def [unfolded exec_unfold]
  prepare_input_def [unfolded exec_unfold]
  limit_marker_def [unfolded exec_unfold]
  appendAdapterOutputLimitMarker_def [unfolded exec_unfold]
  append_projection_def [unfolded exec_unfold]
  commit_projection_def [unfolded exec_unfold]
  projectAdapterEvent_def [unfolded exec_unfold]
  suppressed_event_def [unfolded exec_unfold]
  late_event_def [unfolded exec_unfold]
  active_event_def [unfolded exec_unfold]
  adapter_event_tx_def [unfolded exec_unfold]

section \<open>Reads\<close>

text \<open>The lookups and validations change nothing at all, so they keep everything.\<close>

lemma keeps_payload_case [keeps]:
  "(\<And>g k m u. keeps I (f g k m u)) \<Longrightarrow> keeps I d \<Longrightarrow>
     keeps I (case p of AttemptCompletedPayload g k m u \<Rightarrow> f g k m u | _ \<Rightarrow> d)"
  by (cases p) simp_all

lemma reads_projection [keeps]: "keeps I (stored_projection i k)" "keeps I (stored_late i k)"
  unfolding stored_projection_def stored_late_def scan_text_def by (intro keeps)+

lemma reads_exists [keeps]: "keeps I (adapterProjectionExists H i p)"
  unfolding adapterProjectionExists_def by (intro keeps)

lemma reads_envelope [keeps]: "keeps I (validateAdapterProjectionEnvelope ref p)"
  unfolding validateAdapterProjectionEnvelope_def by (intro keeps)

lemma reads_reference [keeps]: "keeps I (validateSafeContentReference ref c call b)"
  unfolding validateSafeContentReference_def by (intro keeps)

lemma reads_replay [keeps]: "keeps I (validateAdapterEventSafeTextReplay x ev)"
  unfolding validateAdapterEventSafeTextReplay_def by (intro keeps)

lemma reads_content [keeps]: "keeps I (validateAdapterEventSafeContent ref ev)"
  unfolding validateAdapterEventSafeContent_def by (intro keeps)

lemma reads_archived_event [keeps]: "keeps I (validateArchivedAdapterEvent ref ev p)"
  unfolding validateArchivedAdapterEvent_def by (cases ev) (auto intro!: keeps)

lemma reads_terminal_digest [keeps]: "keeps I (activeTerminalProjectionDigest H i p)"
  unfolding activeTerminalProjectionDigest_def by (intro keeps)

lemma reads_active_duplicate [keeps]: "keeps I (active_duplicate H i p)"
  unfolding active_duplicate_def by (intro keeps)

lemma reads_archived [keeps]: "keeps I (archivedProjectionExists H i p)"
  unfolding archivedProjectionExists_def by (intro keeps)

lemma reads_exceeded [keeps]: "keeps I (attemptOutputExceeded i)"
  unfolding attemptOutputExceeded_def by (intro keeps)

lemma reads_archived_charge [keeps]: "keeps I (chargeArchivedAttemptOutput i n)"
  unfolding chargeArchivedAttemptOutput_def by (intro keeps)

lemma reads_terminal_output [keeps]: "keeps I (terminal_output H i out)"
  unfolding terminal_output_def by (intro keeps)

lemma reads_terminal_parts [keeps]: "keeps I (terminal_parts H ref oc out usage f effect)"
  unfolding terminal_parts_def by (cases oc) (auto intro!: keeps)

section \<open>Writes\<close>

context settled_frame
begin

lemma keep_record_projection: "keeps I (recordAdapterProjection H seq i p)"
  unfolding recordAdapterProjection_def by (intro keeps keep_all) (simp_all add: frame_defs)

lemma keep_charge_projection: "keeps I (chargeAdapterProjection H ref p n)"
  unfolding chargeAdapterProjection_def by (intro keeps keep_budget)

lemma keep_capture: "keeps I (captureAdapterEventSafeText x pub ev)"
  unfolding captureAdapterEventSafeText_def by (intro keeps keep_all)

lemma keep_limit_projection: "keeps I (archivedOutputLimitProjection p)"
  unfolding archivedOutputLimitProjection_def by (cases "pr_payload p") (auto intro!: keeps keep_all)

lemma keep_archive_event: "keeps I (archive_event H ref p q)"
  unfolding archive_event_def by (intro keeps keep_all keep_record_projection)

lemma keep_archive_row: "keeps I (archive_row H ref p k n)"
  unfolding archive_row_def by (intro keeps keep_all)

lemma keep_archive: "keeps I (archiveAdapterEvent H x pub ref ev v suppressed kind)"
  unfolding archiveAdapterEvent_def
  by (intro keeps keep_capture keep_limit_projection keep_archive_event keep_archive_row keep_schedule_stop)

lemma keep_insert_assistant: "keeps I (insert_assistant ref m c f)"
  unfolding insert_assistant_def by (intro keeps keep_all) (simp_all add: frame_defs)

lemma keep_limit_marker: "keeps I (limit_marker ref late)"
  unfolding limit_marker_def by (intro keeps keep_all keep_insert_assistant) (simp_all add: frame_defs)

lemma keep_adapter_marker: "keeps I (appendAdapterOutputLimitMarker H ref p)"
  unfolding appendAdapterOutputLimitMarker_def by (intro keeps keep_limit_marker keep_record_projection)

lemma keep_artifact_marker: "keeps I (appendArtifactOutputLimitMarker H ref v)"
  unfolding appendArtifactOutputLimitMarker_def by (intro keeps keep_limit_marker keep_record_projection)

lemma keep_append_projection: "keeps I (append_projection H ref p)"
  unfolding append_projection_def by (intro keeps keep_all keep_record_projection) (simp_all add: frame_defs)

lemma keep_commit_projection: "keeps I (commit_projection H ref p terminal)"
  unfolding commit_projection_def by (intro keeps keep_all keep_append_projection keep_adapter_marker keep_schedule_stop)

lemma keep_charged: "(\<And>c b. keeps I (row c b)) \<Longrightarrow> keeps I (charged H ref p body content row)"
  unfolding charged_def chargeSafeAdapterProjection_def by (intro keeps keep_charge_projection)

end

text \<open>Which events end the attempt or lose track of it.\<close>

fun ends_attempt :: "Event \<Rightarrow> bool" where
  "ends_attempt (TerminalEvent _ _ _ _ _) = True"
| "ends_attempt (UnknownEvent _ _) = True"
| "ends_attempt _ = False"

text \<open>
  An invariant that also survives the two transitions to waiting survives every projection of an
  event that does not end the attempt.
\<close>

locale waiting_frame = settled_frame +
  fixes ref :: AttemptRef
  assumes keep_transition: "keeps I (transitionWaiting ref v s k)"
    and keep_wait: "keeps I (prepare_waiting ref v s kind)"
begin

lemma keep_approval_projection: "keeps I (prepare_approval H ref v s approval call hash prompt)"
  unfolding prepare_approval_def by (intro keeps keep_all keep_charge_projection keep_transition)

lemma keep_input_projection: "keeps I (prepare_input H ref v s input prompt)"
  unfolding prepare_input_def by (intro keeps keep_all keep_charged keep_transition)

lemma keep_projection:
  assumes "\<not> ends_attempt ev"
  shows "keeps I (prepareProjection H x ref v s ev)"
  using assms
  by (cases ev) (auto intro!: keeps keep_all keep_charged keep_insert_assistant keep_wait keep_approval_projection
      keep_input_projection simp: frame_defs)

end

lemma terminal_parts_inactive:
  "wp (terminal_parts H ref oc out usage f effect) (\<lambda>parts t'. \<not> is_active (fst (fst parts))) t"
  unfolding terminal_parts_def
  by (cases oc) (simp_all add: wp split_beta, rule wp_mono [OF wp_True], simp add: wp)

context slot_mover
begin

lemma keep_wait_any: "keeps I (prepare_waiting ref v s kind)"
  unfolding prepare_waiting_def by (intro keeps keep_moves) (simp_all add: frame_defs)

lemma keep_finish_terminal: "\<not> is_active (fst (fst parts)) \<Longrightarrow> keeps I (finish_terminal H ref v oc f effect parts)"
  unfolding finish_terminal_def
  by (cases parts) (auto intro!: keeps keep_finish_rows keep_slot simp: state_update_ok_def terminal_state_def Let_def)

lemma keep_terminal_projection: "keeps I (prepareTerminalProjection H x ref v oc out usage f effect)"
proof -
  have "keeps I (tbind (terminal_parts H ref oc out usage f effect) (finish_terminal H ref v oc f effect))"
    by (rule keeps_tbind_result [OF reads_terminal_parts terminal_parts_inactive keep_finish_terminal])
  note fin = this
  show ?thesis
    unfolding prepareTerminalProjection_def by (intro fin keeps_tbind keeps_if keeps_tseq keeps keep_set_unknown keep_archive)
qed

end

sublocale slot_mover \<subseteq> waiting_frame I ref for ref
  by unfold_locales (rule keep_waiting_any keep_wait_any)+

context slot_mover
begin

lemma keep_prepare: "keeps I (prepareProjection H x ref v s ev)"
proof (cases "ends_attempt ev")
  case False
  then show ?thesis by (rule keep_projection)
next
  case True
  then show ?thesis
    by (cases ev) (auto intro!: keeps keep_terminal_projection keep_set_unknown)
qed

lemma keep_project: "keeps I (projectAdapterEvent H x ref v s ev)"
  unfolding projectAdapterEvent_def by (intro keeps keep_prepare keep_capture keep_commit_projection)

lemma keep_adapter_event: "keeps I (adapter_event_tx H x ref ev)"
  unfolding adapter_event_tx_def suppressed_event_def late_event_def active_event_def
  by (intro keeps keep_archive keep_project keep_all)

end

section \<open>The slot\<close>

lemma holder_change:
  "attempt_update_ok f \<Longrightarrow> (\<And>x. is_active (a_state (f x))) \<Longrightarrow> keeps (holds_slot i) (update_attempts i f)"
  unfolding keeps_def by (blast elim: active_ids_holder intro: occupied.keep_active_change)

interpretation holder_waits: waiting_frame "holds_slot (ref_attempt ref)" ref for ref
proof unfold_locales
  show "keeps (holds_slot (ref_attempt ref)) (transitionWaiting ref v s k)" for v s k
    unfolding transitionWaiting_def by (intro keeps occupied.keep_all holder_change) (simp_all add: frame_defs)
  show "keeps (holds_slot (ref_attempt ref)) (prepare_waiting ref v s kind)" for v s kind
    unfolding prepare_waiting_def by (intro keeps holder_change) (simp_all add: frame_defs)
qed

lemma holds_slot_keys: "holds_slot i t \<Longrightarrow> slot_keys t"
  by (simp add: holds_slot_def)

lemma slot_finish_terminal:
  assumes "holds_slot (ref_attempt ref) t" and "\<not> is_active (fst (fst parts))"
  shows "wp (finish_terminal H ref v oc f effect parts) (\<lambda>_. slot_keys) t"
proof -
  obtain final ty body where p: "parts = (final, ty, body)" by (cases parts) auto
  have r: "\<And>t'. active_ids (attempts t') = [] \<and> primary_keys t' \<Longrightarrow>
      wp (tseq (mod_state (terminal_state oc f)) (tret x)) (\<lambda>_. slot_keys) t'" for x :: "adapterProjection option \<times> bool"
    by (intro wp_then keeps release_slot) (simp_all add: terminal_state_def Let_def)
  have fin: "wp (tseq (finish_rows ref final effect) (tseq (mod_state (terminal_state oc f)) (tret x))) (\<lambda>_. slot_keys) t'"
    if "holds_slot (ref_attempt ref) t'" for t' and x :: "adapterProjection option \<times> bool"
    using assms(2) p by (intro wp_seq_step [OF finish_rows_slot [OF that]] r) simp_all
  show ?thesis
    unfolding finish_terminal_def p Let_def prod.case wp_tbind
    by (rule wp_mono [OF keepsD [where I = "holds_slot (ref_attempt ref)", OF reads_exists assms(1)]])
       (use fin in \<open>auto simp: wp_tret holds_slot_keys\<close>)
qed

lemma slot_terminal:
  assumes "holds_slot (ref_attempt ref) t"
  shows "wp (prepareTerminalProjection H x ref v oc out usage f effect) (\<lambda>_. slot_keys) t"
proof -
  note unknown = wp_mono [OF slot_set_unknown [OF assms] holds_slot_keys]
  have fin: "wp (tbind (terminal_parts H ref oc out usage f effect) (finish_terminal H ref v oc f effect)) (\<lambda>_. slot_keys) t"
    unfolding wp_tbind
    by (rule wp_mono [OF wp_conj [THEN iffD2, OF conjI, OF keepsD [where I = "holds_slot (ref_attempt ref)", OF reads_terminal_parts assms] terminal_parts_inactive]])
       (auto intro: slot_finish_terminal)
  show ?thesis
    unfolding prepareTerminalProjection_def
    by (intro wp_front wp_if [THEN iffD2] if_bool_eq_conj [THEN iffD2] conjI impI wp_then unknown keeps exec_slot.keep_archive fin)
qed

lemma slot_prepare:
  assumes "holds_slot (ref_attempt ref) t"
  shows "wp (prepareProjection H x ref v s ev) (\<lambda>_. slot_keys) t"
proof (cases "ends_attempt ev")
  case False
  show ?thesis
    using wp_mono [OF keepsD [OF holder_waits.keep_projection [OF False] assms] holds_slot_keys] .
next
  case True
  note unknown = wp_mono [OF slot_set_unknown [OF assms] holds_slot_keys]
  from True show ?thesis
    by (cases ev) (auto intro!: slot_terminal [OF assms] wp_then unknown keeps)
qed

lemma holder_project:
  "\<not> ends_attempt ev \<Longrightarrow> keeps (holds_slot (ref_attempt ref)) (projectAdapterEvent H x ref v s ev)"
  unfolding projectAdapterEvent_def
  by (intro keeps holder_waits.keep_projection occupied.keep_capture occupied.keep_commit_projection)

lemma slot_project:
  assumes "holds_slot (ref_attempt ref) t"
  shows "wp (projectAdapterEvent H x ref v s ev) (\<lambda>_. slot_keys) t"
  unfolding projectAdapterEvent_def validateAdapterEventSafeTextReplay_def [of x ev]
  by (intro wp_front wp_then_bind slot_prepare [OF assms] keeps exec_slot.keep_capture exec_slot.keep_commit_projection)

lemma keep_slot_adapter_event: "keeps slot_keys (adapter_event_tx H x ref ev)"
proof (rule keepsI)
  fix t
  assume t: "slot_keys t"
  show "wp (adapter_event_tx H x ref ev) (\<lambda>_. slot_keys) t"
    unfolding adapter_event_tx_def suppressed_event_def late_event_def active_event_def
    by (intro wp_front wp_if [THEN iffD2] if_bool_eq_conj [THEN iffD2] conjI impI wp_then wp_then_bind keeps
        exec_slot.keep_save keepsD [OF exec_slot.keep_archive t] slot_project) (auto simp: t holds_slot_def)
qed

section \<open>Late and suppressed events\<close>

text \<open>The stop of an exceeded budget does nothing for an attempt that does not run in the slot.\<close>

definition not_running :: "AttemptRef \<Rightarrow> txn \<Rightarrow> bool" where
  "not_running ref t \<longleftrightarrow> ActiveAttemptID (st t) \<noteq> Some (ref_attempt ref) \<or>
     (\<forall>a. lookup_row attempt_id (ref_attempt ref) (attempts t) = Some a \<longrightarrow> a_state a \<noteq> ARunning \<and> a_state a \<noteq> AWaitingInput)"

lemma not_running_fields:
  "ActiveAttemptID (st t') = ActiveAttemptID (st t) \<Longrightarrow> attempts t' = attempts t \<Longrightarrow> not_running ref t \<Longrightarrow> not_running ref t'"
  by (simp add: not_running_def)

lemma wp_schedule_quiet: "not_running ref t \<Longrightarrow> wp (scheduleOutputLimitStop ref) (\<lambda>_ t'. t' = t) t"
  by (auto simp: scheduleOutputLimitStop_def not_running_def wp)

text \<open>A suppressed event leaves even the log alone: it adds a row to the archive and nothing else.\<close>

definition quiet_part :: "txn \<Rightarrow> txn" where
  "quiet_part t = t\<lparr>late_observations := [], idsrc := []\<rparr>"

named_theorems quiet

lemma quiet_statements [quiet]: "keeps (\<lambda>t. quiet_part t = d) newID" "keeps (\<lambda>t. quiet_part t = d) (insert_late l)"
  by (auto simp: keeps_def wp insert_late_def quiet_part_def)

lemma quiet_limit [quiet]: "keeps (\<lambda>t. quiet_part t = d) (archivedOutputLimitProjection p)"
  unfolding archivedOutputLimitProjection_def by (cases "pr_payload p") (auto intro!: keeps quiet)

lemma quiet_archive_row [quiet]: "keeps (\<lambda>t. quiet_part t = d) (archive_row H ref p k n)"
  unfolding archive_row_def by (intro keeps quiet)

lemma quiet_schedule [quiet]:
  assumes "not_running ref d"
  shows "keeps (\<lambda>t. quiet_part t = d) (scheduleOutputLimitStop ref)"
proof (rule keepsI)
  fix t
  assume d: "quiet_part t = d"
  then have "not_running ref t" using assms by (auto simp: not_running_def quiet_part_def)
  with d show "wp (scheduleOutputLimitStop ref) (\<lambda>_ t. quiet_part t = d) t"
    by (auto simp: scheduleOutputLimitStop_def not_running_def wp)
qed

lemma quiet_capture [quiet]: "\<not> has_safe_text ev \<Longrightarrow> keeps (\<lambda>t. quiet_part t = d) (captureAdapterEventSafeText x pub ev)"
  unfolding captureAdapterEventSafeText_def by (simp add: keeps)

lemma quiet_archive:
  assumes "not_running ref d" and "\<not> has_safe_text ev"
  shows "keeps (\<lambda>t. quiet_part t = d) (archiveAdapterEvent H x pub ref ev v True kind)"
  unfolding archiveAdapterEvent_def if_True using assms by (intro keeps quiet)

lemma interactive_no_text: "isInteractiveWaitEvent ev \<Longrightarrow> \<not> has_safe_text ev"
  by (cases ev) simp_all

lemma quiet_part_sel: "st (quiet_part t) = st t" "node_state (quiet_part t) = node_state t" "attempts (quiet_part t) = attempts t"
  by (simp_all add: quiet_part_def)

lemma quiet_saved: "quiet_part t = quiet_part t' \<Longrightarrow> state_saved t \<Longrightarrow> state_saved t'"
  by (metis quiet_part_sel(1,2) state_saved_def)

lemma ends_saved_then [saved]: "ends_saved m \<Longrightarrow> keeps state_saved n \<Longrightarrow> ends_saved (tseq m n)"
  by (auto simp: ends_saved_def wp_tseq keeps_def intro: wp_mono)

lemma suppressed_saved:
  assumes "state_saved t" and "not_running ref t" and "\<not> has_safe_text ev"
  shows "wp (archiveAdapterEvent H x pub ref ev v True kind) (\<lambda>_. state_saved) t"
proof -
  have "not_running ref (quiet_part t)" using assms(2) by (simp add: not_running_def quiet_part_sel)
  from keepsD [OF quiet_archive [OF this assms(3)] refl] show ?thesis
    by (rule wp_mono) (metis quiet_saved assms(1))
qed

lemma saved_late_event: "keeps state_saved (late_event H x ref ev v)"
  unfolding late_event_def by (rule keeps_saved_ends) (intro saved identity.keep_archive)

lemma saved_active_event: "keeps state_saved (active_event H x ref ev v s)"
  unfolding active_event_def by (rule keeps_saved_ends) (intro saved keeps identity.keep_project)

lemma saved_suppressed_event:
  "state_saved t \<Longrightarrow> not_running ref t \<Longrightarrow> isInteractiveWaitEvent ev \<Longrightarrow> wp (suppressed_event H x ref ev v) (\<lambda>_. state_saved) t"
  unfolding suppressed_event_def by (intro wp_then suppressed_saved interactive_no_text keeps)

lemma live_not_running:
  "live_attempt (ref_attempt ref) t = Some a \<Longrightarrow> a_state a \<noteq> ARunning \<Longrightarrow> a_state a \<noteq> AWaitingInput \<Longrightarrow> not_running ref t"
  by (auto simp: not_running_def dest: live_attempt_Some)

lemma saved_adapter_event: "keeps state_saved (adapter_event_tx H x ref ev)"
proof (rule keepsI)
  fix t
  assume t: "state_saved t"
  note branches = keepsD [OF saved_late_event t] keepsD [OF saved_active_event t] saved_suppressed_event [OF t]
  show "wp (adapter_event_tx H x ref ev) (\<lambda>_. state_saved) t"
    unfolding adapter_event_tx_def
    by (intro wp_front wp_if [THEN iffD2] if_bool_eq_conj [THEN iffD2] conjI impI branches) (auto intro: live_not_running)
qed

section \<open>Properties of observation\<close>

lemma run_tx_Inr: "run_tx m ids at ok db = (Inr r, db') \<Longrightarrow> \<exists>t. m (begin_tx db ids at) = Inr (r, t) \<and> db' = commit_tx t"
  by (auto simp: run_tx_def split: sum.splits if_splits)

lemma observe_run:
  "ObserveAdapterEvent H e x ref ref' ev db = (Inr r, db') \<Longrightarrow>
     \<exists>t. adapter_event_tx H x ref ev (begin_tx db (io_ids e) (io_now e)) = Inr (r, t) \<and> db' = commit_tx t"
  by (auto simp: ObserveAdapterEvent_def dest: run_tx_Inr split: if_splits)

lemma live_attempt_begin: "live_attempt i (begin_tx db ids at) = live_attempt i (begin_tx db [] [])"
  by (simp add: live_attempt_def dialog_deleted_def split: option.split)

section \<open>What the archive does\<close>

text \<open>
  An event is known when a row of the log carries its digest for the attempt, or when the archive
  carries its key and digest. A terminal event is also known when the attempt has a terminal
  event in the log that agrees with it.
\<close>

definition archived_before :: "(string \<Rightarrow> string) \<Rightarrow> string \<Rightarrow> adapterProjection \<Rightarrow> event_row list \<Rightarrow> late_row list \<Rightarrow> bool" where
  "archived_before H i p rows lates \<longleftrightarrow>
     (\<exists>e \<in> set rows. e_attempt_id e = Some i \<and> e_projection_key e \<noteq> None \<and> e_projection_hash e = Some (adapterProjectionDigest H p)) \<or>
     (\<exists>l \<in> set lates. l_attempt_id l = i \<and> l_projection_key l = Some (pr_key p) \<and>
        l_projection_hash l = Some (adapterProjectionDigest H p))"

definition ended_before :: "string \<Rightarrow> adapterProjection \<Rightarrow> event_row list \<Rightarrow> bool" where
  "ended_before i p rows \<longleftrightarrow> active_key (pr_key p) = (''terminal'', True) \<and>
     (\<exists>e \<in> set rows. e_attempt_id e = Some i \<and> e_projection_key e = Some ''terminal'')"

lemma wp_stored_projection:
  "wp (stored_projection i k) Q t \<longleftrightarrow> (case find (\<lambda>e. e_attempt_id e = Some i \<and> e_projection_key e = Some k) (events t) of
     None \<Rightarrow> Q None t | Some e \<Rightarrow> (\<forall>h. e_projection_hash e = Some h \<longrightarrow> Q (Some h) t))"
  by (auto simp: stored_projection_def scan_text_def wp split: option.split)

lemma wp_stored_late:
  "wp (stored_late i k) Q t \<longleftrightarrow> (case find (\<lambda>l. l_attempt_id l = i \<and> l_projection_key l = Some k) (late_observations t) of
     None \<Rightarrow> Q None t | Some l \<Rightarrow> (\<forall>h. l_projection_hash l = Some h \<longrightarrow> Q (Some h) t))"
  by (auto simp: stored_late_def scan_text_def wp split: option.split)

lemma readonly_terminal_digest: "keeps ((=) t0) (activeTerminalProjectionDigest H i p)"
  unfolding activeTerminalProjectionDigest_def Let_def by (intro keeps)

lemma active_key_terminal: "active_key k = (a, True) \<Longrightarrow> a = ''terminal''"
  by (auto simp: active_key_def Let_def split: if_splits)

lemma wp_active_duplicate:
  "wp (active_duplicate H i p) (\<lambda>b t'. t' = t \<and> (b \<longrightarrow> ended_before i p (events t))) t"
proof (cases "active_key (pr_key p)")
  case (Pair k terminal)
  show ?thesis
  proof (cases terminal)
    case True
    with Pair have k: "active_key (pr_key p) = (''terminal'', True)" using active_key_terminal by auto
    show ?thesis
      unfolding active_duplicate_def k
      by (auto simp: wp wp_stored_projection ended_before_def k find_Some_iff split: option.split
          intro!: wp_readonly [OF readonly_terminal_digest])
        (metis nth_mem)+
  next
    case False
    with Pair show ?thesis
      by (auto simp: active_duplicate_def wp wp_stored_projection split: option.split)
  qed
qed

lemma find_SomeD: "find P xs = Some x \<Longrightarrow> x \<in> set xs \<and> P x"
  by (auto simp: find_Some_iff)

lemma wp_archived_exists:
  "wp (archivedProjectionExists H i p) (\<lambda>b t'. t' = t \<and> (archived_before H i p (events t) (late_observations t) \<longrightarrow> b) \<and>
     (b \<longrightarrow> archived_before H i p (events t) (late_observations t) \<or> ended_before i p (events t))) t"
  unfolding archivedProjectionExists_def Let_def
  by (auto simp: wp exists_row_def archived_before_def [of H i p] wp_stored_projection wp_stored_late find_None_iff
      split: option.split dest!: find_SomeD intro!: wp_mono [OF wp_active_duplicate])

text \<open>The output budget of the attempt: already spent, or crossed by this event.\<close>

definition budget_spent :: "string \<Rightarrow> txn \<Rightarrow> bool" where
  "budget_spent i t \<longleftrightarrow> (\<exists>n. active_bytes i t = Some n \<and> over_budget n (archived_bytes i t))"

definition crosses_budget :: "string \<Rightarrow> int \<Rightarrow> txn \<Rightarrow> bool" where
  "crosses_budget i bytes t \<longleftrightarrow> \<not> budget_spent i t \<and> MaximumAttemptOutputBytes < the (active_bytes i t) + archived_bytes i t + bytes"

definition archived_output :: "string \<Rightarrow> int \<Rightarrow> txn \<Rightarrow> int" where
  "archived_output i bytes t = (if crosses_budget i bytes t
     then MaximumAttemptOutputBytes + 1 - (the (active_bytes i t) + archived_bytes i t) else bytes)"

lemma wp_archived_charge:
  "wp (chargeArchivedAttemptOutput i bytes) (\<lambda>(c, n) t'. t' = t \<and> NewlyExceeded c = crosses_budget i bytes t \<and>
     (Exceeded c \<and> \<not> NewlyExceeded c \<longleftrightarrow> budget_spent i t) \<and> (\<not> budget_spent i t \<longrightarrow> n = archived_output i bytes t)) t"
  by (auto simp: chargeArchivedAttemptOutput_def wp Let_def budget_spent_def crosses_budget_def archived_output_def)

lemma late_key: "prepareLateProjection ref ev v = Some p \<Longrightarrow> pr_key p \<noteq> []"
  by (cases "(ref, ev, v)" rule: prepareLateProjection.cases) (auto simp: projection_def Let_def split: ReconcileOutcome.splits)

text \<open>The text of an event replaces artifact rows only; events without text leave them alone.\<close>

definition captured_rows :: "safe_text \<Rightarrow> Event \<Rightarrow> artifact_row list \<Rightarrow> artifact_row list" where
  "captured_rows x ev rows = (if has_safe_text ev then (case capture x of None \<Rightarrow> rows | Some f \<Rightarrow> f rows) else rows)"

lemma wp_capture: "wp (captureAdapterEventSafeText x published ev) (\<lambda>_ t'. t' = t\<lparr>artifacts := captured_rows x ev (artifacts t)\<rparr>) t"
  by (auto simp: captureAdapterEventSafeText_def captured_rows_def change_artifacts_def wp split: option.split)

text \<open>The log shows the event itself, or its marker when it crosses the output budget.\<close>

definition shown_projection :: "adapterProjection \<Rightarrow> bool \<Rightarrow> adapterProjection \<Rightarrow> bool" where
  "shown_projection p crossed q \<longleftrightarrow> (if crossed then (\<exists>t t'. archivedOutputLimitProjection p t = Inr (q, t')) else q = p)"

lemma wp_shown:
  "wp (if crossed then tbind (archivedOutputLimitProjection p) (\<lambda>q. tseq (validateAdapterProjectionEnvelope ref q) (tret q)) else tret p)
     (\<lambda>q t'. shown_projection p crossed q \<and> (\<exists>ids. t' = t\<lparr>idsrc := ids\<rparr>)) t"
proof -
  have ids: "wp (archivedOutputLimitProjection p) (\<lambda>q t'. (\<exists>ids. t' = t\<lparr>idsrc := ids\<rparr>)) t"
    by (cases t) (auto simp: archivedOutputLimitProjection_def wp split: payload.split)
  have "wp (archivedOutputLimitProjection p) (\<lambda>q t'. shown_projection p True q \<and> (\<exists>ids. t' = t\<lparr>idsrc := ids\<rparr>)) t"
    using ids by (auto simp: wp_def shown_projection_def split: sum.splits)
  then have "wp (tbind (archivedOutputLimitProjection p) (\<lambda>q. tseq (validateAdapterProjectionEnvelope ref q) (tret q)))
      (\<lambda>q t'. shown_projection p True q \<and> (\<exists>ids. t' = t\<lparr>idsrc := ids\<rparr>)) t"
    unfolding wp_tbind by (rule wp_mono) (simp add: wp validateAdapterProjectionEnvelope_def)
  moreover have "\<exists>ids. t = t\<lparr>idsrc := ids\<rparr>" by (rule exI [of _ "idsrc t"]) simp
  ultimately show ?thesis by (cases crossed) (simp_all add: wp shown_projection_def)
qed

text \<open>The rows an archived event leaves in the log and in the archive.\<close>

definition log_entry :: "(string \<Rightarrow> string) \<Rightarrow> AttemptRef \<Rightarrow> adapterProjection \<Rightarrow> adapterProjection \<Rightarrow> txn \<Rightarrow> event_row" where
  "log_entry H ref p q t = (event_row_of t (eventType q) (entityID q) (entityVersion q) (ref_attempt ref) (ref_dialog ref)
     (json_payload (pr_payload q)) True)\<lparr>e_projection_key := Some (pr_key p), e_projection_hash := Some (adapterProjectionDigest H p)\<rparr>"

definition archive_entry :: "(string \<Rightarrow> string) \<Rightarrow> AttemptRef \<Rightarrow> adapterProjection \<Rightarrow> string \<Rightarrow> int \<Rightarrow> string \<Rightarrow> int \<Rightarrow> late_row" where
  "archive_entry H ref p kind seq at bytes = \<lparr>l_attempt_id = ref_attempt ref, l_generation = ref_generation ref, l_kind = kind,
     l_event_seq = seq, l_observed_at = at, l_projection_key = Some (pr_key p),
     l_projection_hash = Some (adapterProjectionDigest H p), l_output_bytes = bytes\<rparr>"

lemma update_only_last:
  assumes "count_rows P (rows @ [r]) = 1" and "P r"
  shows "update_rows P f (rows @ [r]) = rows @ [f r]"
  using assms by (auto simp: count_rows_def update_rows_def filter_empty_conv map_idI)

lemma wp_archive_event:
  assumes "ref_attempt ref \<noteq> []" and "pr_key p \<noteq> []"
  shows "wp (archive_event H ref p q) (\<lambda>_ t'. t' = t\<lparr>events := events t @ [log_entry H ref p q t],
     quiescence := bump (scope_hit (nullText (ref_dialog ref))) 0 (quiescence t),
     st := (st t)\<lparr>LastEventSeq := LastEventSeq (st t) + 1\<rparr>\<rparr>) t"
  using assms by (auto simp: archive_event_def recordAdapterProjection_def update_events_def wp wp_appendEvent Let_def update_only_last
      log_entry_def nullText_def)

text \<open>The database after the archive took an event, as one update of the transaction before it.\<close>

definition archived_txn :: "(string \<Rightarrow> string) \<Rightarrow> safe_text \<Rightarrow> AttemptRef \<Rightarrow> Event \<Rightarrow> adapterProjection \<Rightarrow> bool \<Rightarrow> string \<Rightarrow>
    adapterProjection \<Rightarrow> string list \<Rightarrow> txn \<Rightarrow> txn" where
  "archived_txn H x ref ev p suppressed kind q ids t = (let seq = LastEventSeq (st t) + (if suppressed then 0 else 1);
       bytes = archived_output (ref_attempt ref) (archivedAdapterOutputBytes ev) t;
       t1 = t\<lparr>artifacts := captured_rows x ev (artifacts t), idsrc := ids,
         late_observations := late_observations t @ [archive_entry H ref p (archive_kind p suppressed kind) seq (now t) bytes]\<rparr> in
     if suppressed then t1
     else t1\<lparr>events := events t @ [log_entry H ref p q t], quiescence := bump (scope_hit (nullText (ref_dialog ref))) 0 (quiescence t),
         st := (st t)\<lparr>LastEventSeq := seq\<rparr>\<rparr>)"

definition archive_effect :: "(string \<Rightarrow> string) \<Rightarrow> safe_text \<Rightarrow> AttemptRef \<Rightarrow> Event \<Rightarrow> adapterProjection \<Rightarrow> bool \<Rightarrow> string \<Rightarrow>
    txn \<Rightarrow> txn \<Rightarrow> bool" where
  "archive_effect H x ref ev p suppressed kind t t' \<longleftrightarrow>
     (archived_before H (ref_attempt ref) p (events t) (late_observations t) \<or> ended_before (ref_attempt ref) p (events t)) \<and> t' = t \<or>
     \<not> archived_before H (ref_attempt ref) p (events t) (late_observations t) \<and> budget_spent (ref_attempt ref) t \<and> t' = t\<lparr>artifacts := captured_rows x ev (artifacts t)\<rparr> \<or>
     \<not> archived_before H (ref_attempt ref) p (events t) (late_observations t) \<and> \<not> budget_spent (ref_attempt ref) t \<and>
     (\<exists>q ids. shown_projection p (crosses_budget (ref_attempt ref) (archivedAdapterOutputBytes ev) t) q \<and>
        t' = archived_txn H x ref ev p suppressed kind q ids t)"

lemma wp_archive_row: "wp (archive_row H ref p kind bytes) (\<lambda>_ t'. t' = t\<lparr>late_observations :=
    late_observations t @ [archive_entry H ref p kind (LastEventSeq (st t)) (now t) bytes]\<rparr>) t"
  by (simp add: archive_row_def archive_entry_def insert_late_def wp)

text \<open>The durable part of the archive, after the text has been captured.\<close>

lemma wp_archive_store:
  assumes "ref_attempt ref \<noteq> []" and "pr_key p \<noteq> []" and "not_running ref t"
  shows "wp (tseq (if suppressed then tret () else archive_event H ref p q) (tseq (archive_row H ref p kind bytes)
       (if crossed then scheduleOutputLimitStop ref else tret ())))
     (\<lambda>_ t'. t' = (if suppressed
        then t\<lparr>late_observations := late_observations t @ [archive_entry H ref p kind (LastEventSeq (st t)) (now t) bytes]\<rparr>
        else t\<lparr>events := events t @ [log_entry H ref p q t],
          quiescence := bump (scope_hit (nullText (ref_dialog ref))) 0 (quiescence t),
          st := (st t)\<lparr>LastEventSeq := LastEventSeq (st t) + 1\<rparr>,
          late_observations := late_observations t @ [archive_entry H ref p kind (LastEventSeq (st t) + 1) (now t) bytes]\<rparr>)) t"
proof -
  have row: "wp (tseq (archive_row H ref p kind bytes) (if crossed then scheduleOutputLimitStop ref else tret ()))
      (\<lambda>_ t2. t2 = t1\<lparr>late_observations := late_observations t1 @ [archive_entry H ref p kind (LastEventSeq (st t1)) (now t1) bytes]\<rparr>) t1"
    if "not_running ref t1" for t1
    unfolding wp_tseq
    by (rule wp_mono [OF wp_archive_row]) (auto simp: wp intro!: wp_mono [OF wp_schedule_quiet] not_running_fields [OF _ _ that])
  show ?thesis
  proof (cases suppressed)
    case True
    then show ?thesis using row [OF assms(3)] by (simp add: wp_tseq [of "tret ()"] wp_tret)
  next
    case False
    show ?thesis
      unfolding if_not_P [OF False] wp_tseq [of "archive_event H ref p q"]
      by (rule wp_mono [OF wp_archive_event [OF assms(1,2)]])
        (clarify, rule wp_mono [OF row [OF not_running_fields [OF _ _ assms(3)]]], simp_all)
  qed
qed

lemma bytes_artifacts [simp]:
  "active_bytes i (t\<lparr>artifacts := rows\<rparr>) = active_bytes i t" "archived_bytes i (t\<lparr>artifacts := rows\<rparr>) = archived_bytes i t"
  by (simp_all add: active_bytes_def archived_bytes_def)

lemma budget_artifacts [simp]:
  "budget_spent i (t\<lparr>artifacts := rows\<rparr>) = budget_spent i t" "crosses_budget i b (t\<lparr>artifacts := rows\<rparr>) = crosses_budget i b t"
  by (simp_all add: budget_spent_def crosses_budget_def)

lemma archived_output_artifacts [simp]: "archived_output i b (t\<lparr>artifacts := rows\<rparr>) = archived_output i b t"
  by (simp add: archived_output_def)

lemma readonly_archived_valid: "keeps ((=) t0) (validateArchivedAdapterEvent ref ev p)"
  unfolding validateArchivedAdapterEvent_def validateAdapterEventSafeContent_def validateSafeContentReference_def
    validateAdapterProjectionEnvelope_def
  by (auto intro!: keeps split: Event.split option.split)

text \<open>What the archive does once the text of the event has been captured.\<close>

lemma wp_archive_charged:
  assumes "ref_attempt ref \<noteq> []" and "pr_key p \<noteq> []" and "not_running ref t"
    and "\<not> archived_before H (ref_attempt ref) p (events t) (late_observations t)"
  shows "wp (tbind (chargeArchivedAttemptOutput (ref_attempt ref) (archivedAdapterOutputBytes ev)) (\<lambda>(charge, ledgerBytes).
       if Exceeded charge \<and> \<not> NewlyExceeded charge then tret ()
       else tbind (if NewlyExceeded charge then tbind (archivedOutputLimitProjection p) (\<lambda>q.
             tseq (validateAdapterProjectionEnvelope ref q) (tret q)) else tret p) (\<lambda>archived.
         tseq (if suppressed then tret () else archive_event H ref p archived)
         (tseq (archive_row H ref p (archive_kind p suppressed kind) ledgerBytes)
           (if NewlyExceeded charge then scheduleOutputLimitStop ref else tret ())))))
     (\<lambda>_. archive_effect H x ref ev p suppressed kind t) (t\<lparr>artifacts := captured_rows x ev (artifacts t)\<rparr>)"
proof -
  let ?i = "ref_attempt ref" and ?b = "archivedAdapterOutputBytes ev" and ?t = "t\<lparr>artifacts := captured_rows x ev (artifacts t)\<rparr>"
  have store: "wp (tseq (if suppressed then tret () else archive_event H ref p q)
      (tseq (archive_row H ref p (archive_kind p suppressed kind) (archived_output ?i ?b t))
        (if crossed then scheduleOutputLimitStop ref else tret ())))
      (\<lambda>_. archive_effect H x ref ev p suppressed kind t) (?t\<lparr>idsrc := ids\<rparr>)"
    if "shown_projection p (crosses_budget ?i ?b t) q" "\<not> budget_spent ?i t" for q ids crossed
    by (rule wp_mono [OF wp_archive_store [OF assms(1,2) not_running_fields [OF _ _ assms(3)]]])
      (use that assms(4) in \<open>auto simp: archive_effect_def archived_txn_def Let_def log_entry_def event_row_of_def intro!: exI [of _ q] exI [of _ ids]\<close>)
  show ?thesis
    unfolding wp_tbind [of "chargeArchivedAttemptOutput _ _"]
  proof (rule wp_mono [OF wp_archived_charge], clarify)
    fix c n
    assume c: "NewlyExceeded c = crosses_budget ?i ?b ?t" "Exceeded c \<and> \<not> NewlyExceeded c \<longleftrightarrow> budget_spent ?i ?t"
      "\<not> budget_spent ?i ?t \<longrightarrow> n = archived_output ?i ?b ?t"
    show "wp (if Exceeded c \<and> \<not> NewlyExceeded c then tret ()
       else tbind (if NewlyExceeded c then tbind (archivedOutputLimitProjection p) (\<lambda>q.
             tseq (validateAdapterProjectionEnvelope ref q) (tret q)) else tret p) (\<lambda>archived.
         tseq (if suppressed then tret () else archive_event H ref p archived)
         (tseq (archive_row H ref p (archive_kind p suppressed kind) n)
           (if NewlyExceeded c then scheduleOutputLimitStop ref else tret ()))))
     (\<lambda>_. archive_effect H x ref ev p suppressed kind t) ?t"
    proof (cases "budget_spent ?i t")
      case True
      then show ?thesis using c assms(4) by (simp add: wp_tret archive_effect_def)
    next
      case False
      then have n: "n = archived_output ?i ?b t" and e: "\<not> (Exceeded c \<and> \<not> NewlyExceeded c)" using c by simp_all
      show ?thesis
        unfolding if_not_P [OF e] wp_tbind [of "if NewlyExceeded c then _ else _"]
        by (rule wp_mono [OF wp_shown]) (clarify, unfold n, rule store, use c(1) False in simp_all)
    qed
  qed
qed

lemma wp_archive:
  assumes "ref_attempt ref \<noteq> []" and "not_running ref t"
  shows "wp (archiveAdapterEvent H x published ref ev v suppressed kind)
     (\<lambda>_ t'. \<exists>p. prepareLateProjection ref ev v = Some p \<and> archive_effect H x ref ev p suppressed kind t t') t"
  unfolding archiveAdapterEvent_def
  apply (rule wp_find_then)
  apply (subst wp_tseq, rule wp_readonly [OF readonly_archived_valid])
  apply (subst wp_tbind, rule wp_mono [OF wp_archived_exists])
  subgoal for p u dup t'
    apply (cases dup)
     apply (fastforce simp: validateAdapterEventSafeTextReplay_def wp archive_effect_def)
    apply (clarsimp simp only: if_False, subst wp_tseq, rule wp_mono [OF wp_capture], clarify)
    apply (rule wp_mono [OF wp_archive_charged [OF assms(1) late_key assms(2)]], assumption, simp, blast)
    done
  done

section \<open>The exact effect of late and suppressed events\<close>

lemma late_kind_cases: "isInteractiveWaitEvent ev \<Longrightarrow> prepareLateProjection ref ev v = Some p \<Longrightarrow> \<not> ended_before i p rows"
  by (cases ev) (auto simp: ended_before_def projection_def active_key_def has_prefix_def Let_def split: if_splits)

lemma bytes_begin:
  "active_bytes i (begin_tx db ids at) = map_option a_output_bytes (lookup_row attempt_id i (attempts db))"
  "archived_bytes i (begin_tx db ids at) = sum_list (map l_output_bytes
     (filter (\<lambda>l. l_attempt_id l = i \<and> l_projection_key l \<noteq> None) (late_observations db)))"
  by (simp_all add: active_bytes_def archived_bytes_def begin_tx_def database.defs)

lemma budget_begin:
  "budget_spent i (begin_tx db ids at) = budget_spent i (begin_tx db [] [])"
  "crosses_budget i b (begin_tx db ids at) = crosses_budget i b (begin_tx db [] [])"
  "archived_output i b (begin_tx db ids at) = archived_output i b (begin_tx db [] [])"
  unfolding archived_output_def crosses_budget_def budget_spent_def bytes_begin by (rule refl)+

lemma wp_suppressed_event:
  "ref_attempt ref \<noteq> [] \<Longrightarrow> not_running ref t \<Longrightarrow> wp (suppressed_event H x ref ev v)
     (\<lambda>_ t'. \<exists>p. prepareLateProjection ref ev v = Some p \<and> archive_effect H x ref ev p True [] t t') t"
  unfolding suppressed_event_def wp_tseq wp_tret by (rule wp_archive)

lemma begin_tx_archive [simp]: "late_observations (begin_tx db ids at) = late_observations db" "artifacts (begin_tx db ids at) = artifacts db"
  by (simp_all add: begin_tx_def database.defs)

lemma commit_late:
  "commit_tx ((begin_tx db ids at)\<lparr>artifacts := fs, idsrc := ids', late_observations := rows\<rparr>) = db\<lparr>artifacts := fs, late_observations := rows\<rparr>"
  "commit_tx ((begin_tx db ids at)\<lparr>artifacts := fs\<rparr>) = db\<lparr>artifacts := fs\<rparr>"
  by (cases db, simp add: commit_tx_def begin_tx_def database.defs)+

text \<open>
  C11: while an attempt is being stopped or its state is unknown, an approval, input or waiting event
  of its adapter is archived: one row of late observations, of kind \<open>suppressed.<event type>\<close>, with
  the projection key, the digest and the output bytes of the event. Nothing else changes, no row
  of the domain, no event of the log, no counter of the node. No row is added exactly when the
  event is already recorded for the attempt or the attempt's output budget is already spent.
\<close>

theorem suppressed_event_archived_only:
  assumes "live_attempt (ref_attempt ref) (begin_tx db [] []) = Some a" and "a_state a = AStopping \<or> a_state a = AUnknown"
    and "isInteractiveWaitEvent ev" and "ref_attempt ref \<noteq> []" and "ObserveAdapterEvent H e x ref ref' ev db = (Inr r, db')"
  shows "\<exists>p. prepareLateProjection ref ev (a_version a) = Some p \<and>
     db' = (if archived_before H (ref_attempt ref) p (events db) (late_observations db) \<or> budget_spent (ref_attempt ref) (begin_tx db [] [])
       then db
       else db\<lparr>late_observations := late_observations db @ [archive_entry H ref p (''suppressed.'' @ eventType p)
         (LastEventSeq (node_state db)) (io_now e)
         (archived_output (ref_attempt ref) (archivedAdapterOutputBytes ev) (begin_tx db [] []))]\<rparr>)"
proof -
  let ?t = "begin_tx db (io_ids e) (io_now e)"
  obtain t where run: "adapter_event_tx H x ref ev ?t = Inr (r, t)" and db': "db' = commit_tx t"
    using observe_run [OF assms(5)] by blast
  have live: "live_attempt (ref_attempt ref) ?t = Some a" using assms(1) live_attempt_begin by metis
  have "wp (adapter_event_tx H x ref ev) (\<lambda>_ t. \<exists>p. prepareLateProjection ref ev (a_version a) = Some p \<and>
      archive_effect H x ref ev p True [] ?t t) ?t"
    unfolding adapter_event_tx_def
    using assms(2,3) live wp_suppressed_event [OF assms(4) live_not_running [OF live], of H x ev] by (auto simp: wp)
  from wpD [OF this run] obtain p where p: "prepareLateProjection ref ev (a_version a) = Some p"
    and eff: "archive_effect H x ref ev p True [] ?t t" by blast
  have nt: "captured_rows x ev rows = rows" for rows
    using interactive_no_text [OF assms(3)] by (simp add: captured_rows_def)
  from eff late_kind_cases [OF assms(3) p] show ?thesis
    by (auto simp: archive_effect_def archived_txn_def p db' nt budget_begin [where ids = "io_ids e"] archive_kind_def commit_late)
qed





section \<open>At most once\<close>

text \<open>The projection key of an event with content, and the payload whose digest identifies it.\<close>

fun content_key :: "Event \<Rightarrow> (string \<times> payload) option" where
  "content_key (AssistantDeltaEvent message idx content) =
     Some (''assistant.delta:'' @ message @ '':'' @ decimal_text idx, AssistantDeltaPayload message idx content)"
| "content_key (AssistantMessageEvent message content finish) =
     Some (''assistant.message:'' @ message, AssistantMessagePayload message content finish)"
| "content_key (ToolStartedEvent call name hash input) = Some (''tool.started:'' @ call, ToolStartedPayload call name hash input)"
| "content_key (ToolOutputEvent call idx stream output) =
     Some (''tool.output:'' @ call @ '':'' @ decimal_text idx, ToolOutputPayload call idx stream output)"
| "content_key (ToolCompletedEvent call status result effect eref) =
     Some (''tool.completed:'' @ call, ToolCompletedPayload call status result effect eref)"
| "content_key (ApprovalRequestedEvent approval call hash prompt) =
     Some (''approval.requested:'' @ approval, ApprovalRequestedPayload approval call hash prompt 1)"
| "content_key (InputRequestedEvent input prompt) = Some (''input.requested:'' @ input, InputRequestedPayload input prompt 1)"
| "content_key _ = None"

definition recorded_hash :: "string \<Rightarrow> string \<Rightarrow> event_row list \<Rightarrow> string option option" where
  "recorded_hash i k rows = map_option e_projection_hash (find (\<lambda>e. e_attempt_id e = Some i \<and> e_projection_key e = Some k) rows)"

lemma wp_exists_recorded:
  assumes "recorded_hash i (pr_key p) (events t) = Some h"
  shows "wp (adapterProjectionExists H i p) (\<lambda>b t'. b \<and> t' = t \<and> h = Some (adapterProjectionDigest H p)) t"
  using assms by (auto simp: adapterProjectionExists_def stored_projection_def recorded_hash_def scan_text_def wp split: option.splits)

lemma wp_charge_recorded:
  assumes "recorded_hash (ref_attempt ref) (pr_key p) (events t) = Some h"
  shows "wp (chargeAdapterProjection H ref p n) (\<lambda>(c, b) t'. b \<and> t' = t \<and> h = Some (adapterProjectionDigest H p)) t"
  unfolding chargeAdapterProjection_def validateAdapterProjectionEnvelope_def
  by (intro wp_check_then, unfold wp_tbind, rule wp_mono [OF wp_exists_recorded [OF assms]]) (auto simp: wp)

lemma wp_charged_recorded:
  assumes "recorded_hash (ref_attempt ref) (pr_key p) (events t) = Some h"
  shows "wp (charged H ref p body content row) (\<lambda>r t'. r = (None, False) \<and> t' = t \<and> h = Some (adapterProjectionDigest H p)) t"
  unfolding charged_def chargeSafeAdapterProjection_def wp_tbind
  by (rule wp_mono [OF wp_charge_recorded [OF assms]]) (auto simp: wp)

lemma wp_reference_then: "wp n Q t \<Longrightarrow> wp (tseq (validateSafeContentReference ref c call b) n) Q t"
  by (auto simp: validateSafeContentReference_def wp)

lemma content_projection_sel [simp]:
  "pr_key (content_projection ty ent ver body k) = k"
  "adapterProjectionDigest H (content_projection ty ent ver body k) = adapterProjectionHash H (json_payload body)"
  by (simp_all add: content_projection_def projection_def adapterProjectionDigest_def)

lemma wp_prepare_recorded:
  assumes "content_key ev = Some (k, body)" and "recorded_hash (ref_attempt ref) k (events t) = Some h"
  shows "wp (prepareProjection H x ref v s ev)
     (\<lambda>r t'. r = (None, False) \<and> t' = t \<and> h = Some (adapterProjectionHash H (json_payload body))) t"
proof (cases ev)
  case (ApprovalRequestedEvent approval call hash prompt)
  have c: "wp (chargeAdapterProjection H ref (content_projection ''approval.requested'' approval 1
      (ApprovalRequestedPayload approval call hash prompt 1) (''approval.requested:'' @ approval)) (int (length prompt)))
      (\<lambda>(c, b) t'. b \<and> t' = t \<and> h = Some (adapterProjectionHash H (json_payload body))) t"
    using wp_charge_recorded [of ref "content_projection ''approval.requested'' approval 1
      (ApprovalRequestedPayload approval call hash prompt 1) (''approval.requested:'' @ approval)" t h H "int (length prompt)"]
      assms ApprovalRequestedEvent by (auto elim: wp_mono)
  show ?thesis
    unfolding ApprovalRequestedEvent prepareProjection.simps prepare_approval_def Let_def
    by (intro wp_front, unfold wp_tbind, rule wp_mono [OF c]) (auto simp: wp)
qed (use assms in \<open>auto simp: prepare_input_def intro!: wp_reference_then wp_find_then wp_mono [OF wp_charged_recorded]\<close>)

lemma saveState_noop: "state_saved t \<Longrightarrow> wp saveState (\<lambda>_ t'. t' = t) t"
  by (simp add: saveState_def wp state_saved_def saved_row_def Let_def)

lemma active_recorded:
  assumes "content_key ev = Some (k, body)" and "recorded_hash (ref_attempt ref) k (events t) = Some h" and "state_saved t"
  shows "wp (active_event H x ref ev v s) (\<lambda>_ t'. t' = t \<and> h = Some (adapterProjectionHash H (json_payload body))) t"
proof -
  have p: "wp (projectAdapterEvent H x ref v s ev)
      (\<lambda>r t'. t' = t \<and> h = Some (adapterProjectionHash H (json_payload body))) t"
    unfolding projectAdapterEvent_def validateAdapterEventSafeTextReplay_def [of x ev]
    by (intro wp_guard_then, unfold wp_tbind, rule wp_mono [OF wp_prepare_recorded [OF assms(1,2)]]) (auto simp: wp)
  show ?thesis
    unfolding active_event_def wp_tbind
    by (rule wp_mono [OF p]) (auto simp: wp intro!: wp_mono [OF saveState_noop [OF assms(3)]])
qed

text \<open>
  C12: an event with content (a delta, an assistant message, a tool start, output or completion, an
  approval or input request) is projected at most once for the attempt in the slot. When the
  log already holds its projection key for that attempt, delivering an event with that key leaves
  the database exactly as it was; it is accepted silently only if the recorded digest is the
  digest of its own payload, and a conflicting payload under the same key is an error. The
  events that are suppressed while the attempt is being stopped or unknown are the case above.
\<close>

theorem recorded_event_changes_nothing:
  assumes "live_attempt (ref_attempt ref) (begin_tx db [] []) = Some a" and "ActiveAttemptID (node_state db) = Some (ref_attempt ref)"
    and "is_active (a_state a)" and "\<not> (a_state a \<in> {AStopping, AUnknown} \<and> isInteractiveWaitEvent ev)"
    and "content_key ev = Some (k, body)" and "recorded_hash (ref_attempt ref) k (events db) = Some h"
    and "ObserveAdapterEvent H e x ref ref' ev db = (r, db')"
  shows "db' = db \<and> (h \<noteq> Some (adapterProjectionHash H (json_payload body)) \<longrightarrow> (\<exists>err. r = Inl err))"
proof (cases r)
  case (Inl err)
  then show ?thesis using assms(7) by (auto simp: ObserveAdapterEvent_def run_tx_def split: if_splits sum.splits)
next
  case (Inr b)
  let ?t = "begin_tx db (io_ids e) (io_now e)"
  obtain t where run: "adapter_event_tx H x ref ev ?t = Inr (b, t)" and db': "db' = commit_tx t"
    using observe_run assms(7) Inr by blast
  have live: "live_attempt (ref_attempt ref) ?t = Some a" using assms(1) live_attempt_begin by metis
  have "wp (active_event H x ref ev v s) (\<lambda>_ t'. t' = ?t \<and> h = Some (adapterProjectionHash H (json_payload body))) ?t" for v s
    using active_recorded [OF assms(5) _ begin_tx_saved] assms(6) by simp
  then have "wp (adapter_event_tx H x ref ev) (\<lambda>_ t'. t' = ?t \<and> h = Some (adapterProjectionHash H (json_payload body))) ?t"
    unfolding adapter_event_tx_def using assms(2,3,4) live by (auto simp: wp)
  from wpD [OF this run] show ?thesis by (simp add: db')
qed

section \<open>Concrete runs\<close>

text \<open>A volume whose first request has an attempt in the given state, and deliveries of events to it.\<close>

definition sample_attempt_id :: string where "sample_attempt_id = ''00000000-0000-4000-8000-0000000000b1''"

definition sample_held :: "attempt_state \<Rightarrow> string option \<Rightarrow> database" where
  "sample_held s slot = sample_queued\<lparr>
     node_state := (node_state sample_queued)\<lparr>ActiveAttemptID := slot, PendingCount := 1, EngineReadiness := ''ready'',
       Occupancy := ''active'', BlockedReasons := []\<rparr>,
     attempts := [sample_attempt\<lparr>attempt_id := sample_attempt_id, a_dialog_id := sample_dialog,
       a_request_id := ''00000000-0000-4000-8000-0000000000f1'', a_state := s, a_output_bytes := 0\<rparr>]\<rparr>"

definition sample_ref :: AttemptRef where
  "sample_ref = \<lparr>ref_node = sample_node, ref_dialog = sample_dialog, ref_request = ''00000000-0000-4000-8000-0000000000f1'',
     ref_attempt = sample_attempt_id, ref_generation = 1\<rparr>"

definition sample_content :: SafeContent where
  "sample_content = \<lparr>Kind = ''inline'', Content = ''hi'', ArtifactID = [], SizeBytes = None, SHA256 = [], Reason = [],
     Redaction = ''none'', Truncated = False\<rparr>"

definition sample_text :: safe_text where
  "sample_text = \<lparr>replay_matches = True, capture = Some (\<lambda>rows. rows)\<rparr>"

definition sample_delta :: Event where
  "sample_delta = AssistantDeltaEvent ''00000000-0000-4000-8000-0000000000e9'' 0 sample_content"

definition is_ok :: "'a + 'b \<Rightarrow> bool" where "is_ok x = (case x of Inl _ \<Rightarrow> False | Inr _ \<Rightarrow> True)"

definition sample_suppressed_run :: "(tx_error + (bool \<times> bool)) \<times> database" where
  "sample_suppressed_run = ObserveAdapterEvent sample_hash sample_io sample_text sample_ref sample_ref (WaitingEvent ''input'')
     (sample_held AStopping (Some sample_attempt_id))"

lemma is_ok_Inr: "is_ok x \<Longrightarrow> \<exists>r. x = Inr r"
  by (cases x) (simp_all add: is_ok_def)

lemma sample_live: "\<exists>a. live_attempt (ref_attempt sample_ref) (begin_tx (sample_held s slot) [] []) = Some a \<and> a_state a = s"
  by (simp add: live_attempt_def dialog_deleted_def sample_ref_def sample_held_def sample_queued_def sample_volume_def new_volume_def
      lookup_row_def exists_row_def)

lemma sample_suppressed_ok: "is_ok (fst sample_suppressed_run)"
  by code_simp

lemma sample_live_version: "live_attempt (ref_attempt sample_ref) (begin_tx (sample_held s slot) [] []) = Some a \<Longrightarrow> a_version a = 1"
  by (auto simp: live_attempt_def dialog_deleted_def sample_ref_def sample_held_def sample_queued_def sample_volume_def new_volume_def
      lookup_row_def exists_row_def sample_attempt_def split: if_splits)

text \<open>Nothing is recorded for the sample attempt yet, and its budget is untouched.\<close>

lemma sample_fresh:
  "\<not> archived_before H i p (events (sample_held s slot)) (late_observations (sample_held s slot))"
  "\<not> ended_before i p (events (sample_held s slot))"
  "\<not> budget_spent sample_attempt_id (begin_tx (sample_held s slot) [] [])"
  "b \<le> MaximumAttemptOutputBytes \<Longrightarrow> archived_output sample_attempt_id b (begin_tx (sample_held s slot) [] []) = b"
  by (simp_all add: archived_before_def ended_before_def budget_spent_def archived_output_def crosses_budget_def bytes_begin over_budget_def
      MaximumAttemptOutputBytes_def sample_held_def sample_queued_def sample_volume_def new_volume_def lookup_row_def)

theorem suppressed_event_archived_only_witness:
  "is_ok (fst sample_suppressed_run) \<and>
     (\<exists>p. prepareLateProjection sample_ref (WaitingEvent ''input'') 1 = Some p \<and>
      snd sample_suppressed_run = (sample_held AStopping (Some sample_attempt_id))\<lparr>late_observations :=
        late_observations (sample_held AStopping (Some sample_attempt_id)) @ [archive_entry sample_hash sample_ref p
          (''suppressed.'' @ eventType p) (LastEventSeq (node_state (sample_held AStopping (Some sample_attempt_id)))) (io_now sample_io) 0]\<rparr>)"
proof -
  obtain a where a: "live_attempt (ref_attempt sample_ref) (begin_tx (sample_held AStopping (Some sample_attempt_id)) [] []) = Some a"
      "a_state a = AStopping" using sample_live by blast
  obtain r where r: "sample_suppressed_run = (Inr r, snd sample_suppressed_run)"
    using is_ok_Inr [OF sample_suppressed_ok] by (metis prod.collapse)
  have i: "ref_attempt sample_ref = sample_attempt_id" "ref_attempt sample_ref \<noteq> []"
    by (simp_all add: sample_ref_def sample_attempt_id_def)
  have z: "archived_output sample_attempt_id 0 (begin_tx (sample_held AStopping (Some sample_attempt_id)) [] []) = 0"
    by (simp add: sample_fresh MaximumAttemptOutputBytes_def)
  show ?thesis
    using suppressed_event_archived_only [OF a(1) _ _ i(2) r [unfolded sample_suppressed_run_def]] a(2) sample_suppressed_ok
      sample_live_version [OF a(1)] z
    by (simp add: sample_suppressed_run_def sample_fresh i(1) del: prepareLateProjection.simps)
qed



definition sample_recorded :: database where
  "sample_recorded = (sample_held ARunning (Some sample_attempt_id))\<lparr>events := [\<lparr>e_node_id = sample_node, e_seq = 1, e_epoch = 1,
     e_json = JNull, e_attempt_id = Some sample_attempt_id, e_dialog_id = Some sample_dialog,
     e_projection_key = Some ''assistant.delta:00000000-0000-4000-8000-0000000000e9:0'', e_projection_hash = Some ''other'',
     e_late = False, e_created_at = []\<rparr>]\<rparr>"

theorem recorded_event_changes_nothing_witness:
  "snd (ObserveAdapterEvent sample_hash sample_io sample_text sample_ref sample_ref sample_delta sample_recorded) = sample_recorded \<and>
     \<not> is_ok (fst (ObserveAdapterEvent sample_hash sample_io sample_text sample_ref sample_ref sample_delta sample_recorded))"
proof -
  let ?run = "ObserveAdapterEvent sample_hash sample_io sample_text sample_ref sample_ref sample_delta sample_recorded"
  obtain a where a: "live_attempt (ref_attempt sample_ref) (begin_tx sample_recorded [] []) = Some a" "a_state a = ARunning"
    by (simp add: live_attempt_def dialog_deleted_def sample_ref_def sample_recorded_def sample_held_def sample_queued_def
      sample_volume_def new_volume_def lookup_row_def exists_row_def)
  have "decimal_text 0 = ''0''" by code_simp
  then have key: "content_key sample_delta = Some (''assistant.delta:00000000-0000-4000-8000-0000000000e9:0'',
      AssistantDeltaPayload ''00000000-0000-4000-8000-0000000000e9'' 0 sample_content)"
    by (simp add: sample_delta_def)
  have rec: "recorded_hash (ref_attempt sample_ref) ''assistant.delta:00000000-0000-4000-8000-0000000000e9:0'' (events sample_recorded) =
      Some (Some ''other'')"
    by (simp add: recorded_hash_def sample_recorded_def sample_ref_def)
  have "ActiveAttemptID (node_state sample_recorded) = Some (ref_attempt sample_ref)"
    by (simp add: sample_recorded_def sample_held_def sample_ref_def)
  from recorded_event_changes_nothing [OF a(1) this _ _ key rec, where r = "fst ?run" and db' = "snd ?run" and H = sample_hash
      and e = sample_io and x = sample_text and ref' = sample_ref] a(2)
  show ?thesis by (auto simp: adapterProjectionHash_def sample_hash_def is_ok_def numeral_eq_Suc split: sum.splits)
qed

end
