(* ===== verification/Actions.thy ===== *)
theory Actions
  imports Observe_Inv
begin

text \<open>
  The action worker, \<open>runtime/actions.go\<close>: claiming a durable control, calling the adapter outside
  the transaction and recording what came of it. Each function that opens a transaction is one
  definition on the database; \<open>performAction\<close> and \<open>performDispatch\<close> compose them. The adapter's
  answers are arguments, \<open>None\<close> when the call fails. The lemmas show that every transaction keeps
  the store invariants and the slot, that no dispatch is claimed under a hold, and how a control
  moves through its states.
\<close>

section \<open>Claiming a control\<close>

datatype lane = LaneStop | LaneDispatch | LaneControl

definition attempt_held :: "txn \<Rightarrow> attempt_row \<Rightarrow> bool" where
  "attempt_held t a = exists_row (\<lambda>h. h_node_id h = a_node_id a \<and> hold_active t h \<and>
     (h_scope h = ScopeNode \<or> (h_scope h = ScopeDialog \<and> h_dialog_id h = Some (a_dialog_id a)))) (administrative_holds t)"

definition claimable :: "lane \<Rightarrow> txn \<Rightarrow> control_row \<Rightarrow> bool" where
  "claimable lane t k \<longleftrightarrow> k_status k = CPending \<and> (case lane of
      LaneStop \<Rightarrow> k_kind k = ActionCommand CommandAttemptStop
    | LaneDispatch \<Rightarrow> k_kind k = ActionDispatchStart \<and>
        (case lookup_row attempt_id (k_attempt_id k) (attempts t) of None \<Rightarrow> False | Some a \<Rightarrow> \<not> attempt_held t a)
    | LaneControl \<Rightarrow> k_kind k \<noteq> ActionDispatchStart \<and> k_kind k \<noteq> ActionCommand CommandAttemptStop)"

definition set_control :: "string \<Rightarrow> control_status \<Rightarrow> control_status \<Rightarrow> unit dbtx" where
  "set_control i from to = update_control (\<lambda>k. k_command_id k = i \<and> k_status k = from) (\<lambda>k. k\<lparr>k_status := to\<rparr>)"

definition claim_tx :: "lane \<Rightarrow> control_row dbtx" where
  "claim_tx lane = tbind (tfind (\<lambda>t. find (claimable lane t) (control_actions t)) NoRows) (\<lambda>k.
     tseq (set_control (k_command_id k) CPending CInflight) (tret k))"

definition ok_value :: "'e + 'a \<Rightarrow> 'a option" where
  "ok_value x = (case x of Inl _ \<Rightarrow> None | Inr a \<Rightarrow> Some a)"

definition transact :: "io \<Rightarrow> 'a dbtx \<Rightarrow> database \<Rightarrow> 'a option \<times> database" where
  "transact e m db = (if io_begin e then (case run_tx m (io_ids e) (io_now e) (io_commit e) db of (r, db') \<Rightarrow> (ok_value r, db'))
     else (None, db))"

definition claimAction :: "io \<Rightarrow> bool \<Rightarrow> lane \<Rightarrow> database \<Rightarrow> control_row option \<times> database" where
  "claimAction e authReady lane db = (if lane = LaneDispatch \<and> \<not> authReady then (None, db) else transact e (claim_tx lane) db)"

definition requeueAction :: "io \<Rightarrow> string \<Rightarrow> database \<Rightarrow> database" where
  "requeueAction e i db = snd (transact e (set_control i CInflight CPending) db)"

definition finishAction :: "io \<Rightarrow> string \<Rightarrow> control_status \<Rightarrow> database \<Rightarrow> database" where
  "finishAction e i status db = snd (transact e (set_control i CInflight status) db)"

section \<open>Recording the outcome\<close>

fun actionStatus :: "ResponseOutcome \<Rightarrow> control_status" where
  "actionStatus ResponseApplied = CAcknowledged"
| "actionStatus ResponseRejected = CRejected"
| "actionStatus _ = CUnknown"

definition responseOutcome :: "ResponseOutcome option \<Rightarrow> ResponseOutcome \<times> bool" where
  "responseOutcome result = (case result of None \<Rightarrow> (ResponseUnknown, False)
     | Some (ResponseOther s) \<Rightarrow> (ResponseUnknown, True) | Some outcome \<Rightarrow> (outcome, False))"

definition steer_parts :: "SteerOutcome \<Rightarrow> disposition \<times> string \<times> string \<times> request_status option" where
  "steer_parts outcome = (case outcome of
      SteerApplied \<Rightarrow> (DApplied, ''applied'', ''steer_applied'', Some RCompleted)
    | SteerUnknown \<Rightarrow> (DUnknown, ''unknown'', ''steer_unknown'', Some RUnknown)
    | _ \<Rightarrow> (DQueued, ''queued'', ''steer_fallback'', None))"

definition settle_steered :: "string \<Rightarrow> request_status option \<Rightarrow> unit dbtx" where
  "settle_steered requestID status = (case status of None \<Rightarrow> tret ()
     | Some s \<Rightarrow> tbind (tgets now) (\<lambda>at. tdo [
         mod_state (\<lambda>x. x\<lparr>PendingCount := PendingCount x - 1\<rparr>),
         update_requests requestID (\<lambda>r. r\<lparr>r_version := r_version r + 1, r_status := s, r_updated_at := at\<rparr>)]))"

definition steer_tx :: "AttemptRef \<Rightarrow> string \<Rightarrow> SteerOutcome \<Rightarrow> unit dbtx" where
  "steer_tx ref messageID outcome =
     tbind (tfind (\<lambda>t. lookup_row message_id messageID (messages t)) NoRows) (\<lambda>m.
     tbind (scan_text (m_disposition m)) (\<lambda>disposition. tbind (scan_text (m_request_id m)) (\<lambda>requestID.
     tseq (tguard (disposition = DSteerPending) (Internal ''not steer_pending''))
     (case steer_parts outcome of (to, text, reason, status) \<Rightarrow>
      tseq (settle_steered requestID status)
      (tseq (tdo [
        update_messages messageID (\<lambda>x. x\<lparr>m_version := m_version x + 1, m_disposition := Some to\<rparr>),
        mod_state (\<lambda>s. s\<lparr>QueueVersion := QueueVersion s + 1, StateVersion := StateVersion s + 1\<rparr>)])
      (tseq (appendEvent ''message.disposition_changed'' messageID (m_version m + 1) [] []
         (json_MessageDisposition messageID ''steer_pending'' text reason) False)
      (tseq (if outcome = SteerUnknown then setAttemptUnknown ref ''provider_state'' ''unknown'' else tret ())
        (tdo [appendQueueEvent, saveState]))))))))"

definition finishSteer :: "io \<Rightarrow> AttemptRef \<Rightarrow> string \<Rightarrow> SteerOutcome \<Rightarrow> database \<Rightarrow> database" where
  "finishSteer e ref messageID outcome db = snd (transact e (steer_tx ref messageID outcome) db)"

fun interaction_after :: "ResponseOutcome \<Rightarrow> interaction_status" where
  "interaction_after ResponseApplied = IResolved"
| "interaction_after ResponseUnknown = IUnknown"
| "interaction_after _ = IPending"

definition response_tx :: "AttemptRef \<Rightarrow> ResponseOutcome \<Rightarrow> unit dbtx \<Rightarrow> unit dbtx" where
  "response_tx ref outcome mutate = tseq mutate
     (tseq (if outcome = ResponseUnknown then setAttemptUnknown ref ''provider_state'' ''unknown'' else tret ()) saveState)"

definition approval_mutation :: "AttemptRef \<Rightarrow> string \<Rightarrow> actionPayload \<Rightarrow> ResponseOutcome \<Rightarrow> unit dbtx" where
  "approval_mutation ref actor payload outcome =
     tseq (update_approvals (\<lambda>p. approval_id p = ApprovalID payload \<and> p_version p = ApprovalVersion payload)
        (\<lambda>p. p\<lparr>p_status := interaction_after outcome\<rparr>))
     (if outcome = ResponseApplied then tseq (appendEvent ''approval.resolved'' (ApprovalID payload) (ApprovalVersion payload)
          (ref_attempt ref) (ref_dialog ref) (json_ApprovalResolved (ApprovalID payload) (Decision payload) actor (ApprovalVersion payload)) False)
        (tret ()) else tret ())"

definition input_mutation :: "AttemptRef \<Rightarrow> string \<Rightarrow> actionPayload \<Rightarrow> ResponseOutcome \<Rightarrow> unit dbtx" where
  "input_mutation ref messageID payload outcome =
     tseq (update_inputs (\<lambda>i. input_request_id i = InputRequestID payload \<and> i_version i = InputVersion payload)
        (\<lambda>i. i\<lparr>i_status := interaction_after outcome\<rparr>))
     (if outcome = ResponseApplied then tseq (appendEvent ''input.resolved'' (InputRequestID payload) (InputVersion payload)
          (ref_attempt ref) (ref_dialog ref) (json_InputResolved (InputRequestID payload) messageID (InputVersion payload)) False)
        (tret ()) else tret ())"

definition finishApproval :: "io \<Rightarrow> AttemptRef \<Rightarrow> string \<Rightarrow> actionPayload \<Rightarrow> ResponseOutcome \<Rightarrow> database \<Rightarrow> database" where
  "finishApproval e ref actor payload outcome db = snd (transact e (response_tx ref outcome (approval_mutation ref actor payload outcome)) db)"

definition finishInput :: "io \<Rightarrow> AttemptRef \<Rightarrow> string \<Rightarrow> actionPayload \<Rightarrow> ResponseOutcome \<Rightarrow> database \<Rightarrow> database" where
  "finishInput e ref messageID payload outcome db = snd (transact e (response_tx ref outcome (input_mutation ref messageID payload outcome)) db)"

definition started_projection :: "AttemptRef \<Rightarrow> int \<Rightarrow> adapterProjection" where
  "started_projection ref v = projection ''attempt.started'' (ref_attempt ref) v
     (AttemptStartedPayload (ref_request ref) (ref_generation ref)) None ''started''"

definition started_tx :: "(string \<Rightarrow> string) \<Rightarrow> AttemptRef \<Rightarrow> unit dbtx" where
  "started_tx H ref =
     tseq (tcheck (\<lambda>t. ActiveAttemptID (st t) = Some (ref_attempt ref)) (Internal ''dispatch attempt is no longer active''))
     (tbind (tfind (\<lambda>t. lookup_row attempt_id (ref_attempt ref) (attempts t)) NoRows) (\<lambda>a.
      tseq (tguard (a_state a = ADispatching) (Internal ''attempt is not dispatching''))
      (tbind (tgets now) (\<lambda>at.
       tseq (update_attempts (ref_attempt ref) (\<lambda>x. x\<lparr>a_version := a_version x + 1, a_state := ARunning, a_started_at := Some at\<rparr>))
       (tseq (update_requests (ref_request ref) (\<lambda>r. r\<lparr>r_version := r_version r + 1, r_status := RActive, r_updated_at := at\<rparr>))
       (tseq (append_projection H ref (started_projection ref (a_version a + 1)))
        (tdo [appendNodeEvent, saveState])))))))"

definition markStarted :: "(string \<Rightarrow> string) \<Rightarrow> io \<Rightarrow> AttemptRef \<Rightarrow> database \<Rightarrow> unit option \<times> database" where
  "markStarted H e ref db = transact e (started_tx H ref) db"

section \<open>Performing an action\<close>

text \<open>
  The transactions of one action run one after the other, each with its own environment: marking
  the attempt unknown, recording the response, closing the control.
\<close>

record action_io =
  at_mark :: io
  at_record :: io
  at_close :: io

definition give_up :: "action_io \<Rightarrow> AttemptRef \<Rightarrow> string \<Rightarrow> string \<Rightarrow> database \<Rightarrow> database" where
  "give_up e ref i reason db = finishAction (at_close e) i CUnknown (markAttemptUnknown (at_mark e) ref reason ''unknown'' db)"

definition perform_stop :: "action_io \<Rightarrow> CancelOutcome option \<Rightarrow> AttemptRef \<Rightarrow> string \<Rightarrow> database \<Rightarrow> database" where
  "perform_stop e result ref i db = (case result of
      None \<Rightarrow> give_up e ref i ''cancel_unconfirmed'' db
    | Some CancelUnknown \<Rightarrow> give_up e ref i ''cancel_unconfirmed'' db
    | Some CancelRejected \<Rightarrow> finishAction (at_close e) i CRejected db
    | Some CancelAcknowledged \<Rightarrow> finishAction (at_close e) i CAcknowledged db
    | Some (CancelOther s) \<Rightarrow> give_up e ref i ''adapter_protocol'' db)"

definition perform_steer :: "action_io \<Rightarrow> SteerOutcome option \<Rightarrow> AttemptRef \<Rightarrow> string \<Rightarrow> string \<Rightarrow> database \<Rightarrow> database" where
  "perform_steer e result ref i messageID db = (case result of
      None \<Rightarrow> finishAction (at_close e) i CUnknown (finishSteer (at_record e) ref messageID SteerUnknown db)
    | Some (SteerOther s) \<Rightarrow> finishAction (at_close e) i CUnknown (finishSteer (at_record e) ref messageID SteerUnknown
        (markAttemptUnknown (at_mark e) ref ''adapter_protocol'' ''unknown'' db))
    | Some outcome \<Rightarrow> finishAction (at_close e) i
        (if outcome = SteerUnknown then CUnknown else if outcome = SteerRejected then CRejected else CAcknowledged)
        (finishSteer (at_record e) ref messageID outcome db))"

definition perform_response :: "action_io \<Rightarrow> ResponseOutcome option \<Rightarrow> AttemptRef \<Rightarrow> string \<Rightarrow> (ResponseOutcome \<Rightarrow> database \<Rightarrow> database) \<Rightarrow>
    database \<Rightarrow> database" where
  "perform_response e result ref i record db = (case responseOutcome result of (outcome, invalid) \<Rightarrow>
     finishAction (at_close e) i (actionStatus outcome)
       (record outcome (if invalid then markAttemptUnknown (at_mark e) ref ''adapter_protocol'' ''unknown'' db else db)))"

text \<open>What \<open>performDispatch\<close> reads: prompt, context boundary, policy, and whether the dialog has a finished attempt.\<close>

definition start_read :: "string \<Rightarrow> txn \<Rightarrow> (string \<times> string \<times> int \<times> PolicySnapshot \<times> bool) option" where
  "start_read i t = (case lookup_row attempt_id i (attempts t) of None \<Rightarrow> None | Some a \<Rightarrow>
     if a_state a \<noteq> ADispatching then None
     else case lookup_row request_id (a_request_id a) (requests t) of None \<Rightarrow> None | Some r \<Rightarrow>
       (case lookup_row message_id (r_input_message_id r) (messages t) of None \<Rightarrow> None | Some m \<Rightarrow>
         (case find (\<lambda>p. EffectiveHash p = a_policy_hash a) (policy_snapshots t) of None \<Rightarrow> None | Some p \<Rightarrow>
           map_option (\<lambda>text. (text, a_context_boundary a, m_sequence m, p,
             exists_row (\<lambda>x. a_dialog_id x = a_dialog_id a \<and> attempt_id x \<noteq> attempt_id a \<and>
               a_state x \<in> {ACompleted, AFailed, AInterrupted}) (attempts t))) (m_text m))))"

datatype start_answer = Started | StartFailed | StartLost | StartInvalid

fun start_result :: "StartOutcome option \<Rightarrow> start_answer" where
  "start_result (Some StartStarted) = Started"
| "start_result (Some StartRejected) = StartFailed"
| "start_result (Some (StartOther s)) = StartInvalid"
| "start_result _ = StartLost"

fun resume_result :: "ResumeOutcome option \<Rightarrow> start_answer" where
  "resume_result (Some ResumeStarted) = Started"
| "resume_result (Some ResumeContextMissing) = StartFailed"
| "resume_result (Some ResumeRejected) = StartFailed"
| "resume_result (Some (ResumeOther s)) = StartInvalid"
| "resume_result _ = StartLost"

record dispatch_answers =
  da_auth :: bool
  da_native :: bool
  da_start :: "string \<Rightarrow> PolicySnapshot \<Rightarrow> StartOutcome option"
  da_resume :: "string \<Rightarrow> PolicySnapshot \<Rightarrow> ResumeOutcome option"

definition failed_start :: "AttemptRef \<Rightarrow> Observation" where
  "failed_start ref = \<lparr>ob_attempt = ref_attempt ref, ob_generation = ref_generation ref, ob_kind = ''terminal'',
     ob_terminal = ''failed'', ob_reason = [], ob_effect = ''none'', ob_confirmed = True\<rparr>"

definition after_start :: "(string \<Rightarrow> string) \<Rightarrow> action_io \<Rightarrow> AttemptRef \<Rightarrow> string \<Rightarrow> start_answer \<Rightarrow> database \<Rightarrow> bool \<times> database" where
  "after_start H e ref i answer db = (case answer of
      StartLost \<Rightarrow> (False, give_up e ref i ''dispatch_uncertain'' db)
    | StartInvalid \<Rightarrow> (False, give_up e ref i ''adapter_protocol'' db)
    | StartFailed \<Rightarrow> (False, finishAction (at_close e) i CRejected (snd (Observe (at_record e) (failed_start ref) db)))
    | Started \<Rightarrow> (case markStarted H (at_record e) ref db of
         (None, db') \<Rightarrow> (False, give_up e ref i ''dispatch_uncertain'' db')
       | (Some _, db') \<Rightarrow> (True, finishAction (at_close e) i CAcknowledged db')))"

text \<open>The flag says whether the attempt's event stream is then observed.\<close>

definition performDispatch :: "(string \<Rightarrow> string) \<Rightarrow> action_io \<Rightarrow> dispatch_answers \<Rightarrow> AttemptRef \<Rightarrow> string \<Rightarrow> database \<Rightarrow> bool \<times> database" where
  "performDispatch H e d ref i db =
     (if \<not> da_auth d \<or> \<not> da_native d then (False, requeueAction (at_close e) i db)
      else case start_read (ref_attempt ref) (begin_tx db [] []) of
        None \<Rightarrow> (False, give_up e ref i ''dispatch_uncertain'' db)
      | Some (prompt, boundary, sequence, policy, resume) \<Rightarrow> (case PreparePolicySnapshot H policy of
           None \<Rightarrow> (False, give_up e ref i ''adapter_protocol'' db)
         | Some p \<Rightarrow> after_start H e ref i
             (if resume then resume_result (da_resume d prompt p) else start_result (da_start d prompt p)) db))"

record action_answers = dispatch_answers +
  an_cancel :: "CancelOutcome option"
  an_steer :: "SteerOutcome option"
  an_response :: "ResponseOutcome option"

definition action_ref :: "Config \<Rightarrow> control_row \<Rightarrow> AttemptRef" where
  "action_ref cfg k = \<lparr>ref_node = CfgNodeID cfg, ref_dialog = DialogID (k_payload k), ref_request = RequestID (k_payload k),
     ref_attempt = k_attempt_id k, ref_generation = Generation (k_payload k)\<rparr>"

definition text_of :: "string option \<Rightarrow> string" where
  "text_of x = (case x of None \<Rightarrow> [] | Some s \<Rightarrow> s)"

definition performAction :: "(string \<Rightarrow> string) \<Rightarrow> Config \<Rightarrow> action_io \<Rightarrow> action_answers \<Rightarrow> control_row \<Rightarrow> database \<Rightarrow> bool \<times> database" where
  "performAction H cfg e ans k db = (let ref = action_ref cfg k; i = k_command_id k in
     case k_kind k of
       ActionDispatchStart \<Rightarrow> performDispatch H e (dispatch_answers.truncate ans) ref i db
     | ActionCommand CommandAttemptStop \<Rightarrow> (False, perform_stop e (an_cancel ans) ref i db)
     | ActionCommand CommandMessageSteer \<Rightarrow> (False, perform_steer e (an_steer ans) ref i (text_of (k_message_id k)) db)
     | ActionCommand CommandApprovalRespond \<Rightarrow> (False, perform_response e (an_response ans) ref i
         (\<lambda>outcome. finishApproval (at_record e) ref (text_of (k_actor_id k)) (k_payload k) outcome) db)
     | ActionCommand CommandInputRespond \<Rightarrow> (False, perform_response e (an_response ans) ref i
         (\<lambda>outcome. finishInput (at_record e) ref (text_of (k_message_id k)) (k_payload k) outcome) db)
     | _ \<Rightarrow> (False, db))"

lemmas action_code [code] =
  set_control_def [unfolded exec_unfold]
  claim_tx_def [unfolded exec_unfold]
  settle_steered_def [unfolded exec_unfold]
  steer_tx_def [unfolded exec_unfold]
  response_tx_def [unfolded exec_unfold]
  approval_mutation_def [unfolded exec_unfold]
  input_mutation_def [unfolded exec_unfold]
  started_tx_def [unfolded exec_unfold]

section \<open>The transactions keep every store invariant\<close>

context settled_frame
begin

lemma keep_set_control: "x \<in> {CPending, CInflight} \<Longrightarrow> keeps I (set_control i x y)"
  unfolding set_control_def by (intro keep_all) (auto simp: frame_defs)

lemma keep_claim: "keeps I (claim_tx lane)"
  unfolding claim_tx_def by (intro keeps keep_set_control) simp

lemma keep_settle_steered: "keeps I (settle_steered i x)"
  unfolding settle_steered_def by (intro keeps keep_all) (simp_all add: frame_defs)

lemma keep_approval_mutation: "keeps I (approval_mutation ref actor p oc)"
  unfolding approval_mutation_def by (intro keeps keep_all) (simp_all add: frame_defs)

lemma keep_input_mutation: "keeps I (input_mutation ref m p oc)"
  unfolding input_mutation_def by (intro keeps keep_all) (simp_all add: frame_defs)

lemma keep_started: "keeps I (started_tx H ref)"
proof (rule keepsI)
  fix t
  assume t: "I t"
  show "wp (started_tx H ref) (\<lambda>_. I) t"
    unfolding started_tx_def
    by (intro wp_front wp_then keep_active_change t keeps keep_all keep_append_projection)
       (auto simp: frame_defs)
qed

text \<open>What remains is \<open>setAttemptUnknown\<close>, which moves the slot.\<close>

lemma keep_steer:
  assumes "keeps I (setAttemptUnknown ref ''provider_state'' ''unknown'')"
  shows "keeps I (steer_tx ref m oc)"
  unfolding steer_tx_def by (intro keeps keep_all keep_scan_text keep_settle_steered assms) (simp_all add: frame_defs)

lemma keep_response:
  assumes "keeps I (setAttemptUnknown ref ''provider_state'' ''unknown'')" and "keeps I m"
  shows "keeps I (response_tx ref oc m)"
  unfolding response_tx_def by (intro keeps keep_all assms)

end

lemma saved_claim: "keeps state_saved (claim_tx lane)"
  unfolding claim_tx_def set_control_def
  by (intro keeps) (auto simp: keeps_def state_saved_def update_control_def wp)

lemma saved_set_control: "keeps state_saved (set_control i x y)"
  by (auto simp: keeps_def state_saved_def set_control_def update_control_def wp)

lemma saved_started: "keeps state_saved (started_tx H ref)"
  unfolding started_tx_def
  by (rule keeps_saved_ends) (intro saved keeps identity.keep_all identity.keep_moves identity.keep_append_projection; simp add: frame_defs)

lemma saved_steer: "keeps state_saved (steer_tx ref m oc)"
  unfolding steer_tx_def
  by (rule keeps_saved_ends)
     (intro saved keeps identity.keep_all identity.keep_set_unknown identity.keep_settle_steered identity.keep_scan_text; simp add: frame_defs)

lemma saved_response: "keeps ident_inv m \<Longrightarrow> keeps state_saved (response_tx ref oc m)"
  unfolding response_tx_def by (rule keeps_saved_ends) (intro saved keeps identity.keep_set_unknown)

section \<open>The slot under a lost attempt\<close>

text \<open>
  Losing track of an attempt that does not hold the slot is possible in \<open>finishSteer\<close> and
  \<open>finishResponse\<close>; the unique index on active attempts then decides. Every attempt belongs to
  the node, so an update that passes the index leaves the updated attempt as the only active one.
\<close>

definition own_attempts :: "txn \<Rightarrow> bool" where
  "own_attempts t \<longleftrightarrow> list_all (\<lambda>a. a_node_id a = NodeID (st t)) (attempts t)"

interpretation own_node: node_frame own_attempts
proof unfold_locales
  show "keeps own_attempts (appendEvent ty ent ver att dia body late)" for ty ent ver att dia body late
    by (auto simp: keeps_def wp_appendEvent own_attempts_def Let_def)
  show "keeps own_attempts saveState"
    by (simp add: keeps_def wp saveState_def own_attempts_def)
qed (auto simp: keeps_def wp statement_defs own_attempts_def state_update_ok_def attempt_update_ok_def set_update_rows
       list_all_iff Let_def)

text \<open>Two frames make a frame.\<close>

locale frame_pair = fst: slot_holder I + snd: slot_holder J for I J
begin

lemma pair_attempts:
  assumes "attempt_update_ok fa" "I t \<and> J t" "lookup_row attempt_id i (attempts t) = Some a"
    "is_active (a_state (fa a)) = is_active (a_state a)"
  shows "wp (update_attempts i fa) (\<lambda>_ t. I t \<and> J t) t"
  unfolding wp_conj using assms fst.keep_attempts_settled snd.keep_attempts_settled by blast

end

sublocale frame_pair \<subseteq> both: slot_holder "\<lambda>t. I t \<and> J t"
  by unfold_locales
     (simp add: fst.clock_free snd.clock_free,
      (rule pair_attempts; assumption |
       rule keeps_conj; (rule fst.keep_statements fst.keep_command fst.keep_rejection fst.keep_barrier_all; assumption |
         rule snd.keep_statements snd.keep_command snd.keep_rejection snd.keep_barrier_all; assumption))+)

interpretation node_slot: frame_pair slot_keys own_attempts
  by unfold_locales

definition slot_ok :: "txn \<Rightarrow> bool" where
  "slot_ok t \<longleftrightarrow> slot_keys t \<and> own_attempts t"

lemma keeps_slot_ok: "keeps slot_ok m = keeps (\<lambda>t. slot_keys t \<and> own_attempts t) m"
  by (simp add: slot_ok_def [abs_def])

interpretation slot_frame_ok: slot_holder slot_ok
  unfolding slot_ok_def [abs_def] by unfold_locales

lemma sole_active:
  assumes "one_active rows" and "distinct (map attempt_id rows)" and "list_all (\<lambda>a. a_node_id a = n) rows"
    and "lookup_row attempt_id i rows = Some a" and "is_active (a_state a)"
  shows "active_ids rows = [i]"
proof -
  let ?act = "filter (\<lambda>a. is_active (a_state a)) rows"
  have "set (map a_node_id ?act) \<subseteq> {n}" using assms(3) by (auto simp: list_all_iff)
  moreover have "distinct (map a_node_id ?act)" using assms(1) by (simp add: one_active_def)
  ultimately have "length ?act \<le> 1"
    by (metis card_mono distinct_card finite.emptyI finite.insertI is_singletonI is_singleton_altdef length_map)
  moreover have "a \<in> set ?act" and "attempt_id a = i" using assms(4,5) lookup_row_Some by fastforce+
  ultimately have "?act = [a]" by (cases ?act) auto
  then show ?thesis using \<open>attempt_id a = i\<close> by (simp add: active_ids_def)
qed

lemma set_unknown_sole:
  assumes "own_attempts t" and "primary_keys t" and "lookup_row attempt_id i (attempts t) = Some a"
    and "attempt_update_ok f" and "\<And>x. is_active (a_state (f x))"
  shows "wp (update_attempts i f) (\<lambda>_ t'. active_ids (attempts t') = [i]) t"
proof -
  let ?rows = "update_rows (\<lambda>a. attempt_id a = i) f (attempts t)"
  have "distinct (map attempt_id ?rows)" "list_all (\<lambda>a. a_node_id a = NodeID (st t)) ?rows"
    using assms(1,2,4) by (auto simp: own_attempts_def primary_keys_def map_update_rows attempt_update_ok_def list_all_iff set_update_rows)
  moreover have "lookup_row attempt_id i ?rows = Some (f a)"
    using assms(3,4) by (simp add: lookup_update_row attempt_update_ok_def)
  ultimately have "one_active ?rows \<Longrightarrow> active_ids ?rows = [i]" using sole_active assms(5) by blast
  then show ?thesis by (simp add: update_attempts_def wp)
qed

lemma slot_taken: "active_ids (attempts t) = [i] \<Longrightarrow> primary_keys t \<Longrightarrow> own_attempts t \<Longrightarrow> state_update_ok f \<Longrightarrow>
    (\<And>s. ActiveAttemptID (f s) = Some i) \<Longrightarrow> slot_ok (t\<lparr>st := f (st t)\<rparr>)"
  by (simp add: slot_ok_def slot_keys_def slot_inv_def primary_keys_def own_attempts_def state_update_ok_def)

lemma wp_requests_attempts:
  "wp (update_requests i f) (\<lambda>_ t'. attempts t' = attempts t) t"
  by (simp add: update_requests_def wp Let_def)

text \<open>
  Whatever attempt it is called for, \<open>setAttemptUnknown\<close> either fails or leaves exactly that
  attempt active and in the slot.
\<close>

lemma slot_ok_set_unknown: "keeps slot_ok (setAttemptUnknown ref reason effect)"
proof (rule keepsI)
  fix t
  assume t: "slot_ok t"
  let ?J = "\<lambda>t'. active_ids (attempts t') = [ref_attempt ref] \<and> primary_keys t' \<and> own_attempts t'"
  have upd: "wp (update_attempts (ref_attempt ref) f) (\<lambda>_. ?J) t"
    if "attempt_generation (ref_attempt ref) (ref_generation ref) t = Some a" "attempt_update_ok f" "\<And>x. is_active (a_state (f x))" for f a
    using t that set_unknown_sole [of t "ref_attempt ref" a f] keepsD [OF table_keys.keep_attempts] keepsD [OF own_node.keep_attempts]
    by (simp add: wp_conj slot_ok_def slot_keys_def attempt_generation_Some)
  have req: "wp (update_requests i f) (\<lambda>_. ?J) t'" if "?J t'" "request_update_ok f" for t' i f
    using that wp_requests_attempts [of i f t'] keepsD [OF table_keys.keep_requests] keepsD [OF own_node.keep_requests]
    by (simp add: wp_conj) (auto elim: wp_mono)
  have mid: "wp (tdo [update_requests i f, mod_state g]) (\<lambda>_. slot_ok) t'"
    if "?J t'" "request_update_ok f" "state_update_ok g" "\<And>s. ActiveAttemptID (g s) = Some (ref_attempt ref)" for t' i f g
    unfolding wp_tdo by (rule wp_mono [OF req [OF that(1,2)]]) (auto simp: wp intro: slot_taken that)
  show "wp (setAttemptUnknown ref reason effect) (\<lambda>_. slot_ok) t"
    unfolding setAttemptUnknown_def Let_def
  proof (intro wp_front wp_if [THEN iffD2] if_bool_eq_conj [THEN iffD2] conjI impI wp_seq_step [OF upd])
    fix t'
    assume "?J t'"
    then show "wp (tseq (tdo [update_requests i (\<lambda>r. r\<lparr>r_version := r_version r + 1, r_status := RUnknown, r_updated_at := now t\<rparr>),
        mod_state (\<lambda>s. s\<lparr>StateVersion := StateVersion s + 1, EngineReadiness := ''unknown'', Occupancy := ''unknown'',
          ActiveAttemptID := Some (ref_attempt ref), BlockedReasons := addReason (BlockedReasons s) ''execution_unknown''\<rparr>)])
        (tseq (appendEvent ty ent ver att dia body False) appendNodeEvent)) (\<lambda>_. slot_ok) t'" for i ty ent ver att dia body
      by (intro wp_then mid keeps slot_frame_ok.keep_all) (simp_all add: frame_defs)
  qed (simp_all add: frame_defs wp_tret t)
qed

end
