(* ===== verification/Fence.thy ===== *)
theory Fence
  imports Actions
begin

text \<open>
  The administrative fence: no hold ever covers an attempt whose start the adapter is still owed.
  Dispatch takes only requests that no hold covers, installing a hold is refused while a start in
  its scope is pending or in flight, and nothing else creates a start or puts an attempt back into
  the dispatching state. The invariant is interpreted against the frame of every other statement;
  the two operations that could break it, dispatch and installation, are proved here.
\<close>

section \<open>The invariant\<close>

definition clear_start :: "string \<Rightarrow> txn \<Rightarrow> bool" where
  "clear_start i t = (case lookup_row attempt_id i (attempts t) of None \<Rightarrow> False
     | Some a \<Rightarrow> a_state a = ADispatching \<longrightarrow> \<not> attempt_held t a)"

definition fresh_attempts :: "txn \<Rightarrow> bool" where
  "fresh_attempts t \<longleftrightarrow> list_all (\<lambda>a. a_state a = ADispatching \<longrightarrow> a_started_at a = None) (attempts t)"

text \<open>The first argument lists attempts whose start is about to be enqueued.\<close>

definition start_fence :: "string list \<Rightarrow> txn \<Rightarrow> bool" where
  "start_fence ids t \<longleftrightarrow> list_all (\<lambda>i. clear_start i t) ids \<and>
     list_all (\<lambda>k. starting k \<longrightarrow> clear_start (k_attempt_id k) t) (control_actions t) \<and> fresh_attempts t"

lemma attempt_held_cong:
  "administrative_holds t' = administrative_holds t \<Longrightarrow> hold_outcomes t' = hold_outcomes t \<Longrightarrow> attempt_held t' a = attempt_held t a"
  by (simp add: attempt_held_def hold_active_def)

text \<open>What the fence depends on.\<close>

lemma clear_start_cong:
  "attempts t' = attempts t \<Longrightarrow> administrative_holds t' = administrative_holds t \<Longrightarrow> hold_outcomes t' = hold_outcomes t \<Longrightarrow>
     clear_start i t' = clear_start i t"
  by (simp add: clear_start_def attempt_held_cong [of t' t] split: option.split)

lemma start_fence_cong:
  assumes "attempts t' = attempts t" "control_actions t' = control_actions t" "administrative_holds t' = administrative_holds t"
    "hold_outcomes t' = hold_outcomes t"
  shows "start_fence ids t' = start_fence ids t"
  by (simp add: start_fence_def fresh_attempts_def clear_start_cong [OF assms(1,3,4)] assms(1,2))

lemma clear_start_attempts:
  assumes "attempt_update_ok f" and "clear_start j t"
  shows "clear_start j (t\<lparr>attempts := update_rows (\<lambda>a. attempt_id a = i) f (attempts t), quiescence := q\<rparr>)"
  using assms
  by (auto simp: clear_start_def attempt_update_ok_def lookup_update_row attempt_held_def hold_active_def split: option.splits)

lemma fresh_attempts_update:
  assumes "attempt_update_ok f" and "fresh_attempts t"
  shows "fresh_attempts (t\<lparr>attempts := update_rows (\<lambda>a. attempt_id a = i) f (attempts t), quiescence := q\<rparr>)"
  using assms by (auto simp: fresh_attempts_def attempt_update_ok_def list_all_iff set_update_rows)

lemma clear_start_insert:
  "clear_start j t \<Longrightarrow> clear_start j (t\<lparr>attempts := attempts t @ [a], quiescence := q\<rparr>)"
  by (auto simp: clear_start_def lookup_append_row attempt_held_def hold_active_def split: option.splits)

lemma clear_start_outcome:
  "clear_start j t \<Longrightarrow> clear_start j (t\<lparr>hold_outcomes := hold_outcomes t @ [x], quiescence := q\<rparr>)"
  by (auto simp: clear_start_def attempt_held_def hold_active_def exists_row_def split: option.splits)

lemma start_fence_controls:
  assumes "control_update_ok f" "open_only P" "start_fence ids t"
  shows "start_fence ids (t\<lparr>control_actions := update_rows P f (control_actions t), quiescence := q\<rparr>)"
proof -
  let ?t = "t\<lparr>control_actions := update_rows P f (control_actions t), quiescence := q\<rparr>"
  have c: "clear_start j ?t = clear_start j t" for j by (rule clear_start_cong) simp_all
  have "list_all (\<lambda>k. starting k \<longrightarrow> clear_start (k_attempt_id k) t) (update_rows P f (control_actions t))"
    using assms by (auto simp: list_all_iff set_update_rows control_update_ok_def open_only_def starting_def start_fence_def)
  then show ?thesis using assms(3) by (simp add: start_fence_def c fresh_attempts_def)
qed

locale fence_frame = slot_mover + admission_frame + release_frame

interpretation fence: fence_frame "start_fence ids" for ids
proof unfold_locales
  show "keeps (start_fence ids) (appendEvent ty ent ver att dia body late)" for ty ent ver att dia body late
    by (auto simp: keeps_def wp_appendEvent Let_def elim!: start_fence_cong [THEN iffD1, rotated -1])
  show "keeps (start_fence ids) saveState"
    by (simp add: keeps_def wp saveState_def start_fence_cong [of "_\<lparr>node_state := _, quiescence := _\<rparr>"])
  show upd: "keeps (start_fence ids) (update_attempts i fa)" if "attempt_update_ok fa" for i fa
    using that by (auto simp: keeps_def wp update_attempts_def Let_def start_fence_def list_all_iff clear_start_attempts fresh_attempts_update)
  show "wp (update_attempts i fa) (\<lambda>_. start_fence ids) t" if "attempt_update_ok fa" "start_fence ids t" for i fa t
    using upd that by (simp add: keeps_def)
  show "keeps (start_fence ids) (insert_control k)" if "k_kind k \<noteq> ActionDispatchStart" for k
    using that by (auto simp: keeps_def wp insert_control_def start_fence_def starting_def fresh_attempts_def list_all_iff
        clear_start_cong [of "_\<lparr>control_actions := _, quiescence := _\<rparr>"])
  show "keeps (start_fence ids) (update_control Pk fk)" if "control_update_ok fk" "open_only Pk" for Pk fk
    using that by (auto simp: keeps_def wp update_control_def start_fence_controls)
  show "keeps (start_fence ids) (insert_outcome oc)" for oc
    by (auto simp: keeps_def wp insert_outcome_def start_fence_def list_all_iff clear_start_outcome fresh_attempts_def)
qed (auto simp: keeps_def wp statement_defs Let_def elim!: start_fence_cong [THEN iffD1, rotated -1])

section \<open>Dispatch and installation\<close>

lemma fence_insert_attempt:
  assumes "start_fence [] t" and "a_started_at a = None" and "\<not> attempt_held t a"
  shows "wp (insert_attempt a) (\<lambda>_. start_fence [attempt_id a]) t"
proof -
  have "start_fence [attempt_id a] (t\<lparr>attempts := attempts t @ [a], quiescence := q\<rparr>)" if "\<not> exists_row (\<lambda>x. attempt_id x = attempt_id a) (attempts t)" for q
  proof -
    let ?t = "t\<lparr>attempts := attempts t @ [a], quiescence := q\<rparr>"
    have "lookup_row attempt_id (attempt_id a) (attempts t) = None"
      using that by (auto simp: lookup_row_None exists_row_def)
    then have "clear_start (attempt_id a) ?t"
      using assms(3) by (simp add: clear_start_def lookup_append_row attempt_held_cong [of ?t t])
    then show ?thesis
      using assms(1,2) by (auto simp: start_fence_def fresh_attempts_def list_all_iff intro: clear_start_insert)
  qed
  then show ?thesis by (simp add: insert_attempt_def wp)
qed

lemma fence_weaken: "start_fence ids t \<Longrightarrow> start_fence [] t"
  by (simp add: start_fence_def)

lemma fence_insert_start:
  assumes "start_fence [k_attempt_id k] t"
  shows "wp (insert_control k) (\<lambda>_. start_fence []) t"
  using assms
  by (auto simp: wp insert_control_def start_fence_def fresh_attempts_def list_all_iff
      clear_start_cong [of "_\<lparr>control_actions := _, quiescence := _\<rparr>"])

lemma wp_tbind_keeps: "keeps J m \<Longrightarrow> J t \<Longrightarrow> (\<And>a t'. J t' \<Longrightarrow> wp (f a) Q t') \<Longrightarrow> wp (tbind m f) Q t"
  by (auto simp: wp_tbind keeps_def intro: wp_mono)

lemma wp_tdo_keeps: "keeps J m \<Longrightarrow> J t \<Longrightarrow> (\<And>t'. J t' \<Longrightarrow> wp (tdo ms) Q t') \<Longrightarrow> wp (tdo (m # ms)) Q t"
  by (auto simp: wp_tdo keeps_def intro: wp_mono)

lemma wp_case_option:
  "(x = None \<Longrightarrow> wp m Q t) \<Longrightarrow> (\<And>a. x = Some a \<Longrightarrow> wp (f a) Q t) \<Longrightarrow> wp (case x of None \<Rightarrow> m | Some a \<Rightarrow> f a) Q t"
  by (simp split: option.split)

lemma wp_tseq_tdo: "wp m (\<lambda>_. wp (tseq (tdo ms) n) Q) t \<Longrightarrow> wp (tseq (tdo (m # ms)) n) Q t"
  unfolding wp_tseq wp_tdo .

text \<open>The state between the choice of the request and the insertion of the attempt.\<close>

definition unheld_request :: "durableState \<Rightarrow> request_row \<Rightarrow> txn \<Rightarrow> bool" where
  "unheld_request s r t \<longleftrightarrow> start_fence [] t \<and> \<not> request_held t r \<and> NodeID (st t) = NodeID s"

lemma keep_unheld_request:
  "keeps (unheld_request s r) newID" "keeps (unheld_request s r) (insert_policy p)"
  by (auto simp: keeps_def wp statement_defs unheld_request_def request_held_def hold_active_def
      elim!: start_fence_cong [THEN iffD1, rotated -1])

lemma unheld_new_attempt:
  "unheld_request s r t \<Longrightarrow> \<not> attempt_held t (new_attempt i r g p s)"
  by (auto simp: unheld_request_def request_held_def attempt_held_def new_attempt_def)

lemma fence_dispatch_commit:
  assumes "start_fence [] t" and "\<not> request_held t r"
  shows "wp (dispatch_commit r m d policy) (\<lambda>_. start_fence []) t"
proof -
  have u: "unheld_request (st t) r t" using assms by (simp add: unheld_request_def)
  have ins: "wp (insert_attempt (new_attempt i r g p s)) (\<lambda>_. start_fence [i]) t'"
    if "unheld_request s r t'" for i g p s t'
    using fence_insert_attempt [of t' "new_attempt i r g p s"] unheld_new_attempt [OF that] that
    by (simp add: unheld_request_def new_attempt_def)
  have tail: "wp (tseq (tdo [update_requests j f, dispatch_message i m d, mod_state (occupy_slot i)])
      (tseq (appendEvent ty ent ver att dia body False)
       (tseq (tdo [appendQueueEvent, appendNodeEvent, insert_control k, saveState]) (tret x)))) (\<lambda>_. start_fence []) t'"
    if "start_fence [i] t'" "k_attempt_id k = i" "request_update_ok f" for i j f ty ent ver att dia body k x t'
  proof -
    have pre: "keeps (start_fence [i]) (tdo [update_requests j f, dispatch_message i m d, mod_state (occupy_slot i)])"
      by (intro keeps fence.keep_all fence.keep_dispatch_message fence.keep_slot occupy_slot_ok that(3))
    have post: "wp (tdo [insert_control k, saveState]) (\<lambda>_. start_fence []) s'" if "start_fence [i] s'" for s'
      using that \<open>k_attempt_id k = i\<close> by (intro wp_then_tdo fence_insert_start keeps fence.keep_save) simp
    have "wp (tdo [appendQueueEvent, appendNodeEvent, insert_control k, saveState]) (\<lambda>_. start_fence []) s'" if "start_fence [i] s'" for s'
      using that by (intro wp_tdo_keeps [where J = "start_fence [i]"] post fence.keep_node_event fence.keep_queue_event)
    then show ?thesis
      unfolding tseq_def using that(1)
      by (intro wp_tbind_keeps [where J = "start_fence [i]", OF pre] wp_tbind_keeps [where J = "start_fence [i]", OF fence.keep_event]
          wp_then_bind keeps)
  qed
  have step: "wp (tseq (tdo [insert_policy policy, insert_attempt (new_attempt i r g policy s), update_requests j f,
      dispatch_message i m d, mod_state (occupy_slot i)]) (tseq (appendEvent ty ent ver att dia body False)
       (tseq (tdo [appendQueueEvent, appendNodeEvent, insert_control k, saveState]) (tret x)))) (\<lambda>_. start_fence []) t'"
    if "unheld_request s r t'" "k_attempt_id k = i" "request_update_ok f" for i j f g s ty ent ver att dia body k x t'
    by (rule wp_tseq_tdo, rule wp_mono [OF keepsD [OF keep_unheld_request(2) that(1)]],
        rule wp_tseq_tdo, erule wp_mono [OF ins], rule tail [OF _ that(2,3)])
  show ?thesis
    unfolding dispatch_commit_def Let_def
    by (rule wp_tbind_keeps [where J = "unheld_request (st t) r", OF keep_unheld_request(1) u], rule wp_gets_then, rule step)
       (auto simp: unheld_request_def frame_defs)
qed

lemma fence_dispatch: "keeps (start_fence []) (dispatch_tx c policy)"
proof (rule keepsI)
  fix t
  assume t: "start_fence [] t"
  show "wp (dispatch_tx c policy) (\<lambda>_. start_fence []) t"
    unfolding dispatch_tx_def Let_def
    by (rule wp_gets_then)
       (auto simp: wp t split: option.split dest!: next_request_Some(2) intro!: fence_dispatch_commit [OF t] simp: dispatchable_def)
qed

text \<open>Installation: the guard on starts in progress is what the new hold needs.\<close>

definition quiet_scope :: "Scope \<Rightarrow> durableState \<Rightarrow> txn \<Rightarrow> bool" where
  "quiet_scope sc s t \<longleftrightarrow> start_fence [] t \<and> \<not> pre_start sc t \<and> NodeID (st t) = NodeID s"

lemma keep_quiet_scope:
  "keeps (quiet_scope sc s) newID" "keeps (quiet_scope sc s) (advance_hold_clock v)" "keeps (quiet_scope sc s) (upsert_scope_revision x w)"
  by (auto simp: keeps_def wp statement_defs quiet_scope_def pre_start_def elim!: start_fence_cong [THEN iffD1, rotated -1])

lemma hold_covers_scope:
  assumes "\<not> pre_start sc t" "start_fence [] t" "k \<in> set (control_actions t)" "starting k"
    "lookup_row attempt_id (k_attempt_id k) (attempts t) = Some a" "a_state a = ADispatching" "a_node_id a = NodeID (st t)"
  shows "\<not> in_scope sc (a_dialog_id a)"
proof
  assume "in_scope sc (a_dialog_id a)"
  moreover have "a \<in> set (attempts t)" "attempt_id a = k_attempt_id k" using lookup_row_Some [OF assms(5)] by auto
  moreover have "a_started_at a = None"
    using assms(2,6) \<open>a \<in> set (attempts t)\<close> by (auto simp: start_fence_def fresh_attempts_def list_all_iff)
  ultimately show False using assms(1,3,4,6,7) by (auto simp: pre_start_def exists_row_def starting_def open_control_def)
qed

lemma fence_insert_hold:
  assumes "quiet_scope sc s t" and "h_node_id h = NodeID s"
    and "h_scope h = (if sc_kind sc = ''node'' then ScopeNode else ScopeDialog)" and "h_dialog_id h = nullText (sc_dialog sc)"
  shows "wp (insert_hold h) (\<lambda>_. start_fence []) t"
proof -
  have "clear_start (k_attempt_id k) (t\<lparr>administrative_holds := administrative_holds t @ [h], quiescence := q\<rparr>)" (is "clear_start _ ?t")
    if k: "k \<in> set (control_actions t)" "starting k" for k q
  proof -
    have "clear_start (k_attempt_id k) t" using assms(1) k by (auto simp: quiet_scope_def start_fence_def list_all_iff)
    then obtain a where a: "lookup_row attempt_id (k_attempt_id k) (attempts t) = Some a" and
      old: "a_state a = ADispatching \<Longrightarrow> \<not> attempt_held t a" by (auto simp: clear_start_def split: option.splits)
    have "\<not> attempt_held ?t a" if "a_state a = ADispatching"
      using old [OF that] hold_covers_scope [of sc, OF _ _ k a that] assms
      by (auto simp: attempt_held_def hold_active_def exists_row_def quiet_scope_def in_scope_def nullText_def split: if_splits)
    then show ?thesis using a by (simp add: clear_start_def)
  qed
  then show ?thesis
    using assms(1) by (auto simp: wp insert_hold_def start_fence_def quiet_scope_def fresh_attempts_def list_all_iff)
qed

lemma fence_install: "keeps (start_fence []) (install_body rq raw digest e)"
proof (rule keepsI)
  fix t
  assume t: "start_fence [] t"
  have ins: "wp (tseq (tdo [durably m1 (advance_hold_clock v), durably m2 (upsert_scope_revision x w), durably m3 (insert_hold h)]) (tret y))
      (\<lambda>_. start_fence []) t'"
    if "quiet_scope (ir_scope rq) s t'" "h_node_id h = NodeID s" "h_scope h = (if sc_kind (ir_scope rq) = ''node'' then ScopeNode else ScopeDialog)"
      "h_dialog_id h = nullText (sc_dialog (ir_scope rq))" for m1 m2 m3 v x w h y s t'
    unfolding wp_tseq wp_tdo wp_durably
    by (rule wp_mono [OF keepsD [OF keep_quiet_scope(2) that(1)]], rule wp_mono [OF keepsD [OF keep_quiet_scope(3)]], assumption)
       (rule wp_mono [OF fence_insert_hold [OF _ that(2-4)]], simp_all add: wp_tret)
  show "wp (install_body rq raw digest e) (\<lambda>_. start_fence []) t"
    unfolding install_body_def Let_def
    by (rule wp_gets_then, rule wp_case_option, intro wp_guard_then,
        rule wp_tbind_keeps [where J = "quiet_scope (ir_scope rq) (st t)"], intro keeps keep_quiet_scope)
       (simp_all add: quiet_scope_def [of _ _ t] t wp_guard_then wp_tret ins)
qed

end
