(* ===== verification/Recovery.thy ===== *)
theory Recovery
  imports Fence
begin

text \<open>
  Restart and reconciliation: \<open>runtime/recovery.go\<close> (the upgrade of a pristine volume and the
  startup fence on a lost attempt), \<open>runtime/reconcile.go\<close> (ending an unknown attempt on proof from
  the adapter) and \<open>runtime/stream_lifecycle.go\<close> with the stream loop of \<open>runtime/observe.go\<close>. The
  lemmas show that recovery fails closed and is idempotent, and that reconciliation moves only an
  unknown attempt that holds the slot and has no open effect.
\<close>

section \<open>A pristine volume\<close>

definition isPristinePolicySentinel :: "durableState \<Rightarrow> bool" where
  "isPristinePolicySentinel s \<longleftrightarrow> StateVersion s = 0 \<and> LastEventSeq s = 0 \<and> QueueVersion s = 0 \<and> \<not> QueuePaused s \<and>
     TransportAvailability s = ''online'' \<and> EngineReadiness s = ''blocked'' \<and> Occupancy s = ''idle'' \<and>
     ActiveAttemptID s = None \<and> PendingCount s = 0 \<and> BlockedReasons s = [''policy_unavailable''] \<and>
     NextQueueSequence s = 1 \<and> NextMessageSequence s = 1"

definition durable_rows :: "txn \<Rightarrow> nat" where
  "durable_rows t = sum_list [length (dialogs t), length (messages t), length (requests t), length (attempts t),
     length (commands t), length (control_actions t), length (events t), length (tool_calls t), length (approvals t),
     length (input_requests t), length (artifacts t), length (late_observations t), length (policy_snapshots t),
     length (administrative_holds t), length (hold_outcomes t), length (command_rejections t)]"

definition pristine_tx :: "unit dbtx" where
  "pristine_tx = tbind (tgets id) (\<lambda>t.
     if \<not> isPristinePolicySentinel (st t) \<or> durable_rows t \<noteq> 0 then tret ()
     else tdo [mod_state (\<lambda>s. s\<lparr>EngineReadiness := ''ready'', BlockedReasons := [], StateVersion := StateVersion s + 1\<rparr>),
       appendNodeEvent, saveState])"

text \<open>The policy source's answer is an argument, \<open>None\<close> when there is no source or it fails.\<close>

definition recoverPristinePolicy :: "(string \<Rightarrow> string) \<Rightarrow> io \<Rightarrow> PolicySnapshot option \<Rightarrow> database \<Rightarrow> unit option \<times> database" where
  "recoverPristinePolicy H e policy db =
     (if Option.bind policy (PreparePolicySnapshot H) = None then (Some (), db) else transact e pristine_tx db)"

section \<open>Startup\<close>

definition startup_tx :: "unit dbtx" where
  "startup_tx = tseq (update_control (\<lambda>k. k_status k \<in> {CPending, CInflight}) (\<lambda>k. k\<lparr>k_status := CUnknown\<rparr>))
     (tbind (tgets st) (\<lambda>s. case ActiveAttemptID s of None \<Rightarrow> tret ()
      | Some i \<Rightarrow> tbind (tfind (\<lambda>t. lookup_row attempt_id i (attempts t)) (Internal ''node active attempt reference is missing'')) (\<lambda>a.
          if a_state a = AUnknown then tret ()
          else tseq (tguard (is_active (a_state a)) (Internal ''node active attempt is not active''))
            (tseq (setAttemptUnknown (attempt_ref s a) ''dispatch_uncertain'' ''unknown'') saveState))))"

definition recoverStartup :: "io \<Rightarrow> database \<Rightarrow> unit option \<times> database" where
  "recoverStartup e db = transact e startup_tx db"

section \<open>Reconciliation\<close>

record ReconcileResult =
  rc_outcome :: ReconcileOutcome
  rc_output :: "SafeContent option"
  rc_usage :: "Usage option"
  rc_failure :: "Failure option"
  rc_effect :: string

definition reference_ok :: "Config \<Rightarrow> AttemptRef \<Rightarrow> bool" where
  "reference_ok cfg ref \<longleftrightarrow> ref_node ref = CfgNodeID cfg \<and> uuidPattern (ref_dialog ref) \<and> uuidPattern (ref_request ref) \<and>
     uuidPattern (ref_attempt ref) \<and> 1 \<le> ref_generation ref"

definition verifyActiveUnknown :: "AttemptRef \<Rightarrow> unit dbtx" where
  "verifyActiveUnknown ref = tbind (tgets st) (\<lambda>s.
     tseq (tguard (ActiveAttemptID s = Some (ref_attempt ref)) (Internal ''reconciliation attempt is not the active slot''))
     (tbind (tfind (\<lambda>t. lookup_row attempt_id (ref_attempt ref) (attempts t)) NoRows) (\<lambda>a.
       tguard (attempt_ref s a = ref \<and> a_state a = AUnknown) (Internal ''reconciliation attempt fence changed''))))"

definition unresolvedReconciliationEffects :: "string \<Rightarrow> txn \<Rightarrow> bool" where
  "unresolvedReconciliationEffects i t \<longleftrightarrow> unresolved_controls i t \<or>
     exists_row (\<lambda>c. t_attempt_id c = i \<and> t_status c = ''running'') (tool_calls t) \<or>
     exists_row (\<lambda>p. p_attempt_id p = i \<and> p_status p \<in> {IPending, IResponding, IUnknown}) (approvals t) \<or>
     exists_row (\<lambda>n. i_attempt_id n = i \<and> i_status n \<in> {IPending, IResponding, IUnknown}) (input_requests t) \<or>
     exists_row (\<lambda>e. e_attempt_id e = Some i \<and> like_prefix ''tool.completed:'' (e_projection_key e) \<and>
        jsub (jfield (e_json e) ''payload'') ''effectStatus'' = Some (JStr ''unknown'')) (events t)"

text \<open>The assistant message that the terminal refers to, appended when the stream lost it.\<close>

definition ensureReconciledAssistantMessage :: "(string \<Rightarrow> string) \<Rightarrow> safe_text \<Rightarrow> AttemptRef \<Rightarrow> int \<Rightarrow> ReconcileResult \<Rightarrow> unit dbtx" where
  "ensureReconciledAssistantMessage H x ref v result = (case (rc_outcome result, rc_output result) of
      (ReconcileCompleted, Some output) \<Rightarrow> tbind (tgets (last_assistant (ref_attempt ref))) (\<lambda>last.
        tbind (case last of None \<Rightarrow> tret False
          | Some m \<Rightarrow> tbind (tfind (\<lambda>_. m_content m) (Internal ''durable assistant content is invalid'')) (\<lambda>stored.
              tret (safeContentEqual H stored output))) (\<lambda>same.
        if same then tret ()
        else tbind newID (\<lambda>messageID. tbind (projectAdapterEvent H x ref v AUnknown (AssistantMessageEvent messageID output ''complete''))
          (\<lambda>(terminal, _). tguard (\<not> terminal) (Internal ''reconciled assistant output produced a terminal projection'')))))
    | _ \<Rightarrow> tret ())"

definition reconcile_tx :: "(string \<Rightarrow> string) \<Rightarrow> safe_text \<Rightarrow> AttemptRef \<Rightarrow> ReconcileResult \<Rightarrow> unit dbtx" where
  "reconcile_tx H x ref result = tseq (verifyActiveUnknown ref)
     (tseq (tcheck (\<lambda>t. \<not> unresolvedReconciliationEffects (ref_attempt ref) t)
        (Internal ''reconciliation has unresolved control or effect outcomes''))
     (tbind (tfind (\<lambda>t. lookup_row attempt_id (ref_attempt ref) (attempts t)) NoRows) (\<lambda>a.
      tseq (ensureReconciledAssistantMessage H x ref (a_version a) result)
      (tbind (projectAdapterEvent H x ref (a_version a) AUnknown (TerminalEvent (rc_outcome result) (rc_output result)
          (rc_usage result) (rc_failure result) (rc_effect result))) (\<lambda>(terminal, _).
       tseq (tguard terminal (Internal ''reconciliation did not produce a terminal projection'')) saveState)))))"

definition applyReconciledTerminal :: "(string \<Rightarrow> string) \<Rightarrow> io \<Rightarrow> safe_text \<Rightarrow> AttemptRef \<Rightarrow> ReconcileResult \<Rightarrow> database \<Rightarrow> (tx_error + unit) \<times> database" where
  "applyReconciledTerminal H e x ref result db = (if \<not> io_begin e then (Inl (Internal ''begin''), db)
     else run_tx (reconcile_tx H x ref result) (io_ids e) (io_now e) (io_before_commit e \<and> io_commit e) db)"

text \<open>
  The adapter's answer is an argument, \<open>None\<close> when the call fails. The call runs without the node's
  lock: \<open>before\<close> is the database that \<open>verifyUnknownReference\<close> read ahead of it, \<open>db\<close> the one found when
  the terminal is applied, after any transactions in between.
\<close>

definition ReconcileUnknown :: "(string \<Rightarrow> string) \<Rightarrow> Config \<Rightarrow> io \<Rightarrow> safe_text \<Rightarrow> AttemptRef \<Rightarrow> ReconcileResult option \<Rightarrow> database \<Rightarrow> database \<Rightarrow>
    (tx_error + unit) \<times> database" where
  "ReconcileUnknown H cfg e x ref answer before db =
     (if \<not> reference_ok cfg ref then (Inl (Internal ''reconciliation attempt reference is invalid''), db)
      else case verifyActiveUnknown ref (begin_tx before [] []) of Inl err \<Rightarrow> (Inl err, db)
      | Inr _ \<Rightarrow> (case answer of None \<Rightarrow> (Inl (Internal ''adapter''), db)
        | Some result \<Rightarrow>
            if rc_outcome result \<in> {ReconcileRunning, ReconcileWaitingInput, ReconcileOutcome.ReconcileUnknown} then (Inr (), db)
            else if rc_outcome result \<in> {ReconcileCompleted, ReconcileFailed, ReconcileInterrupted} then
              (if rc_effect result \<noteq> ''known'' \<and> rc_effect result \<noteq> ''none''
               then (Inl (Internal ''terminal reconciliation did not prove an effect status''), db)
               else applyReconciledTerminal H e x ref result db)
            else (Inl (Internal ''adapter returned an invalid reconciliation outcome''), db)))"

section \<open>The adapter stream\<close>

text \<open>
  The one live stream of the node: which attempt leases it and whether its context is cancelled.
\<close>

record attemptStreamLease =
  lease_ref :: AttemptRef
  lease_cancelled :: bool

datatype registration = RegError | RegStale | RegCurrent

definition registerAttemptStream :: "AttemptRef \<Rightarrow> database \<Rightarrow> attemptStreamLease option \<Rightarrow> registration \<times> attemptStreamLease option" where
  "registerAttemptStream ref db lease =
     (if ActiveAttemptID (node_state db) \<noteq> Some (ref_attempt ref) then (RegStale, lease)
      else case lookup_row attempt_id (ref_attempt ref) (attempts db) of None \<Rightarrow> (RegError, lease)
      | Some a \<Rightarrow> if attempt_ref (node_state db) a \<noteq> ref then (RegError, lease)
          else if a_state a \<notin> {ARunning, AWaitingInput, AStopping, AUnknown} then (RegStale, lease)
          else if lease \<noteq> None then (RegError, lease)
          else (RegCurrent, Some \<lparr>lease_ref = ref, lease_cancelled = False\<rparr>))"

definition finishAttemptStream :: "AttemptRef \<Rightarrow> attemptStreamLease option \<Rightarrow> attemptStreamLease option" where
  "finishAttemptStream mine lease = (case lease of None \<Rightarrow> None | Some l \<Rightarrow> if lease_ref l = mine then None else Some l)"

definition cancelAttemptStream :: "AttemptRef \<Rightarrow> attemptStreamLease option \<Rightarrow> attemptStreamLease option" where
  "cancelAttemptStream ref lease = map_option (\<lambda>l. if lease_ref l = ref then l\<lparr>lease_cancelled := True\<rparr> else l) lease"

text \<open>
  What the stream delivers, one item per call of \<open>Next\<close>: an event, nothing, or an error (its end
  included). A step carries the environment of its transactions and whether the stream's context
  is cancelled by then.
\<close>

datatype stream_item = StreamEvent AttemptRef Event | StreamNil | StreamError

record stream_step =
  ss_item :: stream_item
  ss_cancelled :: bool
  ss_observe :: io
  ss_text :: safe_text
  ss_mark :: io

definition lose_stream :: "stream_step \<Rightarrow> AttemptRef \<Rightarrow> string \<Rightarrow> database \<Rightarrow> database" where
  "lose_stream step ref reason db = (if ss_cancelled step then db else markAttemptUnknown (ss_mark step) ref reason ''unknown'' db)"

fun ends_stream :: "Event \<Rightarrow> bool" where
  "ends_stream (TerminalEvent _ _ _ _ _) = True"
| "ends_stream (UnknownEvent _ _) = True"
| "ends_stream _ = False"

fun stream_loop :: "(string \<Rightarrow> string) \<Rightarrow> AttemptRef \<Rightarrow> stream_step list \<Rightarrow> database \<Rightarrow> database" where
  "stream_loop H ref [] db = db"
| "stream_loop H ref (step # steps) db = (case ss_item step of
      StreamError \<Rightarrow> lose_stream step ref ''provider_state'' db
    | StreamNil \<Rightarrow> markAttemptUnknown (ss_mark step) ref ''adapter_protocol'' ''unknown'' db
    | StreamEvent origin ev \<Rightarrow> (case ObserveAdapterEvent H (ss_observe step) (ss_text step) ref origin ev db of
          (Inl _, db') \<Rightarrow> lose_stream step ref ''adapter_protocol'' db'
        | (Inr _, db') \<Rightarrow> if ends_stream ev then db' else stream_loop H ref steps db'))"

text \<open>\<open>opened\<close>: whether \<open>Events\<close> gave a stream; the environment and the flag are those of the calls before it.\<close>

definition observeAdapterStream :: "(string \<Rightarrow> string) \<Rightarrow> AttemptRef \<Rightarrow> stream_step \<Rightarrow> bool \<Rightarrow> stream_step list \<Rightarrow>
    attemptStreamLease option \<Rightarrow> database \<Rightarrow> attemptStreamLease option \<times> database" where
  "observeAdapterStream H ref first opened steps lease db = (case registerAttemptStream ref db lease of
      (RegError, l) \<Rightarrow> (l, lose_stream first ref ''provider_state'' db)
    | (RegStale, l) \<Rightarrow> (l, db)
    | (RegCurrent, l) \<Rightarrow> (finishAttemptStream ref l,
         if opened then stream_loop H ref steps db else lose_stream first ref ''provider_state'' db))"

lemmas recovery_code [code] =
  pristine_tx_def [unfolded exec_unfold]
  startup_tx_def [unfolded exec_unfold]
  verifyActiveUnknown_def [unfolded exec_unfold]
  ensureReconciledAssistantMessage_def [unfolded exec_unfold]
  reconcile_tx_def [unfolded exec_unfold]

section \<open>The transactions keep the store invariants\<close>

lemma reads_verify [keeps]: "keeps I (verifyActiveUnknown ref)"
  unfolding verifyActiveUnknown_def by (intro keeps)

context settled_frame
begin

lemma keep_pristine: "keeps I pristine_tx"
  unfolding pristine_tx_def by (intro keeps keep_all) (simp_all add: frame_defs)

lemma keep_abandon: "keeps I (update_control (\<lambda>k. k_status k \<in> {CPending, CInflight}) (\<lambda>k. k\<lparr>k_status := CUnknown\<rparr>))"
  by (intro keep_all) (simp_all add: frame_defs)

lemma keep_startup_with:
  assumes "\<And>ref. keeps I (setAttemptUnknown ref ''dispatch_uncertain'' ''unknown'')"
  shows "keeps I startup_tx"
  unfolding startup_tx_def by (intro keeps keep_abandon assms keep_save)

end

context slot_mover
begin

lemma keep_startup: "keeps I startup_tx"
  by (rule keep_startup_with [OF keep_set_unknown])

lemma keep_ensure: "keeps I (ensureReconciledAssistantMessage H x ref v r)"
  unfolding ensureReconciledAssistantMessage_def
  by (cases "rc_outcome r") (auto intro!: keeps keep_project keep_newID)

lemma keep_reconcile: "keeps I (reconcile_tx H x ref r)"
  unfolding reconcile_tx_def by (intro keeps keep_ensure keep_project keep_save)

end

lemma saved_pristine: "keeps state_saved pristine_tx"
  unfolding pristine_tx_def by (intro keeps keeps_saved_ends saved identity.keep_all) (simp_all add: frame_defs)

lemma saved_abandon: "keeps state_saved (update_control P f)"
  by (auto simp: keeps_def state_saved_def update_control_def wp)

lemma saved_startup: "keeps state_saved startup_tx"
  unfolding startup_tx_def
  by (intro keeps_saved_ends [OF ends_saved_seq [OF identity.keep_set_unknown ends_saved_save]] keeps_tseq [OF keeps_tguard]
      keeps_tseq [OF saved_abandon] keeps)

lemma saved_reconcile: "keeps state_saved (reconcile_tx H x ref r)"
  unfolding reconcile_tx_def by (rule keeps_saved_ends) (intro saved keeps identity.keep_ensure identity.keep_project)

text \<open>The slot: reconciliation starts from the attempt that holds it.\<close>

lemma holder_ensure: "keeps (holds_slot (ref_attempt ref)) (ensureReconciledAssistantMessage H x ref v r)"
  unfolding ensureReconciledAssistantMessage_def
  by (cases "rc_outcome r") (auto intro!: keeps holder_project occupied.keep_newID simp: ends_attempt.simps)

lemma slot_reconcile: "keeps slot_keys (reconcile_tx H x ref r)"
proof (rule keepsI)
  fix t
  assume t: "slot_keys t"
  have "wp (verifyActiveUnknown ref) (\<lambda>_. holds_slot (ref_attempt ref)) t"
    using t by (simp add: verifyActiveUnknown_def wp holds_slot_def)
  then show "wp (reconcile_tx H x ref r) (\<lambda>_. slot_keys) t"
    unfolding reconcile_tx_def
    by (rule wp_seq_step) (intro wp_front wp_seq_step [OF keepsD [OF holder_ensure]] wp_then_bind slot_project keeps exec_slot.keep_save)
qed

section \<open>What recovery leaves behind\<close>

text \<open>What appending events, updating requests and saving leave alone.\<close>

definition fenced_view :: "txn \<Rightarrow> control_row list \<times> attempt_row list \<times> string option" where
  "fenced_view t = (control_actions t, attempts t, ActiveAttemptID (st t))"

lemma view_event: "keeps (\<lambda>t. fenced_view t = v) (appendEvent ty ent ver att dia body late)"
  by (simp add: keeps_def wp_appendEvent fenced_view_def Let_def)

lemma view_statements:
  "keeps (\<lambda>t. fenced_view t = v) appendNodeEvent" "keeps (\<lambda>t. fenced_view t = v) (update_requests i f)"
  "keeps (\<lambda>t. fenced_view t = v) saveState"
  unfolding appendNodeEvent_def
  by (intro keeps view_event, simp_all add: keeps_def wp update_requests_def saveState_def fenced_view_def Let_def)

text \<open>The slot's attempt after the fence: one more version, unknown, effect unknown.\<close>

definition lost_attempt :: "string \<Rightarrow> attempt_row \<Rightarrow> attempt_row" where
  "lost_attempt effect a = a\<lparr>a_version := a_version a + 1, a_state := AUnknown, a_effect_status := effect\<rparr>"

lemma set_unknown_view:
  assumes "lookup_row attempt_id (ref_attempt ref) (attempts t) = Some a" and "a_state a \<noteq> AUnknown" and "effect \<noteq> []"
  shows "wp (setAttemptUnknown ref reason effect) (\<lambda>_ t'. fenced_view t' = (control_actions t,
     update_rows (\<lambda>x. attempt_id x = ref_attempt ref) (lost_attempt effect) (attempts t), Some (ref_attempt ref))) t"
proof -
  let ?v = "(control_actions t, update_rows (\<lambda>x. attempt_id x = ref_attempt ref) (lost_attempt effect) (attempts t), Some (ref_attempt ref))"
  let ?w = "\<lambda>t'. control_actions t' = control_actions t \<and> attempts t' = update_rows (\<lambda>x. attempt_id x = ref_attempt ref) (lost_attempt effect) (attempts t)"
  have upd: "wp (update_attempts (ref_attempt ref) (\<lambda>x. x\<lparr>a_version := a_version x + 1, a_state := AUnknown, a_effect_status := effect\<rparr>))
      (\<lambda>_. ?w) t"
    by (simp add: update_attempts_def wp lost_attempt_def [abs_def])
  have rest: "wp (tdo [update_requests i f, mod_state g]) (\<lambda>_ t'. fenced_view t' = ?v) t'"
    if "?w t'" "\<And>s. ActiveAttemptID (g s) = Some (ref_attempt ref)" for i f g t'
    using that by (simp add: tdo.simps update_requests_def wp fenced_view_def)
  have same: "b = a" if "attempt_generation (ref_attempt ref) (ref_generation ref) t = Some b" for b
    using attempt_generation_Some [OF that] assms(1) by simp
  show ?thesis
    unfolding setAttemptUnknown_def Let_def if_not_P [OF assms(3)]
    apply (rule wp_find_then)
    apply (drule same, simp only: assms(2) if_False)
    apply (rule wp_gets_then, rule wp_seq_step [OF upd], rule wp_then [OF rest keeps_tseq [OF view_event view_statements(1)]])
     apply simp_all
    done
qed

text \<open>What the startup transaction leaves of the controls, the attempts and the slot.\<close>

definition abandoned :: "control_row list \<Rightarrow> control_row list" where
  "abandoned rows = map (\<lambda>k. if k_status k \<in> {CPending, CInflight} then k\<lparr>k_status := CUnknown\<rparr> else k) rows"

definition fence_slot :: "string option \<Rightarrow> attempt_row list \<Rightarrow> attempt_row list" where
  "fence_slot slot rows = (case slot of None \<Rightarrow> rows
     | Some i \<Rightarrow> (case lookup_row attempt_id i rows of None \<Rightarrow> rows
       | Some a \<Rightarrow> if a_state a = AUnknown then rows else update_rows (\<lambda>x. attempt_id x = i) (lost_attempt ''unknown'') rows))"

lemma startup_recovers:
  "wp startup_tx (\<lambda>_ t'. fenced_view t' = (abandoned (control_actions t), fence_slot (ActiveAttemptID (st t)) (attempts t), ActiveAttemptID (st t)) \<and>
     (\<forall>i. ActiveAttemptID (st t) = Some i \<longrightarrow> lookup_row attempt_id i (attempts t) \<noteq> None)) t"
proof -
  let ?P = "\<lambda>t' :: txn. control_actions t' = abandoned (control_actions t) \<and> attempts t' = attempts t \<and> st t' = st t"
  have "wp (update_control (\<lambda>k. k_status k \<in> {CPending, CInflight}) (\<lambda>k. k\<lparr>k_status := CUnknown\<rparr>)) (\<lambda>_. ?P) t"
    by (simp add: update_control_def wp abandoned_def update_rows_def)
  then show ?thesis
    unfolding startup_tx_def
  proof (rule wp_seq_step, intro wp_gets_then wp_case_option wp_find_then wp_if [THEN iffD2] if_bool_eq_conj [THEN iffD2] conjI impI wp_guard_then)
    fix u t' i a
    assume p: "?P t'" and s: "ActiveAttemptID (st t') = Some i" and a: "lookup_row attempt_id i (attempts t') = Some a" "a_state a \<noteq> AUnknown"
    have i: "attempt_id a = i" using lookup_row_Some [OF a(1)] by auto
    have "wp (setAttemptUnknown (attempt_ref (st t') a) ''dispatch_uncertain'' ''unknown'') (\<lambda>_ t2. fenced_view t2 =
        (abandoned (control_actions t), fence_slot (ActiveAttemptID (st t)) (attempts t), ActiveAttemptID (st t))) t'"
      using set_unknown_view [of "attempt_ref (st t') a" t' a "''unknown''"] p s a i by (simp add: fence_slot_def)
    from wp_then [OF this view_statements(3)] p s a
    show "wp (tseq (setAttemptUnknown (attempt_ref (st t') a) ''dispatch_uncertain'' ''unknown'') saveState) (\<lambda>_ t2. fenced_view t2 =
        (abandoned (control_actions t), fence_slot (ActiveAttemptID (st t)) (attempts t), ActiveAttemptID (st t)) \<and>
        (\<forall>i. ActiveAttemptID (st t) = Some i \<longrightarrow> lookup_row attempt_id i (attempts t) \<noteq> None)) t'"
      by (auto elim: wp_mono)
  qed (auto simp: wp_tret fenced_view_def fence_slot_def)
qed

lemma transact_Some: "transact e m db = (Some r, db') \<Longrightarrow> \<exists>t. m (begin_tx db (io_ids e) (io_now e)) = Inr (r, t) \<and> db' = commit_tx t"
  by (auto simp: transact_def ok_value_def dest!: run_tx_Inr split: if_splits prod.splits sum.splits)

lemma begin_tx_control: "control_actions (begin_tx db ids at) = control_actions db"
  by (simp add: begin_tx_def database.defs)

lemma commit_sel [simp]: "control_actions (commit_tx t) = control_actions t" "attempts (commit_tx t) = attempts t"
  "node_state (commit_tx t) = node_state t"
  by (cases t; simp add: commit_tx_def database.defs)+

text \<open>
  C28: recovery fails closed. A successful startup leaves exactly the controls that were there, each
  one that was pending or in flight marked unknown and every other one as it was, so nothing the
  node had not settled before the restart is executed again and nothing is forgotten. The slot
  still names the attempt it named; that attempt exists and is unknown afterwards (one version
  later, effect unknown, unless it was unknown already), so no other attempt can start until it is
  resolved. Every other attempt row is as it was.
\<close>

theorem recovery_fails_closed:
  assumes "recoverStartup e db = (Some (), db')"
  shows "control_actions db' = map (\<lambda>k. if k_status k \<in> {CPending, CInflight} then k\<lparr>k_status := CUnknown\<rparr> else k) (control_actions db) \<and>
    ActiveAttemptID (node_state db') = ActiveAttemptID (node_state db) \<and>
    (case ActiveAttemptID (node_state db) of None \<Rightarrow> attempts db' = attempts db
     | Some i \<Rightarrow> (\<exists>a b. lookup_row attempt_id i (attempts db) = Some a \<and> lookup_row attempt_id i (attempts db') = Some b \<and> a_state b = AUnknown \<and>
         attempts db' = (if a_state a = AUnknown then attempts db
           else map (\<lambda>x. if attempt_id x = i then x\<lparr>a_version := a_version x + 1, a_state := AUnknown, a_effect_status := ''unknown''\<rparr> else x)
             (attempts db))))"
proof -
  obtain t where run: "startup_tx (begin_tx db (io_ids e) (io_now e)) = Inr ((), t)" and db': "db' = commit_tx t"
    using transact_Some [OF assms [unfolded recoverStartup_def]] by auto
  have saved: "node_state t = st t"
    using keeps_run [OF saved_startup begin_tx_saved run] by (simp add: state_saved_def)
  have view: "control_actions t = abandoned (control_actions db)" "attempts t = fence_slot (ActiveAttemptID (node_state db)) (attempts db)"
    "ActiveAttemptID (st t) = ActiveAttemptID (node_state db)"
    and found: "ActiveAttemptID (node_state db) = Some i \<Longrightarrow> \<exists>a. lookup_row attempt_id i (attempts db) = Some a" for i
    using wpD [OF startup_recovers run] by (simp_all add: fenced_view_def begin_tx_control)
  have lookup: "lookup_row attempt_id i (update_rows (\<lambda>x. attempt_id x = i) (lost_attempt f) rows) =
      map_option (lost_attempt f) (lookup_row attempt_id i rows)" for i f rows
    by (simp add: lookup_update_row lost_attempt_def)
  show ?thesis
  proof (cases "ActiveAttemptID (node_state db)")
    case None
    then show ?thesis using view saved by (simp add: db' abandoned_def fence_slot_def)
  next
    case (Some i)
    with found obtain a where a: "lookup_row attempt_id i (attempts db) = Some a" by blast
    show ?thesis
    proof (cases "a_state a = AUnknown")
      case True
      then show ?thesis using view saved Some a by (simp add: db' abandoned_def fence_slot_def)
    next
      case False
      then show ?thesis using view saved Some a lookup [of i "''unknown''" "attempts db"]
        by (auto simp: db' abandoned_def fence_slot_def update_rows_def lost_attempt_def)
    qed
  qed
qed

definition sample_running :: database where
  "sample_running = sample_held ARunning (Some sample_attempt_id)"

lemma sample_recovers: "fst (recoverStartup sample_io sample_running) = Some ()"
  by code_simp

theorem recovery_fails_closed_witness:
  "\<exists>a. lookup_row attempt_id sample_attempt_id (attempts (snd (recoverStartup sample_io sample_running))) = Some a \<and> a_state a = AUnknown"
  using recovery_fails_closed [of sample_io sample_running "snd (recoverStartup sample_io sample_running)"] sample_recovers
  by (cases "recoverStartup sample_io sample_running") (auto simp: sample_running_def sample_held_def)

section \<open>What reconciliation may do\<close>

lemma verify_result: "wp (verifyActiveUnknown ref) (\<lambda>_ t'. t' = t \<and> ActiveAttemptID (st t) = Some (ref_attempt ref) \<and>
    (\<exists>a. lookup_row attempt_id (ref_attempt ref) (attempts t) = Some a \<and> attempt_ref (st t) a = ref \<and> a_state a = AUnknown)) t"
  by (auto simp: verifyActiveUnknown_def wp)

lemma reconcile_needs:
  "wp (reconcile_tx H x ref r) (\<lambda>_ _. ActiveAttemptID (st t) = Some (ref_attempt ref) \<and> \<not> unresolvedReconciliationEffects (ref_attempt ref) t \<and>
     (\<exists>a. lookup_row attempt_id (ref_attempt ref) (attempts t) = Some a \<and> attempt_ref (st t) a = ref \<and> a_state a = AUnknown)) t"
  unfolding reconcile_tx_def
  by (rule wp_seq_step [OF verify_result]) (auto simp: wp intro!: wp_True)

lemma unresolved_begin: "unresolvedReconciliationEffects i (begin_tx db ids at) = unresolvedReconciliationEffects i (begin_tx db [] [])"
  by (simp add: unresolvedReconciliationEffects_def unresolved_controls_def begin_tx_def database.defs)

text \<open>
  C29: reconciliation is fenced inside its transaction. The pre-check and the adapter's call run
  before it, without the lock, on a database \<open>before\<close> that may be out of date by then. If
  \<open>ReconcileUnknown\<close> changes the database \<open>db\<close> it finds when it applies the terminal, then in \<open>db\<close> the
  attempt it was called for holds the execution slot under exactly the given reference, is
  unknown, and has no control, tool call, approval, input request or tool completion with an open
  or unknown effect; and the adapter proved a terminal outcome with a known effect status. A
  running, waiting or unknown answer, a failed call and an unproven effect leave every row as it was.
\<close>

theorem reconcile_fenced:
  assumes "ReconcileUnknown H cfg e x ref answer before db = (r, db')" and "db' \<noteq> db"
  shows "ActiveAttemptID (node_state db) = Some (ref_attempt ref) \<and>
    (\<exists>a. lookup_row attempt_id (ref_attempt ref) (attempts db) = Some a \<and> attempt_ref (node_state db) a = ref \<and> a_state a = AUnknown) \<and>
    \<not> unresolvedReconciliationEffects (ref_attempt ref) (begin_tx db [] []) \<and>
    (\<exists>result. answer = Some result \<and> rc_outcome result \<in> {ReconcileCompleted, ReconcileFailed, ReconcileInterrupted} \<and>
       (rc_effect result = ''known'' \<or> rc_effect result = ''none''))"
proof -
  obtain result where a: "answer = Some result" "rc_outcome result \<in> {ReconcileCompleted, ReconcileFailed, ReconcileInterrupted}"
    "rc_effect result = ''known'' \<or> rc_effect result = ''none''"
    and run: "applyReconciledTerminal H e x ref result db = (r, db')"
    using assms by (auto simp: ReconcileUnknown_def split: if_splits sum.splits option.splits)
  obtain u t where "reconcile_tx H x ref result (begin_tx db (io_ids e) (io_now e)) = Inr (u, t)"
    using run assms(2) by (auto simp: applyReconciledTerminal_def run_tx_def split: if_splits sum.splits)
  from wpD [OF reconcile_needs this] a show ?thesis using unresolved_begin by auto
qed

definition sample_interrupted :: "(tx_error + unit) \<times> database" where
  "sample_interrupted = ReconcileUnknown sample_hash sample_config sample_io sample_text sample_ref
     (Some \<lparr>rc_outcome = ReconcileInterrupted, rc_output = None, rc_usage = None, rc_failure = None, rc_effect = ''none''\<rparr>)
     (sample_held AUnknown (Some sample_attempt_id)) (sample_held AUnknown (Some sample_attempt_id))"

lemma sample_interrupted_ok: "ActiveAttemptID (node_state (snd sample_interrupted)) = None"
  by code_simp

theorem reconcile_fenced_witness:
  "ActiveAttemptID (node_state (snd sample_interrupted)) = None \<and>
     \<not> unresolvedReconciliationEffects sample_attempt_id (begin_tx (sample_held AUnknown (Some sample_attempt_id)) [] [])"
proof -
  have "snd sample_interrupted \<noteq> sample_held AUnknown (Some sample_attempt_id)"
    using sample_interrupted_ok by (auto simp: sample_held_def)
  with reconcile_fenced [of sample_hash sample_config sample_io sample_text sample_ref _ _ _ "fst sample_interrupted" "snd sample_interrupted"]
  have "\<not> unresolvedReconciliationEffects (ref_attempt sample_ref) (begin_tx (sample_held AUnknown (Some sample_attempt_id)) [] [])"
    unfolding sample_interrupted_def by simp
  then show ?thesis using sample_interrupted_ok by (simp add: sample_ref_def)
qed

end
