(* ===== verification/LogicalDelete.thy ===== *)
theory LogicalDelete
  imports Recovery
begin

text \<open>
  Coordinated deletion of a dialog: the contract of \<open>contracts/logical-delete/types.go\<close> and the
  entry points of \<open>runtime/logical_delete.go\<close>. A delete runs under the exact dialog hold it names
  and commits the tombstone, the command receipt, the release of the hold and the private receipt
  in one transaction.
\<close>

section \<open>The contract\<close>

definition positive :: "int \<Rightarrow> bool" where
  "positive v \<longleftrightarrow> 1 \<le> v \<and> v \<le> MaximumSafeInteger"

definition incrementable :: "int \<Rightarrow> bool" where
  "incrementable v \<longleftrightarrow> 1 \<le> v \<and> v < MaximumSafeInteger"

text \<open>
  \<open>time.Parse(time.RFC3339Nano, s)\<close> with no further check: the hour may have one digit, the
  fraction may follow a comma, a zone offset may be up to 24 hours and 60 minutes.
\<close>

definition go_zone :: "string \<Rightarrow> bool" where
  "go_zone z \<longleftrightarrow> z = ''Z'' \<or>
     (matches [\<lambda>c. c \<in> set ''+-'', is_digit, is_digit, lit CHR '':'', is_digit, is_digit] z \<and>
      decimal 0 (take 2 (drop 1 z)) \<le> 24 \<and> decimal 0 (take 2 (drop 4 z)) \<le> 60)"

definition pad_hour :: "string \<Rightarrow> string" where
  "pad_hour s = (case drop 12 s of c # _ \<Rightarrow> if is_digit c then s else take 11 s @ ''0'' @ drop 11 s | [] \<Rightarrow> s)"

definition parse_time :: "string \<Rightarrow> bool" where
  "parse_time s = (let p = pad_hour s in matches datetime_shape (take 19 p) \<and> calendar_ok p \<and>
     (case drop 19 p of
        c # d # rest \<Rightarrow> if (c = CHR ''.'' \<or> c = CHR '','') \<and> is_digit d then go_zone (dropWhile is_digit rest) else go_zone (c # d # rest)
      | rest \<Rightarrow> go_zone rest))"

record DeleteRequest =
  dq_schema :: string
  dq_operation :: string
  dq_command :: string
  dq_logical_dialog :: string
  dq_binding_version :: int
  dq_dialog_version :: int

definition ValidateRequest :: "DeleteRequest \<Rightarrow> bool" where
  "ValidateRequest v \<longleftrightarrow> dq_schema v = ''logical-dialog-delete-v1'' \<and> uuidPattern (dq_operation v) \<and> uuidPattern (dq_command v) \<and>
     uuidPattern (dq_logical_dialog v) \<and> positive (dq_binding_version v) \<and> incrementable (dq_dialog_version v)"

definition RequestHash :: "(string \<Rightarrow> string) \<Rightarrow> DeleteRequest \<Rightarrow> string option" where
  "RequestHash H v = (if ValidateRequest v then Some (H (go_marshal (JObj [(''schemaId'', JStr (dq_schema v)),
     (''operationId'', JStr (dq_operation v)), (''commandId'', JStr (dq_command v)), (''logicalDialogId'', JStr (dq_logical_dialog v)),
     (''expectedBindingVersion'', jnum (dq_binding_version v)), (''expectedDialogVersion'', jnum (dq_dialog_version v))]))) else None)"

definition NodeSchemaID :: string where "NodeSchemaID = ''logical-dialog-node-delete-v1''"

record NodeRequest =
  nq_schema :: string
  nq_operation :: string
  nq_coordinator_hash :: string
  nq_command :: string
  nq_logical_dialog :: string
  nq_node :: string
  nq_dialog :: string
  nq_epoch :: int
  nq_registry :: int
  nq_binding :: int
  nq_dialog_version :: int
  nq_hold_version :: int
  nq_hold_revision :: int

definition ValidateNodeRequest :: "NodeRequest \<Rightarrow> bool" where
  "ValidateNodeRequest v \<longleftrightarrow> nq_schema v = NodeSchemaID \<and> uuidPattern (nq_operation v) \<and> sha256Pattern (nq_coordinator_hash v) \<and>
     uuidPattern (nq_command v) \<and> uuidPattern (nq_logical_dialog v) \<and> uuidPattern (nq_node v) \<and> uuidPattern (nq_dialog v) \<and>
     positive (nq_epoch v) \<and> positive (nq_registry v) \<and> positive (nq_binding v) \<and> incrementable (nq_dialog_version v) \<and>
     positive (nq_hold_version v) \<and> positive (nq_hold_revision v)"

definition json_NodeRequest :: "NodeRequest \<Rightarrow> json" where
  "json_NodeRequest v = JObj [(''schemaId'', JStr (nq_schema v)), (''operationId'', JStr (nq_operation v)),
     (''coordinatorRequestHash'', JStr (nq_coordinator_hash v)), (''commandId'', JStr (nq_command v)),
     (''logicalDialogId'', JStr (nq_logical_dialog v)), (''nodeId'', JStr (nq_node v)), (''nodeDialogId'', JStr (nq_dialog v)),
     (''expectedEpoch'', jnum (nq_epoch v)), (''registryVersion'', jnum (nq_registry v)), (''bindingVersion'', jnum (nq_binding v)),
     (''expectedDialogVersion'', jnum (nq_dialog_version v)), (''holdVersion'', jnum (nq_hold_version v)),
     (''holdScopeRevision'', jnum (nq_hold_revision v))]"

definition NodeRequestHash :: "(string \<Rightarrow> string) \<Rightarrow> NodeRequest \<Rightarrow> string option" where
  "NodeRequestHash H v = (if ValidateNodeRequest v then Some (H (go_marshal (json_NodeRequest v))) else None)"

definition node_request_fields :: "string list" where
  "node_request_fields = [''schemaId'', ''operationId'', ''coordinatorRequestHash'', ''commandId'', ''logicalDialogId'', ''nodeId'',
     ''nodeDialogId'', ''expectedEpoch'', ''registryVersion'', ''bindingVersion'', ''expectedDialogVersion'', ''holdVersion'',
     ''holdScopeRevision'']"

definition decode_NodeRequest :: "json \<Rightarrow> NodeRequest option" where
  "decode_NodeRequest v = (case v of JObj m \<Rightarrow> (if \<not> known_fields node_request_fields m then None else
       (case (go_string ''schemaId'' m, go_string ''operationId'' m, go_string ''coordinatorRequestHash'' m, go_string ''commandId'' m,
           go_string ''logicalDialogId'' m, go_string ''nodeId'' m, go_string ''nodeDialogId'' m, go_int ''expectedEpoch'' m,
           go_int ''registryVersion'' m, go_int ''bindingVersion'' m, go_int ''expectedDialogVersion'' m, go_int ''holdVersion'' m,
           go_int ''holdScopeRevision'' m) of
         (Some sc, Some oper, Some ch, Some cmd, Some ld, Some n, Some d, Some ep, Some rg, Some bd, Some dv, Some hv, Some hr) \<Rightarrow>
           Some \<lparr>nq_schema = sc, nq_operation = oper, nq_coordinator_hash = ch, nq_command = cmd, nq_logical_dialog = ld, nq_node = n,
             nq_dialog = d, nq_epoch = ep, nq_registry = rg, nq_binding = bd, nq_dialog_version = dv, nq_hold_version = hv,
             nq_hold_revision = hr\<rparr>
       | _ \<Rightarrow> None))
    | _ \<Rightarrow> None)"

record NodeReceipt =
  nr_schema :: string
  nr_operation :: string
  nr_request_hash :: string
  nr_coordinator_hash :: string
  nr_receipt :: string
  nr_command :: string
  nr_logical_dialog :: string
  nr_node :: string
  nr_dialog :: string
  nr_epoch :: int
  nr_registry :: int
  nr_binding :: int
  nr_dialog_version :: int
  nr_hold_version :: int
  nr_hold_revision :: int
  nr_event_seq :: int
  nr_command_receipt :: json
  nr_deleted_at :: string

definition validCommandReceipt :: "NodeReceipt \<Rightarrow> bool" where
  "validCommandReceipt v = (let r = nr_command_receipt v in Validate ''receipt'' r \<and>
     jint (jfield r ''protocolVersion'') = ProtocolVersion \<and> jstr (jfield r ''schemaId'') = SchemaID \<and>
     jstr (jfield r ''commandId'') = nr_command v \<and> jstr (jfield r ''commandKind'') = kind_text CommandDialogDelete \<and>
     jstr (jfield r ''nodeId'') = nr_node v \<and> jint (jfield r ''eventSeq'') = nr_event_seq v \<and>
     jstr (jfield r ''result'') = ''deleted'' \<and> jstr (jfield r ''acceptedAt'') = nr_deleted_at v \<and>
     jstr (jsub (jfield r ''references'') ''dialogId'') = nr_dialog v)"

definition ValidateNodeReceipt :: "NodeReceipt \<Rightarrow> bool" where
  "ValidateNodeReceipt v \<longleftrightarrow> nr_schema v = NodeSchemaID \<and> uuidPattern (nr_operation v) \<and> sha256Pattern (nr_request_hash v) \<and>
     sha256Pattern (nr_coordinator_hash v) \<and> uuidPattern (nr_receipt v) \<and> uuidPattern (nr_command v) \<and>
     uuidPattern (nr_logical_dialog v) \<and> uuidPattern (nr_node v) \<and> uuidPattern (nr_dialog v) \<and> positive (nr_epoch v) \<and>
     positive (nr_registry v) \<and> positive (nr_binding v) \<and> positive (nr_dialog_version v) \<and> positive (nr_hold_version v) \<and>
     positive (nr_hold_revision v) \<and> positive (nr_event_seq v) \<and> validCommandReceipt v \<and> parse_time (nr_deleted_at v)"

definition json_NodeReceipt :: "NodeReceipt \<Rightarrow> json" where
  "json_NodeReceipt v = JObj [(''schemaId'', JStr (nr_schema v)), (''operationId'', JStr (nr_operation v)),
     (''nodeRequestHash'', JStr (nr_request_hash v)), (''coordinatorRequestHash'', JStr (nr_coordinator_hash v)),
     (''receiptId'', JStr (nr_receipt v)), (''commandId'', JStr (nr_command v)), (''logicalDialogId'', JStr (nr_logical_dialog v)),
     (''nodeId'', JStr (nr_node v)), (''nodeDialogId'', JStr (nr_dialog v)), (''epoch'', jnum (nr_epoch v)),
     (''registryVersion'', jnum (nr_registry v)), (''bindingVersion'', jnum (nr_binding v)),
     (''deletedDialogVersion'', jnum (nr_dialog_version v)), (''holdVersion'', jnum (nr_hold_version v)),
     (''holdScopeRevision'', jnum (nr_hold_revision v)), (''tombstoneEventSeq'', jnum (nr_event_seq v)),
     (''commandReceipt'', nr_command_receipt v), (''deletedAt'', JStr (nr_deleted_at v))]"

text \<open>A \<open>json.RawMessage\<close> field keeps the last value given for it.\<close>

definition go_raw :: "string \<Rightarrow> members \<Rightarrow> json" where
  "go_raw name item = (case go_members name item of [] \<Rightarrow> JNull | vs \<Rightarrow> last vs)"

definition decode_NodeReceipt :: "json \<Rightarrow> NodeReceipt option" where
  "decode_NodeReceipt v = (case v of JObj m \<Rightarrow>
       (case (go_string ''schemaId'' m, go_string ''operationId'' m, go_string ''nodeRequestHash'' m, go_string ''coordinatorRequestHash'' m,
           go_string ''receiptId'' m, go_string ''commandId'' m, go_string ''logicalDialogId'' m, go_string ''nodeId'' m,
           go_string ''nodeDialogId'' m) of
         (Some sc, Some oper, Some rh, Some ch, Some ri, Some cmd, Some ld, Some n, Some d) \<Rightarrow>
          (case (go_int ''epoch'' m, go_int ''registryVersion'' m, go_int ''bindingVersion'' m, go_int ''deletedDialogVersion'' m,
             go_int ''holdVersion'' m, go_int ''holdScopeRevision'' m, go_int ''tombstoneEventSeq'' m, go_string ''deletedAt'' m) of
            (Some ep, Some rg, Some bd, Some dv, Some hv, Some hr, Some seq, Some at) \<Rightarrow>
              Some \<lparr>nr_schema = sc, nr_operation = oper, nr_request_hash = rh, nr_coordinator_hash = ch, nr_receipt = ri, nr_command = cmd,
                nr_logical_dialog = ld, nr_node = n, nr_dialog = d, nr_epoch = ep, nr_registry = rg, nr_binding = bd,
                nr_dialog_version = dv, nr_hold_version = hv, nr_hold_revision = hr, nr_event_seq = seq,
                nr_command_receipt = go_raw ''commandReceipt'' m, nr_deleted_at = at\<rparr>
          | _ \<Rightarrow> None)
       | _ \<Rightarrow> None)
    | _ \<Rightarrow> None)"

subsection \<open>The coordinator's documents\<close>

record DeleteStatus =
  ds_schema :: string
  ds_operation :: string
  ds_hash :: string
  ds_command :: string
  ds_logical_dialog :: string
  ds_binding_version :: int
  ds_dialog_version :: int
  ds_node :: string
  ds_dialog :: string
  ds_registry :: int
  ds_epoch :: int
  ds_hold_revision :: int
  ds_hold_version :: int
  ds_phase :: string
  ds_effect :: string
  ds_version :: int
  ds_archived :: bool
  ds_result :: string
  ds_receipt :: "NodeReceipt option"
  ds_updated_at :: string

definition statusReceiptMatches :: "DeleteStatus \<Rightarrow> NodeReceipt \<Rightarrow> bool" where
  "statusReceiptMatches s r \<longleftrightarrow> ValidateNodeReceipt r \<and> nr_operation r = ds_operation s \<and> nr_coordinator_hash r = ds_hash s \<and>
     nr_command r = ds_command s \<and> nr_logical_dialog r = ds_logical_dialog s \<and> nr_node r = ds_node s \<and> nr_dialog r = ds_dialog s \<and>
     nr_epoch r = ds_epoch s \<and> nr_registry r = ds_registry s \<and> nr_binding r = ds_binding_version s \<and>
     nr_dialog_version r = ds_dialog_version s + 1 \<and> nr_hold_version r = ds_hold_version s \<and> nr_hold_revision r = ds_hold_revision s"

text \<open>The phases before the effect is known carry no result.\<close>

definition open_phase :: "DeleteStatus \<Rightarrow> bool" where
  "open_phase s \<longleftrightarrow> \<not> ds_archived s \<and> ds_result s = [] \<and> ds_receipt s = None"

definition phase_ok :: "DeleteStatus \<Rightarrow> bool" where
  "phase_ok s =
     (if ds_phase s = ''accepted'' then ds_effect s = ''not_sent'' \<and> ds_hold_version s = 0 \<and> open_phase s
      else if ds_phase s = ''holding'' then ds_effect s = ''sent'' \<and> positive (ds_hold_version s) \<and> open_phase s
      else if ds_phase s = ''reconciling'' then ds_effect s = ''unknown'' \<and> positive (ds_hold_version s) \<and> open_phase s
      else if ds_phase s = ''succeeded'' then ds_effect s = ''reconciled'' \<and> operationPattern (ds_result s) \<and>
        (if ds_archived s then ds_hold_version s = 0 \<and> ds_receipt s = None \<and> ds_result s = ''archive_tombstoned''
         else positive (ds_hold_version s) \<and> (case ds_receipt s of None \<Rightarrow> False | Some r \<Rightarrow> statusReceiptMatches s r) \<and>
           ds_result s = ''node_tombstoned'')
      else ds_phase s = ''failed'' \<and> ds_effect s = ''failed'' \<and> 0 \<le> ds_hold_version s \<and> ds_hold_version s \<le> MaximumSafeInteger \<and>
        \<not> ds_archived s \<and> operationPattern (ds_result s) \<and> ds_receipt s = None)"

definition ValidateStatus :: "DeleteStatus \<Rightarrow> bool" where
  "ValidateStatus s \<longleftrightarrow> ds_schema s = ''logical-dialog-delete-v1'' \<and> uuidPattern (ds_operation s) \<and> sha256Pattern (ds_hash s) \<and>
     uuidPattern (ds_command s) \<and> uuidPattern (ds_logical_dialog s) \<and> positive (ds_binding_version s) \<and>
     incrementable (ds_dialog_version s) \<and> uuidPattern (ds_node s) \<and> uuidPattern (ds_dialog s) \<and> positive (ds_registry s) \<and>
     1 \<le> ds_epoch s \<and> ds_epoch s \<le> MaximumSafeInteger \<and> 0 \<le> ds_hold_revision s \<and> ds_hold_revision s \<le> MaximumSafeInteger \<and>
     positive (ds_version s) \<and> ds_phase s \<in> {''accepted'', ''holding'', ''reconciling'', ''succeeded'', ''failed''} \<and>
     ds_effect s \<in> {''not_sent'', ''sent'', ''unknown'', ''reconciled'', ''failed''} \<and> parse_time (ds_updated_at s) \<and> phase_ok s"

record AdvanceRequest =
  av_schema :: string
  av_operation :: string
  av_hash :: string
  av_version :: int
  av_action :: string
  av_hold_version :: int
  av_hold_revision :: int
  av_result :: string
  av_receipt :: "NodeReceipt option"

definition ValidateAdvance :: "AdvanceRequest \<Rightarrow> bool" where
  "ValidateAdvance v \<longleftrightarrow> av_schema v = ''logical-dialog-delete-advance-v1'' \<and> uuidPattern (av_operation v) \<and> sha256Pattern (av_hash v) \<and>
     positive (av_version v) \<and>
     (if av_action v = ''hold'' then positive (av_hold_version v) \<and> positive (av_hold_revision v) \<and> av_receipt v = None \<and> av_result v = []
      else if av_action v = ''unknown'' then av_hold_version v = 0 \<and> av_hold_revision v = 0 \<and> av_receipt v = None \<and> av_result v = []
      else if av_action v = ''complete'' then av_hold_version v = 0 \<and> av_hold_revision v = 0 \<and>
        (case av_receipt v of None \<Rightarrow> False | Some r \<Rightarrow> ValidateNodeReceipt r) \<and> av_result v = []
      else av_action v = ''reject'' \<and> av_hold_version v = 0 \<and> av_receipt v = None \<and> operationPattern (av_result v) \<and>
        0 \<le> av_hold_revision v \<and> av_hold_revision v \<le> MaximumSafeInteger)"

record ClosureDescriptor =
  cd_logical_dialog :: string
  cd_binding :: int
  cd_node :: string
  cd_dialog :: string
  cd_dialog_version :: int
  cd_version :: int
  cd_zero_pending :: bool
  cd_checkpoint :: string
  cd_checkpoint_hash :: string
  cd_verified_at :: string

text \<open>The checkpoint is the raw bytes of a JSON document.\<close>

definition ValidateClosure :: "(string \<Rightarrow> string) \<Rightarrow> ClosureDescriptor \<Rightarrow> bool" where
  "ValidateClosure H v \<longleftrightarrow> uuidPattern (cd_logical_dialog v) \<and> positive (cd_binding v) \<and> uuidPattern (cd_node v) \<and>
     uuidPattern (cd_dialog v) \<and> positive (cd_dialog_version v) \<and> positive (cd_version v) \<and> cd_zero_pending v \<and>
     cd_checkpoint v \<noteq> [] \<and> sha256Pattern (cd_checkpoint_hash v) \<and> parse_time (cd_verified_at v) \<and>
     H (cd_checkpoint v) = cd_checkpoint_hash v"

section \<open>The deletion\<close>

definition delete_messages :: "string \<times> string \<times> string" where
  "delete_messages = (''logical delete commit was not attempted'', ''atomic logical delete commit failed'',
     ''logical delete receipt delivery was interrupted'')"

definition json_Command :: "CommandEnvelope \<Rightarrow> json" where
  "json_Command env = JObj [(''protocolVersion'', jnum ProtocolVersion), (''schemaId'', JStr SchemaID), (''commandId'', JStr (CommandID env)),
     (''kind'', JStr (kind_text (CKind env))), (''target'', Target env), (''expected'', Expected env), (''payload'', Payload env)]"

text \<open>The \<open>dialog.delete\<close> command that the request stands for.\<close>

definition delete_command :: "string \<Rightarrow> NodeRequest \<Rightarrow> CommandEnvelope" where
  "delete_command node rq = \<lparr>CommandID = nq_command rq, CKind = CommandDialogDelete,
     Target = JObj [(''nodeId'', JStr node), (''dialogId'', JStr (nq_dialog rq))],
     Expected = JObj [(''dialogVersion'', jnum (nq_dialog_version rq))], Payload = JObj []\<rparr>"

definition delete_hold_matches :: "NodeRequest \<Rightarrow> hold_row \<Rightarrow> bool" where
  "delete_hold_matches rq h \<longleftrightarrow> h_scope h = ScopeDialog \<and> h_dialog_id h = Some (nq_dialog rq) \<and> h_hold_version h = nq_hold_version rq \<and>
     h_scope_revision h = nq_hold_revision rq \<and> h_node_epoch h = nq_epoch rq \<and> h_binding_generation h = nq_registry rq"

definition delete_receipt :: "NodeRequest \<Rightarrow> string \<Rightarrow> durableState \<Rightarrow> string \<Rightarrow> hold_row \<Rightarrow> int \<Rightarrow> json \<Rightarrow> string \<Rightarrow> NodeReceipt" where
  "delete_receipt rq hash s receiptID h revision commandReceipt at = \<lparr>nr_schema = NodeSchemaID, nr_operation = nq_operation rq,
     nr_request_hash = hash, nr_coordinator_hash = nq_coordinator_hash rq, nr_receipt = receiptID, nr_command = nq_command rq,
     nr_logical_dialog = nq_logical_dialog rq, nr_node = NodeID s, nr_dialog = nq_dialog rq, nr_epoch = Epoch s,
     nr_registry = RegistryVersion s, nr_binding = nq_binding rq, nr_dialog_version = nq_dialog_version rq + 1,
     nr_hold_version = h_hold_version h, nr_hold_revision = revision, nr_event_seq = LastEventSeq s,
     nr_command_receipt = commandReceipt, nr_deleted_at = at\<rparr>"

text \<open>The receipts and the release, once the dialog carries its tombstone.\<close>

definition delete_commit :: "Config \<Rightarrow> io \<Rightarrow> NodeRequest \<Rightarrow> json \<Rightarrow> string \<Rightarrow> string \<Rightarrow> hold_row \<Rightarrow> int \<Rightarrow> handled \<Rightarrow> Result entry" where
  "delete_commit cfg e rq raw hash commandHash h revision handled = (case handled of (references, result, blocking, _) \<Rightarrow>
     tbind (durably ''command receipt identity is unavailable'' newID) (\<lambda>commandReceiptID. tbind (tgets (\<lambda>t. (st t, now t))) (\<lambda>(s, at).
     (let env = delete_command (NodeID s) rq;
          commandReceipt = json_Receipt (cfg\<lparr>CfgNodeID := NodeID s\<rparr>) env commandReceiptID at (LastEventSeq s) result blocking references;
          key = ''dialog:'' @ nq_dialog rq in
      tseq (tguard (Validate ''receipt'' commandReceipt) (not_durable ''internal command receipt is invalid''))
      (tseq (durably ''delete command commit failed'' (insert_command \<lparr>command_id = nq_command rq, c_kind = CommandDialogDelete,
          c_canonical = json_Command env, c_hash = commandHash, c_receipt = commandReceipt, c_accepted_at = at, c_event_seq = LastEventSeq s\<rparr>))
      (tbind (durably ''release receipt identity is unavailable'' newID) (\<lambda>releaseID.
      (let release = json_ReleaseReceipt \<lparr>rl_kind = ''hold.released'', rl_operation = nq_operation rq, rl_receipt = releaseID,
            rl_node = NodeID s, rl_epoch = Epoch s, rl_binding = RegistryVersion s, rl_scope = hold_scope_of h,
            rl_hold_version = h_hold_version h, rl_revision = revision + 1, rl_manual_pause = QueuePaused s, rl_released_at = at\<rparr> in
       tseq (tguard (validReleaseReceipt release) (not_durable ''internal release receipt is invalid''))
       (tbind (durably ''logical delete receipt identity is unavailable'' newID) (\<lambda>receiptID.
       (let receipt = delete_receipt rq hash s receiptID h (revision + 1) commandReceipt at in
        tseq (tguard (ValidateNodeReceipt receipt) (not_durable ''internal logical delete receipt is invalid''))
        (tseq (tguard (io_reserve e) (not_durable ''control reserve is unavailable''))
        (tseq (tdo [
           durably ''release revision commit failed'' (advance_scope_revision key revision (revision + 1)),
           durably ''logical delete release commit failed'' (insert_outcome \<lparr>o_operation_id = nq_operation rq, o_action = ''release'',
             o_canonical = raw, o_hash = hash, o_receipt = release, o_scope_revision = revision + 1, o_released_at = at\<rparr>),
           durably ''logical delete receipt commit failed'' (insert_logical_delete \<lparr>y_operation_id = nq_operation rq,
             y_node_request_hash = hash, y_coordinator_request_hash = nq_coordinator_hash rq, y_command_id = nq_command rq,
             y_logical_dialog_id = nq_logical_dialog rq, y_node_dialog_id = nq_dialog rq, y_binding_version = nq_binding rq,
             y_hold_version = nq_hold_version rq, y_hold_scope_revision = revision + 1, y_receipt = json_NodeReceipt receipt,
             y_deleted_at = at\<rparr>),
           durably ''logical delete state commit failed'' saveState])
         (tret (\<lparr>HTTPStatus = 201, Body = json_NodeReceipt receipt, Committed = True\<rparr>, Some delete_messages)))))))))))))))"

definition delete_body :: "(string \<Rightarrow> string) \<Rightarrow> Config \<Rightarrow> io \<Rightarrow> NodeRequest \<Rightarrow> json \<Rightarrow> string \<Rightarrow> Result entry" where
  "delete_body H cfg e rq raw hash = tbind (tgets id) (\<lambda>t. (let s = st t; key = ''dialog:'' @ nq_dialog rq in
     tseq (tguard (nq_epoch rq = Epoch s \<and> nq_registry rq = RegistryVersion s)
       (CommandFailure 409 ''stale'' ''node identity changed'' (Some (Epoch s)) ''blocked''))
     (case lookup_row y_operation_id (nq_operation rq) (logical_delete_receipts t) of
        Some y \<Rightarrow> tseq (tguard (y_node_request_hash y = hash) (reject 409 ''id_conflict'' ''operationId already names different bytes''))
            (tret (\<lparr>HTTPStatus = 200, Body = y_receipt y, Committed = False\<rparr>, None))
      | None \<Rightarrow>
         tbind (tfind (\<lambda>t. find (\<lambda>h. operation_id h = nq_operation rq \<and> h_node_id h = NodeID s \<and> hold_active t h) (administrative_holds t))
             (CommandFailure 409 ''stale'' ''logical delete hold is not active'' None ''blocked'')) (\<lambda>h.
         tseq (tguard (delete_hold_matches rq h) (CommandFailure 409 ''stale'' ''logical delete hold changed'' None ''blocked''))
         (tseq (tguard (scope_revision key t = Some (h_scope_revision h)) (CommandFailure 409 ''stale'' ''logical delete scope changed''
             (Some (case scope_revision key t of None \<Rightarrow> 0 | Some v \<Rightarrow> v)) ''blocked''))
         (case CanonicalCommand H (json_Command (delete_command (NodeID s) rq)) of
            None \<Rightarrow> tfail (not_durable ''internal delete command is invalid'')
          | Some (_, commandHash) \<Rightarrow>
             tbind (durably ''delete command lookup failed'' (loadCommandOutcome (nq_command rq))) (\<lambda>outcome. case outcome of
                Some oc \<Rightarrow> if oc_hash oc \<noteq> commandHash then tfail (reject 409 ''id_conflict'' ''commandId already names different bytes'')
                  else tfail (CommandFailure 409 ''stale'' ''delete command exists without operation receipt'' None ''blocked'')
              | None \<Rightarrow> tbind (applyDialogDelete (delete_command (NodeID s) rq))
                  (delete_commit cfg e rq raw hash commandHash h (h_scope_revision h)))))))))"

definition DeleteLogicalDialog :: "(string \<Rightarrow> string) \<Rightarrow> Config \<Rightarrow> string \<Rightarrow> io \<Rightarrow> json option \<Rightarrow> database \<Rightarrow> Result \<times> database" where
  "DeleteLogicalDialog H cfg transport e raw db = (let c = io_correlation e;
       invalid = (errorResult 400 ''invalid'' ''logical delete request is invalid'' c None [], db) in
     if transport \<noteq> CfgNodeID cfg then (errorResult 404 ''not_found'' ''node was not found'' c None [], db)
     else case raw of None \<Rightarrow> invalid
     | Some v \<Rightarrow> (case decode_NodeRequest v of None \<Rightarrow> invalid
       | Some rq \<Rightarrow> (case NodeRequestHash H rq of None \<Rightarrow> invalid
         | Some hash \<Rightarrow> if nq_node rq \<noteq> CfgNodeID cfg
             then (errorResult 404 ''not_found'' ''node was not found'' (nq_operation rq) None [], db)
             else run_entry (delete_body H cfg e rq v hash) e (nq_operation rq) db)))"

definition LogicalDeleteStatus :: "Config \<Rightarrow> string \<Rightarrow> string \<Rightarrow> io \<Rightarrow> database \<Rightarrow> Result" where
  "LogicalDeleteStatus cfg transport operationID e db = (let c = (if operationID = [] then io_correlation e else operationID) in
     if transport \<noteq> CfgNodeID cfg \<or> \<not> uuidPattern operationID then errorResult 404 ''not_found'' ''operation was not found'' c None []
     else case lookup_row y_operation_id operationID (logical_delete_receipts db) of
       None \<Rightarrow> errorResult 404 ''not_found'' ''operation was not found'' c None []
     | Some y \<Rightarrow> if (case decode_NodeReceipt (y_receipt y) of None \<Rightarrow> False | Some r \<Rightarrow> ValidateNodeReceipt r)
         then \<lparr>HTTPStatus = 200, Body = y_receipt y, Committed = False\<rparr>
         else errorResult 503 ''not_durable'' ''logical delete status is invalid'' c None [])"

lemmas delete_code [code] =
  delete_commit_def [unfolded exec_unfold]
  delete_body_def [unfolded exec_unfold]

section \<open>The deletion keeps the store invariants\<close>

locale delete_frame = admission_frame + release_frame
begin

lemma keep_delete_commit: "keeps I (delete_commit cfg e rq raw hash ch h v x)"
  unfolding delete_commit_def by (intro keeps keep_all keep_release_all keep_command)

lemma keep_delete_body: "keeps I (delete_body H cfg e rq raw hash)"
  unfolding delete_body_def by (intro keeps keep_outcome_read keep_applyDialogDelete keep_delete_commit)

end

lemma saved_delete_commit: "ends_saved (delete_commit cfg e rq raw hash ch h v x)"
  unfolding delete_commit_def
  by (intro ends_saved_ret ends_saved_prod ends_saved_let ends_saved_bind ends_saved_seq ends_saved_tdo ends_saved_durably ends_saved_save
      keeps identity.keep_all identity.keep_release_all identity.keep_command)

lemma saved_delete_body: "keeps state_saved (delete_body H cfg e rq raw hash)"
  unfolding delete_body_def
  by (intro keeps saved_outcome_read keeps_saved_ends ends_saved_bind [OF identity.keep_applyDialogDelete saved_delete_commit])

section \<open>What a deletion does\<close>

lemma tombstone_row:
  "d \<noteq> [] \<Longrightarrow> e_dialog_id e = Some d \<Longrightarrow> P e \<Longrightarrow>
     exists_row (\<lambda>x. e_dialog_id x = Some d \<and> e_projection_key x = Some ''dialog.deleted'')
       (update_rows P (\<lambda>x. x\<lparr>e_projection_key := Some ''dialog.deleted''\<rparr>) (rows @ [e]))"
  by (auto simp: exists_row_def set_update_rows)

lemma tombstone_set:
  assumes "tgt env ''dialogId'' \<noteq> []"
  shows "wp (applyDialogDelete env) (\<lambda>_. dialog_deleted (tgt env ''dialogId'')) t"
  unfolding applyDialogDelete_def Let_def dialog_deleted_def
  by (simp add: wp update_dialogs_def wp_appendEvent update_events_def Let_def)
     (use assms in \<open>auto simp: event_row_of_def nullText_def intro!: tombstone_row\<close>)

lemma settled_deleted:
  "wp (applyDialogDelete env) (\<lambda>_ _. \<not> dialog_unresolved (tgt env ''dialogId'') t \<and> \<not> dialog_deleted (tgt env ''dialogId'') t) t"
  unfolding applyDialogDelete_def Let_def by (intro wp_front) (auto simp: wp)

lemma delete_commit_effect:
  "wp (delete_commit cfg e rq raw hash ch h v x) (\<lambda>(r, _) t'. Committed r \<and> events t' = events t \<and>
     (\<exists>y \<in> set (logical_delete_receipts t'). y_operation_id y = nq_operation rq \<and> y_node_request_hash y = hash \<and> y_receipt y = Body r) \<and>
     (\<exists>c \<in> set (commands t'). command_id c = nq_command rq \<and> c_hash c = ch) \<and>
     (\<exists>oc \<in> set (hold_outcomes t'). o_operation_id oc = nq_operation rq)) t"
  unfolding delete_commit_def
  by (cases x) (simp add: wp statement_defs Let_def)

text \<open>Everything a deletion commits, as one relation between the database before and after it.\<close>

definition deletion_done :: "NodeRequest \<Rightarrow> txn \<Rightarrow> txn \<Rightarrow> bool" where
  "deletion_done rq t t' \<longleftrightarrow>
     exists_row (\<lambda>h. operation_id h = nq_operation rq \<and> hold_active t h \<and> delete_hold_matches rq h) (administrative_holds t) \<and>
     \<not> dialog_unresolved (nq_dialog rq) t \<and> \<not> dialog_deleted (nq_dialog rq) t \<and>
     dialog_deleted (nq_dialog rq) t' \<and> (\<forall>h. operation_id h = nq_operation rq \<longrightarrow> \<not> hold_active t' h) \<and>
     exists_row (\<lambda>c. command_id c = nq_command rq) (commands t') \<and>
     exists_row (\<lambda>y. y_operation_id y = nq_operation rq) (logical_delete_receipts t')"

lemma delete_command_tgt: "tgt (delete_command n rq) ''dialogId'' = nq_dialog rq"
  by (simp add: tgt_def delete_command_def jstr_def)

lemma delete_commit_messages: "wp (delete_commit cfg e rq raw hash ch h v x) (\<lambda>(r, msgs) t'. msgs = Some delete_messages) t"
  unfolding delete_commit_def by (cases x) (simp add: wp statement_defs Let_def)

lemma deletion_effect:
  assumes "nq_dialog rq \<noteq> []"
    and "exists_row (\<lambda>h. operation_id h = nq_operation rq \<and> hold_active t h \<and> delete_hold_matches rq h) (administrative_holds t)"
  shows "wp (applyDialogDelete (delete_command n rq)) (\<lambda>x. wp (delete_commit cfg e rq raw hash ch h v x)
    (\<lambda>(r, msgs) t'. Committed r \<and> msgs = Some delete_messages \<and> deletion_done rq t t')) t"
proof (rule wp_mono [OF wp_conj [THEN iffD2, OF conjI, OF tombstone_set settled_deleted]])
  show "tgt (delete_command n rq) ''dialogId'' \<noteq> []" using assms(1) by (simp add: delete_command_tgt)
next
  fix x t1
  assume "dialog_deleted (tgt (delete_command n rq) ''dialogId'') t1 \<and>
    \<not> dialog_unresolved (tgt (delete_command n rq) ''dialogId'') t \<and> \<not> dialog_deleted (tgt (delete_command n rq) ''dialogId'') t"
  then show "wp (delete_commit cfg e rq raw hash ch h v x) (\<lambda>(r, msgs) t'. Committed r \<and> msgs = Some delete_messages \<and> deletion_done rq t t') t1"
    by (intro wp_mono [OF wp_conj [THEN iffD2, OF conjI, OF delete_commit_effect delete_commit_messages]])
       (use assms(2) in \<open>auto simp: deletion_done_def delete_command_tgt dialog_deleted_def exists_row_def hold_active_def\<close>)
qed

lemma delete_body_effect:
  assumes "nq_dialog rq \<noteq> []"
  shows "wp (delete_body H cfg e rq raw hash)
    (\<lambda>(r, msgs) t'. (msgs = (if Committed r then Some delete_messages else None)) \<and> (Committed r \<longrightarrow> deletion_done rq t t')) t"
proof -
  have eff: "wp (applyDialogDelete (delete_command (NodeID (st t)) rq)) (\<lambda>x. wp (delete_commit cfg e rq raw hash ch h v x)
      (\<lambda>(r, msgs) t'. (msgs = (if Committed r then Some delete_messages else None)) \<and> (Committed r \<longrightarrow> deletion_done rq t t'))) t"
    if "find (\<lambda>h. operation_id h = nq_operation rq \<and> h_node_id h = NodeID (st t) \<and> hold_active t h) (administrative_holds t) = Some h"
      "delete_hold_matches rq h" for h ch v
    by (rule wp_mono [OF deletion_effect [OF assms]], use that in \<open>force simp: exists_row_def find_Some_iff in_set_conv_nth\<close>)
       (rule wp_mono, assumption, auto)
  show ?thesis
    unfolding delete_body_def
    by (intro wp_front) (auto simp: wp wp_loadCommandOutcome Let_def eff split: option.split list.split)
qed

lemma uuid_nonempty: "uuidPattern x \<Longrightarrow> x \<noteq> []"
  by (auto simp: uuidPattern_def matches_def)

lemma deletion_done_tables: "deletion_done rq (begin_tx db ids at) t = deletion_done rq (begin_tx db [] []) t"
  by (simp add: deletion_done_def hold_active_def dialog_deleted_def dialog_unresolved_def attempt_dialog_def begin_tx_def database.defs)

lemma deletion_done_later: "deletion_done rq t0 t = deletion_done rq t0 (t\<lparr>idsrc := ids, now := at\<rparr>)"
  by (simp add: deletion_done_def hold_active_def dialog_deleted_def)

text \<open>
  C30: a logical deletion is atomic. A response that is not marked committed leaves the database
  exactly as it was. A committed one has done everything at once: under an active hold of the
  request's operation that matches its version, revision, epoch and generation, the dialog had
  nothing unresolved and was not deleted; now it carries its tombstone, the hold is released, and
  the command and the deletion receipt are both stored.
\<close>

theorem logical_delete_atomic:
  assumes "DeleteLogicalDialog H cfg transport e (Some v) db = (r, db')"
  shows "if Committed r then \<exists>rq. decode_NodeRequest v = Some rq \<and> deletion_done rq (begin_tx db [] []) (begin_tx db' [] []) else db' = db"
proof (cases "db' = db \<and> \<not> Committed r")
  case False
  then obtain rq hash where rq: "decode_NodeRequest v = Some rq" "nq_dialog rq \<noteq> []"
    and run: "run_entry (delete_body H cfg e rq v hash) e (nq_operation rq) db = (r, db')"
    using assms by (auto simp: DeleteLogicalDialog_def Let_def NodeRequestHash_def ValidateNodeRequest_def
      split: if_splits option.splits dest!: uuid_nonempty)
  show ?thesis
  proof (cases "delete_body H cfg e rq v hash (begin_tx db (io_ids e) (io_now e))")
    case (Inl err)
    then show ?thesis using run by (auto simp: run_entry_def split: if_splits)
  next
    case (Inr x)
    then obtain rb m t where b: "delete_body H cfg e rq v hash (begin_tx db (io_ids e) (io_now e)) = Inr ((rb, m), t)"
      by (cases x) auto
    have "state_saved t" using wpD [OF keepsD [OF saved_delete_body begin_tx_saved] b] by simp
    then have "deletion_done rq (begin_tx db [] []) (begin_tx (commit_tx t) [] [])" if "Committed rb"
      using wpD [OF delete_body_effect [OF rq(2)] b] that
      by (simp add: commit_begin deletion_done_later [symmetric] deletion_done_tables [of rq db "io_ids e" "io_now e" t])
    then show ?thesis using run b wpD [OF delete_body_effect [OF rq(2)] b] rq(1)
      by (auto simp: run_entry_def delete_messages_def split: if_splits)
  qed
qed auto

definition sample_deletion :: json where
  "sample_deletion = JObj [(''schemaId'', JStr NodeSchemaID), (''operationId'', JStr ''00000000-0000-4000-8000-0000000000c7''),
     (''coordinatorRequestHash'', JStr (sample_hash [])), (''commandId'', JStr ''00000000-0000-4000-8000-0000000000c8''),
     (''logicalDialogId'', JStr ''00000000-0000-4000-8000-0000000000d9''), (''nodeId'', JStr sample_node), (''nodeDialogId'', JStr sample_dialog),
     (''expectedEpoch'', JNum ''1''), (''registryVersion'', JNum ''1''), (''bindingVersion'', JNum ''1''), (''expectedDialogVersion'', JNum ''3''),
     (''holdVersion'', JNum ''1''), (''holdScopeRevision'', JNum ''1'')]"

definition sample_deletable :: database where
  "sample_deletable = sample_queued\<lparr>messages := [], requests := [], hold_scope_revisions := [(''dialog:'' @ sample_dialog, 1)],
     administrative_holds := [\<lparr>operation_id = ''00000000-0000-4000-8000-0000000000c7'', h_node_id = sample_node, h_node_epoch = 1,
       h_binding_generation = 1, h_scope = ScopeDialog, h_dialog_id = Some sample_dialog, h_hold_version = 1, h_scope_revision = 1,
       h_canonical = JNull, h_hash = [], h_receipt = JNull, h_installed_at = io_now sample_io\<rparr>]\<rparr>"

definition sample_delete :: "Result \<times> database" where
  "sample_delete = DeleteLogicalDialog sample_hash sample_config sample_node (sample_io\<lparr>io_ids :=
     map (\<lambda>x. ''00000000-0000-4000-8000-0000000000'' @ x) [''a1'', ''a2'', ''a3'', ''a4'']\<rparr>) (Some sample_deletion) sample_deletable"

lemma sample_delete_committed: "Committed (fst sample_delete)"
  by code_simp

theorem logical_delete_atomic_witness:
  "\<exists>rq. decode_NodeRequest sample_deletion = Some rq \<and> deletion_done rq (begin_tx sample_deletable [] []) (begin_tx (snd sample_delete) [] [])"
  using logical_delete_atomic [of sample_hash sample_config sample_node _ sample_deletion sample_deletable
      "fst sample_delete" "snd sample_delete"] sample_delete_committed by (simp add: sample_delete_def)

end
