(* ===== verification/System.thy ===== *)
theory System
  imports LogicalDelete
begin

text \<open>
  The node as a transition system: one rule per transaction of the runtime, with every answer from
  outside (identities, clock, adapter, storage) and every argument free. The locale
  \<open>runtime_invariant\<close> is the contract of an invariant of the whole program; its lemma says that it
  holds in every reachable database. It is interpreted on the event log, the table keys and
  references, the quiescence counters, the execution slot, the start fence and the durable command
  outcomes. The composed operations, \<open>performAction\<close> and the stream loop, are sequences of steps.
\<close>

section \<open>Steps\<close>

inductive node_step :: "(string \<Rightarrow> string) \<Rightarrow> Config \<Rightarrow> database \<Rightarrow> database \<Rightarrow> bool" for H cfg where
  step_submit: "node_step H cfg db (snd (SubmitCommand H cfg trust e raw db))"
| step_install: "node_step H cfg db (snd (InstallHold H cfg transport e raw db))"
| step_release: "node_step H cfg db (snd (ReleaseHold H cfg transport e raw db))"
| step_delete: "node_step H cfg db (snd (DeleteLogicalDialog H cfg transport e raw db))"
| step_dispatch: "node_step H cfg db (snd (DispatchNext H d db))"
| step_claim: "node_step H cfg db (snd (claimAction e auth lane db))"
| step_requeue: "node_step H cfg db (requeueAction e i db)"
| step_finish: "node_step H cfg db (finishAction e i status db)"
| step_started: "node_step H cfg db (snd (markStarted H e ref db))"
| step_steer: "node_step H cfg db (finishSteer e ref m oc db)"
| step_approval: "node_step H cfg db (finishApproval e ref actor p ro db)"
| step_input: "node_step H cfg db (finishInput e ref m p ro db)"
| step_lost: "node_step H cfg db (markAttemptUnknown e ref reason effect db)"
| step_observe: "node_step H cfg db (snd (Observe e ob db))"
| step_event: "node_step H cfg db (snd (ObserveAdapterEvent H e x ref origin ev db))"
| step_reconcile: "node_step H cfg db (snd (ReconcileUnknown H cfg e x ref answer before db))"
| step_pristine: "node_step H cfg db (snd (recoverPristinePolicy H e policy db))"
| step_startup: "node_step H cfg db (snd (recoverStartup e db))"

inductive reachable :: "(string \<Rightarrow> string) \<Rightarrow> Config \<Rightarrow> database \<Rightarrow> bool" for H cfg where
  reach_new: "reachable H cfg (new_volume node owner registry)"
| reach_step: "reachable H cfg db \<Longrightarrow> node_step H cfg db db' \<Longrightarrow> reachable H cfg db'"

definition node_steps :: "(string \<Rightarrow> string) \<Rightarrow> Config \<Rightarrow> database \<Rightarrow> database \<Rightarrow> bool" where
  "node_steps H cfg = (node_step H cfg)\<^sup>*\<^sup>*"

section \<open>Invariants of the program\<close>

locale runtime_invariant = settled_frame +
  assumes tx_submit: "keeps I (submit_body cfg trust e env canonical digest)"
    and tx_install: "keeps I (install_body iq v digest e)"
    and tx_release: "keeps I (release_body lq v digest e)"
    and tx_delete: "keeps I (delete_body H cfg e rq v hash)"
    and tx_dispatch: "keeps I (dispatch_tx c policy)"
    and tx_unknown: "keeps I (setAttemptUnknown ref reason effect)"
    and tx_observe: "keeps I (observe_tx ob)"
    and tx_event: "keeps I (adapter_event_tx H x ref ev)"
    and tx_reconcile: "keeps I (reconcile_tx H x ref result)"
begin

lemma transact_inv: "keeps I m \<Longrightarrow> keeps state_saved m \<Longrightarrow> db_inv I db \<Longrightarrow> db_inv I (snd (transact e m db))"
  using run_tx_inv [of m db "io_ids e" "io_now e" "io_commit e"] by (auto simp: transact_def split: prod.split)

lemma delete_inv: "db_inv I db \<Longrightarrow> db_inv I (snd (DeleteLogicalDialog H cfg transport e raw db))"
  using run_entry_inv [OF tx_delete saved_delete_body]
  by (auto simp: DeleteLogicalDialog_def Let_def split: option.split)

lemma block_policy_inv: "db_inv I db \<Longrightarrow> db_inv I (blockPolicy e db)"
  using run_tx_inv [OF keep_block_policy saved_block_policy] by (simp add: blockPolicy_def)

lemma dispatch_inv: "db_inv I db \<Longrightarrow> db_inv I (snd (DispatchNext H d db))"
  using run_tx_inv [OF tx_dispatch saved_dispatch, of db] block_policy_inv [of db]
  by (auto simp: DispatchNext_def split: sum.split option.split prod.split if_splits) (metis snd_conv)+

lemma mark_unknown_inv: "db_inv I db \<Longrightarrow> db_inv I (markAttemptUnknown e ref reason effect db)"
proof -
  have "keeps I (mark_unknown_tx ref reason effect)" unfolding mark_unknown_tx_def by (intro keeps tx_unknown keep_save)
  from run_tx_inv [OF this saved_mark_unknown] show "db_inv I db \<Longrightarrow> ?thesis" by (simp add: markAttemptUnknown_def)
qed

lemma step_inv: "node_step H cfg db db' \<Longrightarrow> db_inv I db \<Longrightarrow> db_inv I db'"
proof (induction rule: node_step.induct)
  case (step_submit db trust e raw)
  then show ?case using submit_cases [of H cfg trust e raw db] run_entry_inv [OF tx_submit saved_submit] by metis
next
  case (step_install db transport e raw)
  then show ?case using install_cases [of H cfg transport e raw db] run_entry_inv [OF tx_install saved_install] by metis
next
  case (step_release db transport e raw)
  then show ?case using release_cases [of H cfg transport e raw db] run_entry_inv [OF tx_release saved_release] by metis
next
  case (step_claim db e auth lane)
  then show ?case using transact_inv [OF keep_claim saved_claim] by (simp add: claimAction_def)
next
  case (step_observe db e ob)
  then show ?case using run_tx_inv [OF tx_observe saved_observe] by (simp add: Observe_def)
next
  case (step_event db e x ref origin ev)
  then show ?case using run_tx_inv [OF tx_event saved_adapter_event] by (simp add: ObserveAdapterEvent_def)
next
  case (step_reconcile db e x ref answer before)
  then show ?case using run_tx_inv [OF tx_reconcile saved_reconcile]
    by (simp add: ReconcileUnknown_def applyReconciledTerminal_def split: sum.split option.split)
qed (simp_all add: delete_inv dispatch_inv mark_unknown_inv recoverPristinePolicy_def recoverStartup_def requeueAction_def finishAction_def
      markStarted_def finishSteer_def finishApproval_def finishInput_def transact_inv keep_set_control saved_set_control
      keep_started saved_started keep_steer tx_unknown saved_steer keep_response saved_response keep_approval_mutation
      keep_input_mutation identity.keep_approval_mutation identity.keep_input_mutation keep_pristine saved_pristine
      keep_startup_with saved_startup)

lemma reachable_inv:
  assumes "\<And>node owner registry. db_inv I (new_volume node owner registry)" and "reachable H cfg db"
  shows "db_inv I db"
  using assms(2) by (induction rule: reachable.induct) (auto intro: assms(1) step_inv)

end

subsection \<open>Invariants kept by every statement\<close>

sublocale store_frame \<subseteq> runtime_invariant
proof unfold_locales
  show "keeps I (delete_body H cfg e rq v hash)" for H cfg e rq v hash
    unfolding delete_body_def delete_commit_def
    by (intro keeps keep_all keep_outcome_read keep_applyDialogDelete keep_release_all keep_command)
qed (rule keep_submit keep_install keep_release keep_dispatch keep_set_unknown keep_observe keep_adapter_event keep_reconcile)+

lemma new_volume_stores:
  "db_inv log_inv (new_volume n ow r)" "db_inv primary_keys (new_volume n ow r)" "db_inv foreign_keys (new_volume n ow r)"
  "db_inv quiescence_range (new_volume n ow r)"
  by (simp_all add: db_inv_def new_volume_def new_volume_state_def begin_tx_def database.defs log_inv_def primary_keys_def
      foreign_keys_def quiescence_range_def quiescence_ok_def MaximumSafeInteger_def)

subsection \<open>The execution slot\<close>

lemma own_dispatch: "keeps own_attempts (dispatch_tx c policy)"
proof (rule keepsI, rule wpI)
  fix t res t'
  assume inv: "own_attempts t" and run: "dispatch_tx c policy t = Inr (res, t')"
  show "own_attempts t'"
  proof (cases "dr_outcome res = Dispatching")
    case True
    obtain r m where a: "attempts t' = attempts t @ [new_attempt (dr_attempt res) r (next_generation (r_input_message_id r) t) policy (st t)]"
      and s: "(st t')\<lparr>LastEventSeq := 0\<rparr> = (occupy_slot (dr_attempt res) (st t))\<lparr>LastEventSeq := 0\<rparr>"
      by (rule dispatch_effect [OF run True])
    from arg_cong [where f = NodeID, OF s] have "NodeID (st t') = NodeID (st t)" by (simp add: occupy_slot_def)
    then show ?thesis using inv by (simp add: own_attempts_def a new_attempt_def)
  next
    case False
    then show ?thesis using dispatch_tx_other [OF run] inv by simp
  qed
qed

lemma own_attempt_txs:
  "keeps own_attempts (submit_body cfg trust e env canonical digest)" "keeps own_attempts (install_body iq v digest e)"
  "keeps own_attempts (release_body lq v digest e)" "keeps own_attempts (observe_tx ob)" "keeps own_attempts (adapter_event_tx H x ref ev)"
  "keeps own_attempts (reconcile_tx H x ref result)"
  by (rule own_node.keep_submit own_node.keep_install own_node.keep_release own_node.keep_observe own_node.keep_adapter_event
      own_node.keep_reconcile)+

interpretation slot_delete: delete_frame slot_ok
  by unfold_locales

interpretation slot_program: runtime_invariant slot_ok
proof unfold_locales
  show "keeps slot_ok (dispatch_tx c policy)" for c policy
    unfolding keeps_slot_ok by (intro keeps_conj keep_slot_dispatch own_dispatch)
  show "keeps slot_ok (observe_tx ob)" for ob
    unfolding keeps_slot_ok by (intro keeps_conj keep_slot_observe own_attempt_txs)
  show "keeps slot_ok (adapter_event_tx H x ref ev)" for H x ref ev
    unfolding keeps_slot_ok by (intro keeps_conj keep_slot_adapter_event own_attempt_txs)
  show "keeps slot_ok (reconcile_tx H x ref result)" for H x ref result
    unfolding keeps_slot_ok by (intro keeps_conj slot_reconcile own_attempt_txs)
qed (rule slot_frame_ok.keep_submit slot_frame_ok.keep_install slot_frame_ok.keep_release slot_delete.keep_delete_body slot_ok_set_unknown)+

lemma new_volume_slot: "db_inv slot_ok (new_volume n ow r)"
  using new_volume_stores(2) [of n ow r]
  by (simp add: db_inv_def slot_ok_def slot_keys_def slot_inv_def own_attempts_def active_ids_def begin_tx_def database.defs
      new_volume_def new_volume_state_def)

subsection \<open>The administrative fence\<close>

interpretation fence_delete: delete_frame "start_fence []"
  by unfold_locales

interpretation fence_program: runtime_invariant "start_fence []"
  by unfold_locales
     (rule fence.keep_submit fence_install fence.keep_release fence_delete.keep_delete_body fence_dispatch fence.keep_set_unknown
        fence.keep_observe fence.keep_adapter_event fence.keep_reconcile)+

lemma new_volume_fence: "db_inv (start_fence []) (new_volume n ow r)"
  by (simp add: db_inv_def start_fence_def fresh_attempts_def begin_tx_def database.defs new_volume_def)

subsection \<open>The durable command outcomes\<close>

text \<open>No recorded outcome is ever changed or removed.\<close>

definition outcomes_extend :: "command_row list \<Rightarrow> rejection_row list \<Rightarrow> txn \<Rightarrow> bool" where
  "outcomes_extend cs xs t \<longleftrightarrow> take (length cs) (commands t) = cs \<and> take (length xs) (command_rejections t) = xs"

lemma take_all_length: "take (length old) rows = old \<Longrightarrow> length old \<le> length rows"
  by (metis length_take min.cobounded1 nle_le)

interpretation outcomes_kept: store_frame "outcomes_extend cs xs" for cs xs
proof unfold_locales
  show "keeps (outcomes_extend cs xs) (appendEvent ty ent ver att dia body late)" for ty ent ver att dia body late
    by (auto simp: keeps_def wp_appendEvent outcomes_extend_def Let_def)
  show "keeps (outcomes_extend cs xs) saveState"
    by (simp add: keeps_def wp saveState_def outcomes_extend_def)
  show "keeps (outcomes_extend cs xs) (insert_command c)" "keeps (outcomes_extend cs xs) (insert_rejection x)" for c x
    by (auto simp: keeps_def wp insert_command_def insert_rejection_def outcomes_extend_def dest: take_all_length)
qed (auto simp: keeps_def wp statement_defs outcomes_extend_def Let_def)

text \<open>No command is both accepted and rejected.\<close>

definition never_rejected :: "string list \<Rightarrow> txn \<Rightarrow> bool" where
  "never_rejected ids t \<longleftrightarrow> outcomes_disjoint t \<and> set ids \<inter> x_command_id ` set (command_rejections t) = {}"

interpretation disjoint: barrier_slot_frame "never_rejected ids" for ids
proof unfold_locales
  show "keeps (never_rejected ids) (appendEvent ty ent ver att dia body late)" for ty ent ver att dia body late
    by (auto simp: keeps_def wp_appendEvent never_rejected_def outcomes_disjoint_def Let_def)
  show "keeps (never_rejected ids) saveState"
    by (simp add: keeps_def wp saveState_def never_rejected_def outcomes_disjoint_def)
qed (auto simp: keeps_def wp statement_defs never_rejected_def outcomes_disjoint_def Let_def)

lemma disjoint_insert_command: "command_id r \<in> set ids \<Longrightarrow> keeps (never_rejected ids) (insert_command r)"
  by (auto simp: keeps_def wp insert_command_def never_rejected_def outcomes_disjoint_def)

lemma disjoint_delete_commit: "keeps (never_rejected [nq_command rq]) (delete_commit cfg e rq raw hash ch h v x)"
  unfolding delete_commit_def
  by (intro keeps disjoint.keep_all disjoint.keep_release_all disjoint_insert_command) simp

lemma never_rejected_Nil: "never_rejected ids t \<Longrightarrow> never_rejected [] t"
  by (simp add: never_rejected_def)

lemma disjoint_delete_body: "keeps (never_rejected []) (delete_body H cfg e rq raw hash)"
proof (rule keepsI)
  fix t
  assume t: "never_rejected [] t"
  have "wp (tbind (applyDialogDelete env) (delete_commit cfg e rq raw hash ch h v)) (\<lambda>_. never_rejected []) t'"
    if "never_rejected [nq_command rq] t'" for env ch h v t'
    by (rule wp_mono [OF keepsD [OF keeps_tbind [OF disjoint.keep_applyDialogDelete disjoint_delete_commit] that]])
       (rule never_rejected_Nil)
  moreover have "never_rejected [nq_command rq] t" if "command_outcomes (nq_command rq) t = []"
    using t that by (auto simp: never_rejected_def no_outcome)
  ultimately show "wp (delete_body H cfg e rq raw hash) (\<lambda>_. never_rejected []) t"
    unfolding delete_body_def Let_def
    by (intro wp_front wp_case_option) (auto simp: wp wp_loadCommandOutcome t split: list.split option.split)
qed

lemma disjoint_submit_body: "keeps (never_rejected []) (submit_body cfg trust e env canonical digest)"
  using disjoint_submit by (simp add: keeps_def never_rejected_def [abs_def])

interpretation disjoint_program: runtime_invariant "never_rejected []"
  by unfold_locales
     (rule disjoint_submit_body disjoint.keep_install disjoint.keep_release disjoint_delete_body disjoint.keep_dispatch
        disjoint.keep_set_unknown disjoint.keep_observe disjoint.keep_adapter_event disjoint.keep_reconcile)+

lemma new_volume_disjoint: "db_inv (never_rejected []) (new_volume n ow r)"
  by (simp add: db_inv_def never_rejected_def outcomes_disjoint_def begin_tx_def database.defs new_volume_def)

section \<open>Composed operations\<close>

text \<open>
  An action and an adapter stream are sequences of the transactions above, so that every invariant
  holds between them whatever other transactions are interleaved.
\<close>

lemma steps_refl [intro]: "node_steps H cfg db db"
  by (simp add: node_steps_def)

lemma steps_one: "node_step H cfg db db' \<Longrightarrow> node_steps H cfg db db'"
  by (auto simp: node_steps_def)

lemma steps_then: "node_steps H cfg db db' \<Longrightarrow> node_step H cfg db' db'' \<Longrightarrow> node_steps H cfg db db''"
  by (simp add: node_steps_def)

lemma steps_trans: "node_steps H cfg db db' \<Longrightarrow> node_steps H cfg db' db'' \<Longrightarrow> node_steps H cfg db db''"
  by (simp add: node_steps_def)

lemma steps_give_up: "node_steps H cfg db (give_up e ref i reason db)"
  unfolding give_up_def by (rule steps_then [OF steps_one [OF step_lost] step_finish])

lemma steps_stop: "node_steps H cfg db (perform_stop e result ref i db)"
  unfolding perform_stop_def
  by (auto split: option.split CancelOutcome.split intro: steps_give_up steps_one [OF step_finish])

lemma steps_steer: "node_steps H cfg db (perform_steer e result ref i m db)"
  unfolding perform_steer_def
  by (auto split: option.split SteerOutcome.split
      intro!: steps_then [OF _ step_finish] steps_then [OF _ step_steer] steps_one [OF step_steer] steps_one [OF step_lost])

lemma steps_response:
  assumes "\<And>oc db. node_step H cfg db (record oc db)"
  shows "node_steps H cfg db (perform_response e result ref i record db)"
  unfolding perform_response_def
  by (auto split: prod.split intro!: steps_then [OF _ step_finish] steps_then [OF _ assms] steps_one [OF step_lost] steps_one [OF assms])

lemma steps_after_start: "node_steps H cfg db (snd (after_start H e ref i answer db))"
proof (cases answer)
  case Started
  obtain r db' where m: "markStarted H (at_record e) ref db = (r, db')" by (cases "markStarted H (at_record e) ref db")
  then have "node_step H cfg db db'" using step_started [of H cfg db "at_record e" ref] by simp
  then show ?thesis
    by (cases r) (auto simp: after_start_def Started m intro: steps_trans [OF steps_one steps_give_up] steps_then [OF steps_one step_finish])
qed (auto simp: after_start_def intro: steps_give_up steps_then [OF steps_one [OF step_observe] step_finish])

lemma steps_dispatch: "node_steps H cfg db (snd (performDispatch H e d ref i db))"
  unfolding performDispatch_def
  by (auto split: option.split prod.split intro: steps_give_up steps_after_start steps_one [OF step_requeue])

text \<open>Any invariant of the program holds after an action, and after a stream.\<close>

lemma steps_action: "node_steps H cfg db (snd (performAction H cfg e ans k db))"
  unfolding performAction_def Let_def
  by (auto split: action_kind.split CommandKind.split
      intro: steps_dispatch steps_stop steps_steer steps_response step_approval step_input)

lemma steps_lose: "node_steps H cfg db (lose_stream s ref reason db)"
  unfolding lose_stream_def by (auto intro: steps_one [OF step_lost])

lemma steps_stream: "node_steps H cfg db (stream_loop H ref steps db)"
proof (induction steps arbitrary: db)
  case Nil
  show ?case by auto
next
  case (Cons s steps)
  show ?case
  proof (cases "ss_item s")
    case (StreamEvent origin ev)
    obtain r db' where o: "ObserveAdapterEvent H (ss_observe s) (ss_text s) ref origin ev db = (r, db')"
      by (cases "ObserveAdapterEvent H (ss_observe s) (ss_text s) ref origin ev db")
    then have "node_step H cfg db db'" using step_event [of H cfg db "ss_observe s" "ss_text s" ref origin ev] by simp
    then show ?thesis
      by (cases r) (auto simp: StreamEvent o intro: steps_trans [OF steps_one steps_lose] steps_trans [OF steps_one Cons.IH] steps_one)
  qed (auto intro: steps_lose steps_one [OF step_lost])
qed

lemma steps_observe_stream: "node_steps H cfg db (snd (observeAdapterStream H ref first opened steps lease db))"
  unfolding observeAdapterStream_def by (auto split: prod.split registration.split intro: steps_lose steps_stream)

lemma reachable_steps: "node_steps H cfg db db' \<Longrightarrow> reachable H cfg db \<Longrightarrow> reachable H cfg db'"
  unfolding node_steps_def by (induction rule: rtranclp_induct) (auto intro: reach_step)

section \<open>Controls\<close>

text \<open>A control whose outcome is known is never touched again.\<close>

definition settled_kept :: "control_row list \<Rightarrow> txn \<Rightarrow> bool" where
  "settled_kept ks t \<longleftrightarrow> {k \<in> set ks. \<not> open_control k} \<subseteq> set (control_actions t)"

interpretation settled: store_frame "settled_kept ks" for ks
proof unfold_locales
  show "keeps (settled_kept ks) (appendEvent ty ent ver att dia body late)" for ty ent ver att dia body late
    by (auto simp: keeps_def wp_appendEvent settled_kept_def Let_def)
  show "keeps (settled_kept ks) saveState"
    by (simp add: keeps_def wp saveState_def settled_kept_def)
  show "keeps (settled_kept ks) (update_control Pk fk)" if "open_only Pk" for Pk fk
  proof -
    have "set rows \<inter> {k. \<not> open_control k} \<subseteq> set (update_rows Pk fk rows)" for rows
      using that by (auto simp: set_update_rows open_only_def)
    then show ?thesis by (auto simp: keeps_def wp update_control_def settled_kept_def)
  qed
qed (auto simp: keeps_def wp statement_defs settled_kept_def Let_def)

section \<open>From invariants to databases\<close>

context runtime_invariant
begin

lemma steps_inv: "node_steps H cfg db db' \<Longrightarrow> db_inv I db \<Longrightarrow> db_inv I db'"
  unfolding node_steps_def by (induction rule: rtranclp_induct) (auto intro: step_inv)

end

lemma take_prefix: "take (length xs) ys = xs \<Longrightarrow> \<exists>zs. ys = xs @ zs"
  by (metis append_take_drop_id)

lemma log_grows: "node_steps H cfg db db' \<Longrightarrow> \<exists>new. map e_json (events db') = map e_json (events db) @ new"
  using append_only.steps_inv [of H cfg db db' "map e_json (events db)"]
  by (simp add: db_inv_def log_extends_def take_prefix)

lemma outcomes_grow: "node_steps H cfg db db' \<Longrightarrow> \<exists>cs xs. commands db' = commands db @ cs \<and> command_rejections db' = command_rejections db @ xs"
  using outcomes_kept.steps_inv [of H cfg db db' "commands db" "command_rejections db"]
  by (auto simp: db_inv_def outcomes_extend_def dest!: take_prefix)

text \<open>With unique identities on both sides, at most one outcome of a command can exist.\<close>

lemma one_outcome:
  assumes "primary_keys t" and "outcomes_disjoint t" and "oc \<in> set (command_outcomes c t)"
  shows "command_outcomes c t = [oc]"
proof -
  have d: "distinct (map command_id (commands t))" "distinct (map x_command_id (command_rejections t))"
    using assms(1) by (simp_all add: primary_keys_def)
  have one: "length (filter (\<lambda>r. key r = c) rows) \<le> 1" if "distinct (map key rows)" for key :: "'r \<Rightarrow> string" and rows
    using that by (induction rows) (auto simp: filter_empty_conv image_iff)
  have "length (command_outcomes c t) \<le> 1"
  proof (cases "c \<in> command_id ` set (commands t)")
    case True
    then have "filter (\<lambda>x. x_command_id x = c) (command_rejections t) = []"
      using assms(2) by (auto simp: outcomes_disjoint_def filter_empty_conv)
    then show ?thesis using one [OF d(1)] by (simp add: command_outcomes_def)
  next
    case False
    then have "filter (\<lambda>r. command_id r = c) (commands t) = []" by (auto simp: filter_empty_conv)
    then show ?thesis using one [OF d(2)] by (simp add: command_outcomes_def)
  qed
  then show ?thesis using assms(3) by (cases "command_outcomes c t") auto
qed

lemma final_outcome:
  assumes "reachable H cfg db" and "node_steps H cfg db db'" and "oc \<in> set (command_outcomes c (begin_tx db [] []))"
  shows "command_outcomes c (begin_tx db' [] []) = [oc]"
proof (rule one_outcome)
  have r: "reachable H cfg db'" by (rule reachable_steps [OF assms(2,1)])
  show "primary_keys (begin_tx db' [] [])" using table_keys.reachable_inv [OF new_volume_stores(2) r] by (simp add: db_inv_def)
  show "outcomes_disjoint (begin_tx db' [] [])"
    using disjoint_program.reachable_inv [OF new_volume_disjoint r] by (simp add: db_inv_def never_rejected_def)
  show "oc \<in> set (command_outcomes c (begin_tx db' [] []))"
    using outcomes_grow [OF assms(2)] assms(3) by (auto simp: command_outcomes_def)
qed

section \<open>Samples\<close>

lemma sample_volume_reachable: "reachable H cfg sample_volume"
  unfolding sample_volume_def by (rule reach_new)

lemma sample_created_reachable: "reachable sample_hash sample_config (snd sample_created)"
  unfolding sample_created_def by (rule reach_step [OF sample_volume_reachable step_submit])

end
