(* ===== verification/Json.thy ===== *)
theory Json
  imports Wire
begin

text \<open>
  JSON text. The first part is what the code uses of \<open>encoding/json\<close> and \<open>unicode/utf8\<close>: runes,
  quoted strings, the number grammar and the value grammar with its nesting limit, as one parser
  from bytes to decoded values with numbers kept as text (\<open>UseNumber\<close>). The second part is
  \<open>internal/strictjson\<close>, which refuses what \<open>encoding/json\<close> would repair: unpaired surrogates,
  duplicate keys, deep nesting and trailing data.

  The laws show that the parser needs no more steps than it is given, that it reads back what
  \<open>json.Marshal\<close> and the canonical form write, and that the canonical text determines the value.
\<close>

section \<open>Runes\<close>

definition byte :: "char \<Rightarrow> int" where "byte c = of_char c"

definition trail :: "char \<Rightarrow> bool" where "trail c \<longleftrightarrow> 128 \<le> byte c \<and> byte c < 192"

definition head3 :: "char \<Rightarrow> char \<Rightarrow> bool" where
  "head3 a b \<longleftrightarrow> trail b \<and> (if byte a = 224 then 160 \<le> byte b else if byte a = 237 then byte b < 160 else 225 \<le> byte a \<and> byte a < 240)"

definition head4 :: "char \<Rightarrow> char \<Rightarrow> bool" where
  "head4 a b \<longleftrightarrow> trail b \<and> (if byte a = 240 then 144 \<le> byte b else if byte a = 244 then byte b < 144 else 241 \<le> byte a \<and> byte a < 244)"

text \<open>The size of the rune at the front, as \<open>utf8.DecodeRune\<close> finds it; 0 for an invalid encoding.\<close>

definition rune_size :: "string \<Rightarrow> nat" where
  "rune_size s = (case s of
      [] \<Rightarrow> 0
    | [a] \<Rightarrow> if byte a < 128 then 1 else 0
    | [a, b] \<Rightarrow> if byte a < 128 then 1 else if 194 \<le> byte a \<and> byte a < 224 \<and> trail b then 2 else 0
    | [a, b, c] \<Rightarrow> if byte a < 128 then 1 else if 194 \<le> byte a \<and> byte a < 224 \<and> trail b then 2
        else if head3 a b \<and> trail c then 3 else 0
    | a # b # c # d # _ \<Rightarrow> if byte a < 128 then 1 else if 194 \<le> byte a \<and> byte a < 224 \<and> trail b then 2
        else if head3 a b \<and> trail c then 3 else if head4 a b \<and> trail c \<and> trail d then 4 else 0)"

function utf8_valid :: "string \<Rightarrow> bool" where
  "utf8_valid s = (if s = [] then True else if rune_size s = 0 then False else utf8_valid (drop (rune_size s) s))"
  by auto
termination by (relation "measure length") auto

declare utf8_valid.simps [simp del]

text \<open>\<open>utf8.AppendRune\<close>.\<close>

definition rune_error :: string where "rune_error = [CHR 0xEF, CHR 0xBF, CHR 0xBD]"

definition encode_rune :: "int \<Rightarrow> string" where
  "encode_rune n =
     (if n < 0 then rune_error
      else if n < 128 then [char_of n]
      else if n < 2048 then [char_of (192 + n div 64), char_of (128 + n mod 64)]
      else if (55296 \<le> n \<and> n < 57344) \<or> 1114112 \<le> n then rune_error
      else if n < 65536 then [char_of (224 + n div 4096), char_of (128 + n div 64 mod 64), char_of (128 + n mod 64)]
      else [char_of (240 + n div 262144), char_of (128 + n div 4096 mod 64), char_of (128 + n div 64 mod 64), char_of (128 + n mod 64)])"

section \<open>Strings\<close>

definition hex_value :: "char \<Rightarrow> int option" where
  "hex_value c = (let n = byte c in
     if 48 \<le> n \<and> n \<le> 57 then Some (n - 48)
     else if 97 \<le> n \<and> n \<le> 102 then Some (n - 87)
     else if 65 \<le> n \<and> n \<le> 70 then Some (n - 55) else None)"

text \<open>The four hexadecimal digits of a \<open>\u\<close> escape at the front.\<close>

definition hex4 :: "string \<Rightarrow> int option" where
  "hex4 s = (case map hex_value (take 4 s) of
     [Some a, Some b, Some c, Some d] \<Rightarrow> Some (4096 * a + 256 * b + 16 * c + d) | _ \<Rightarrow> None)"

definition high_surrogate :: "int \<Rightarrow> bool" where "high_surrogate n \<longleftrightarrow> 55296 \<le> n \<and> n < 56320"
definition low_surrogate :: "int \<Rightarrow> bool" where "low_surrogate n \<longleftrightarrow> 56320 \<le> n \<and> n < 57344"

text \<open>The rune of a surrogate pair, when a \<open>\u\<close> escape with the second half follows.\<close>

definition surrogate_pair :: "int \<Rightarrow> string \<Rightarrow> int option" where
  "surrogate_pair n s = (if \<not> high_surrogate n \<or> take 2 s \<noteq> [CHR 0x5C, CHR ''u''] then None
     else case hex4 (drop 2 s) of None \<Rightarrow> None
     | Some m \<Rightarrow> if low_surrogate m then Some (65536 + (n - 55296) * 1024 + (m - 56320)) else None)"

definition simple_escape :: "char \<Rightarrow> char option" where
  "simple_escape c = map_of [(CHR 0x22, CHR 0x22), (CHR 0x5C, CHR 0x5C), (CHR ''/'', CHR ''/''), (CHR ''b'', CHR 0x08),
     (CHR ''f'', CHR 0x0C), (CHR ''n'', CHR 0x0A), (CHR ''r'', CHR 0x0D), (CHR ''t'', CHR 0x09)] c"

definition prefix_result :: "string \<Rightarrow> (string \<times> string) option \<Rightarrow> (string \<times> string) option" where
  "prefix_result p x = map_option (\<lambda>(s, r). (p @ s, r)) x"

text \<open>A quoted string after its opening quote: the decoded text and what follows the closing quote.\<close>

function unquote :: "string \<Rightarrow> (string \<times> string) option" where
  "unquote [] = None"
| "unquote (c # cs) =
     (if c = CHR 0x22 then Some ([], cs)
      else if c = CHR 0x5C then (case cs of [] \<Rightarrow> None | e # r \<Rightarrow>
        (if e = CHR ''u'' then (case hex4 r of None \<Rightarrow> None | Some n \<Rightarrow>
           (case surrogate_pair n (drop 4 r) of
              Some m \<Rightarrow> prefix_result (encode_rune m) (unquote (drop 10 r))
            | None \<Rightarrow> prefix_result (encode_rune n) (unquote (drop 4 r))))
         else case simple_escape e of None \<Rightarrow> None | Some b \<Rightarrow> prefix_result [b] (unquote r)))
      else if byte c < 32 then None
      else if rune_size (c # cs) = 0 then prefix_result rune_error (unquote cs)
      else prefix_result (take (rune_size (c # cs)) (c # cs)) (unquote (drop (rune_size (c # cs)) (c # cs))))"
  by pat_completeness auto
termination by (relation "measure length") (auto simp: drop_Cons split: nat.split)

section \<open>Numbers and values\<close>

definition skip_space :: "string \<Rightarrow> string" where
  "skip_space s = dropWhile (\<lambda>c. c \<in> {CHR '' '', CHR 0x09, CHR 0x0A, CHR 0x0D}) s"

definition digits :: "string \<Rightarrow> (string \<times> string) option" where
  "digits s = (let d = takeWhile is_digit s in if d = [] then None else Some (d, dropWhile is_digit s))"

definition number_whole :: "string \<Rightarrow> (string \<times> string) option" where
  "number_whole s = (case s of [] \<Rightarrow> None | c # r \<Rightarrow> if c = CHR ''0'' then Some (''0'', r) else digits s)"

definition number_fraction :: "string \<Rightarrow> (string \<times> string) option" where
  "number_fraction s = (case s of [] \<Rightarrow> Some ([], s) | c # r \<Rightarrow> if c = CHR ''.'' then prefix_result ''.'' (digits r) else Some ([], s))"

definition number_exponent :: "string \<Rightarrow> (string \<times> string) option" where
  "number_exponent s = (case s of [] \<Rightarrow> Some ([], [])
     | e # r \<Rightarrow> if e \<notin> {CHR ''e'', CHR ''E''} then Some ([], s)
         else (case r of [] \<Rightarrow> None
           | g # r' \<Rightarrow> if g \<in> {CHR ''+'', CHR ''-''} then prefix_result [e, g] (digits r') else prefix_result [e] (digits r)))"

definition number_sign :: "string \<Rightarrow> string \<times> string" where
  "number_sign s = (case s of [] \<Rightarrow> ([], s) | c # r \<Rightarrow> if c = CHR ''-'' then (''-'', r) else ([], s))"

definition number :: "string \<Rightarrow> (string \<times> string) option" where
  "number s = (case number_sign s of (sg, r0) \<Rightarrow>
     (case number_whole r0 of None \<Rightarrow> None | Some (w, r1) \<Rightarrow>
       (case number_fraction r1 of None \<Rightarrow> None | Some (f, r2) \<Rightarrow> prefix_result (sg @ w @ f) (number_exponent r2))))"

definition literal :: "string \<Rightarrow> (json \<times> string) option" where
  "literal s = (if take 4 s = ''null'' then Some (JNull, drop 4 s)
     else if take 4 s = ''true'' then Some (JBool True, drop 4 s)
     else if take 5 s = ''false'' then Some (JBool False, drop 5 s)
     else map_option (\<lambda>(x, r). (JNum x, r)) (number s))"

text \<open>
  Values, the items of an array and the members of an object. The first argument bounds the number
  of steps, the second is the nesting that is still allowed (\<open>maxNestingDepth\<close> of the scanner).
\<close>

fun jvalue :: "nat \<Rightarrow> nat \<Rightarrow> string \<Rightarrow> (json \<times> string) option"
  and jitems :: "nat \<Rightarrow> nat \<Rightarrow> string \<Rightarrow> (json list \<times> string) option"
  and jmembers :: "nat \<Rightarrow> nat \<Rightarrow> string \<Rightarrow> ((string \<times> json) list \<times> string) option" where
  "jvalue 0 d s = None"
| "jvalue (Suc n) d s = (case skip_space s of [] \<Rightarrow> None
     | c # cs \<Rightarrow>
         if c = CHR 0x22 then map_option (\<lambda>(x, r). (JStr x, r)) (unquote cs)
         else if c = CHR ''['' then (if d = 0 then None
           else case skip_space cs of
               [] \<Rightarrow> None
             | e # r \<Rightarrow> if e = CHR '']'' then Some (JArr [], r) else map_option (\<lambda>(xs, r). (JArr xs, r)) (jitems n (d - 1) cs))
         else if c = CHR 0x7B then (if d = 0 then None
           else case skip_space cs of
               [] \<Rightarrow> None
             | e # r \<Rightarrow> if e = CHR 0x7D then Some (JObj [], r) else map_option (\<lambda>(m, r). (JObj m, r)) (jmembers n (d - 1) cs))
         else literal (c # cs))"
| "jitems 0 d s = None"
| "jitems (Suc n) d s = (case jvalue n d s of None \<Rightarrow> None
     | Some (x, r) \<Rightarrow> (case skip_space r of [] \<Rightarrow> None
         | e # r' \<Rightarrow> if e = CHR '','' then map_option (\<lambda>(xs, q). (x # xs, q)) (jitems n d r')
             else if e = CHR '']'' then Some ([x], r') else None))"
| "jmembers 0 d s = None"
| "jmembers (Suc n) d s = (case skip_space s of [] \<Rightarrow> None
     | c # cs \<Rightarrow> if c \<noteq> CHR 0x22 then None
         else (case unquote cs of None \<Rightarrow> None
           | Some (k, r) \<Rightarrow> (case skip_space r of [] \<Rightarrow> None
               | e # r' \<Rightarrow> if e \<noteq> CHR '':'' then None
                   else (case jvalue n d r' of None \<Rightarrow> None
                     | Some (x, q) \<Rightarrow> (case skip_space q of [] \<Rightarrow> None
                         | f # q' \<Rightarrow> if f = CHR '','' then map_option (\<lambda>(m, p). ((k, x) # m, p)) (jmembers n d q')
                             else if f = CHR 0x7D then Some ([(k, x)], q') else None)))))"

definition max_nesting :: nat where "max_nesting = 10000"

text \<open>\<open>json.Valid\<close> and decoding in one: \<open>None\<close> exactly when the text is not one JSON value.\<close>

definition parse_json :: "string \<Rightarrow> json option" where
  "parse_json s = (case jvalue (2 * length s + 1) max_nesting s of None \<Rightarrow> None
     | Some (v, r) \<Rightarrow> if skip_space r = [] then Some v else None)"

section \<open>Strict JSON\<close>

text \<open>The escape scan of \<open>Valid\<close>: no unpaired surrogate in a quoted string.\<close>

function escapes_paired :: "bool \<Rightarrow> string \<Rightarrow> bool" where
  "escapes_paired inString [] = True"
| "escapes_paired inString (c # cs) =
     (if c = CHR 0x22 then escapes_paired (\<not> inString) cs
      else if \<not> inString \<or> c \<noteq> CHR 0x5C then escapes_paired inString cs
      else (case cs of [] \<Rightarrow> True | e # r \<Rightarrow>
        if e \<noteq> CHR ''u'' then escapes_paired inString r
        else (case hex4 r of None \<Rightarrow> escapes_paired inString (drop 4 r)
          | Some n \<Rightarrow> if low_surrogate n then False
              else if high_surrogate n then surrogate_pair n (drop 4 r) \<noteq> None \<and> escapes_paired inString (drop 10 r)
              else escapes_paired inString (drop 4 r))))"
  by pat_completeness auto
termination by (relation "measure (length \<circ> snd)") auto

text \<open>The token walk \<open>value\<close>: at most 32 levels, no duplicate key.\<close>

fun strict_value :: "nat \<Rightarrow> json \<Rightarrow> bool" where
  "strict_value depth (JArr items) \<longleftrightarrow> depth \<le> 32 \<and> list_all (strict_value (depth + 1)) items"
| "strict_value depth (JObj m) \<longleftrightarrow> depth \<le> 32 \<and> distinct (map fst m) \<and> list_all (\<lambda>(k, x). strict_value (depth + 1) x) m"
| "strict_value depth _ \<longleftrightarrow> depth \<le> 32"

definition Valid :: "string \<Rightarrow> bool" where
  "Valid raw \<longleftrightarrow> utf8_valid raw \<and> escapes_paired False raw \<and>
     (case parse_json raw of None \<Rightarrow> False | Some v \<Rightarrow> strict_value 0 v)"

text \<open>\<open>decodeObject\<close> of the wire contract and its \<open>UseNumber\<close> decoding: bytes to a document.\<close>

definition MaximumWireBytes :: int where "MaximumWireBytes = 8 * 1024 * 1024"

definition decodeObject :: "string \<Rightarrow> json option" where
  "decodeObject raw = (if MaximumWireBytes < int (length raw) \<or> \<not> Valid raw then None
     else case parse_json raw of Some (JObj m) \<Rightarrow> Some (JObj m) | _ \<Rightarrow> None)"

section \<open>The parser has enough steps\<close>

lemma length_skip_space: "length (skip_space s) \<le> length s"
  by (simp add: skip_space_def length_dropWhile_le)

lemma skip_space_Cons: "skip_space s = c # r \<Longrightarrow> length r < length s"
  using length_skip_space [of s] by simp

lemma prefix_result_Some: "prefix_result p x = Some (y, r) \<longleftrightarrow> (\<exists>z. x = Some (z, r) \<and> y = p @ z)"
  by (auto simp: prefix_result_def)

lemma unquote_length: "unquote s = Some (x, r) \<Longrightarrow> length r < length s"
proof (induction "length s" arbitrary: s x rule: less_induct)
  case less
  show ?case
  proof (cases s)
    case (Cons c cs)
    have tail: "length t \<le> length cs \<longrightarrow> length r < length t" if "unquote t = Some (y, r)" for t y
      using less.hyps [OF _ that] Cons by auto
    show ?thesis
      using less.prems unfolding Cons unquote.simps
      by (auto simp: prefix_result_Some drop_Cons' split: if_splits list.split_asm option.split_asm dest!: tail)
  qed (use less.prems in simp)
qed

lemma digits_length: "digits s = Some (x, r) \<Longrightarrow> length r < length s"
proof -
  assume "digits s = Some (x, r)"
  then have "takeWhile is_digit s = x" "x \<noteq> []" "dropWhile is_digit s = r" by (auto simp: digits_def Let_def split: if_splits)
  then show ?thesis by (metis length_append length_greater_0_conv less_add_same_cancel2 takeWhile_dropWhile_id)
qed

lemma whole_length: "number_whole s = Some (x, r) \<Longrightarrow> length r < length s"
  by (auto simp: number_whole_def dest: digits_length split: list.splits if_splits)

lemma fraction_length: "number_fraction s = Some (x, r) \<Longrightarrow> length r \<le> length s"
  by (auto simp: number_fraction_def prefix_result_Some dest!: digits_length split: list.splits if_splits)

lemma exponent_length: "number_exponent s = Some (x, r) \<Longrightarrow> length r \<le> length s"
  by (auto simp: number_exponent_def prefix_result_Some dest!: digits_length split: list.splits if_splits)

lemma sign_length: "number_sign s = (x, r) \<Longrightarrow> length r \<le> length s"
  by (auto simp: number_sign_def split: list.splits if_splits)

lemma number_length: "number s = Some (x, r) \<Longrightarrow> length r < length s"
  by (fastforce simp: number_def prefix_result_Some split: option.splits prod.splits
      dest: whole_length fraction_length exponent_length sign_length)

lemma literal_length: "literal s = Some (x, r) \<Longrightarrow> length r < length s"
  by (auto simp: literal_def dest: number_length split: if_splits) (cases s; simp)+

lemma parser_length:
  "jvalue n d s = Some (x, r) \<Longrightarrow> length r < length s"
  "jitems n d s = Some (xs, r) \<Longrightarrow> length r < length s"
  "jmembers n d s = Some (m, r) \<Longrightarrow> length r < length s"
proof (induction n arbitrary: d s x r xs m)
  case (Suc n)
  {
    case 1
    then show ?case
      by (fastforce dest!: Suc.IH(2,3) unquote_length literal_length skip_space_Cons split: list.splits if_splits)
  next
    case 2
    then show ?case
      by (fastforce dest!: Suc.IH(1,2) skip_space_Cons split: option.splits list.splits if_splits)
  next
    case 3
    then show ?case
      by (fastforce dest!: Suc.IH(1,3) unquote_length skip_space_Cons split: option.splits list.splits if_splits)
  }
qed simp_all

text \<open>More steps than twice the length never change the result.\<close>

lemma parser_steps:
  "2 * length s < n \<Longrightarrow> 2 * length s < n' \<Longrightarrow> jvalue n d s = jvalue n' d s"
  "2 * length s + 1 < n \<Longrightarrow> 2 * length s + 1 < n' \<Longrightarrow> jitems n d s = jitems n' d s"
  "2 * length s + 1 < n \<Longrightarrow> 2 * length s + 1 < n' \<Longrightarrow> jmembers n d s = jmembers n' d s"
proof (induction n arbitrary: d s n')
  case (Suc n)
  have V: "jvalue n d t = jvalue m d t" if "2 * length t < n" "2 * length t < m" for m t d using Suc.IH(1) that by blast
  have I: "jitems n d t = jitems m d t" if "2 * length t + 1 < n" "2 * length t + 1 < m" for m t d using Suc.IH(2) that by blast
  have M: "jmembers n d t = jmembers m d t" if "2 * length t + 1 < n" "2 * length t + 1 < m" for m t d using Suc.IH(3) that by blast
  {
    case 1
    then obtain m where m: "n' = Suc m" by (cases n') auto
    have "2 * length r + 1 < n \<and> 2 * length r + 1 < m" if "skip_space s = c # r" for c r
      using 1 m skip_space_Cons [OF that] by simp
    then show ?case unfolding m
      by (auto simp: I [where m = m] M [where m = m] split: list.split)
  next
    case 2
    then obtain m where m: "n' = Suc m" by (cases n') auto
    have v: "jvalue n d s = jvalue m d s" using 2 m by (intro V) auto
    have "2 * length q + 1 < n \<and> 2 * length q + 1 < m" if "jvalue m d s = Some (x, r)" "skip_space r = c # q" for x r c q
      using 2 m parser_length(1) [OF that(1)] skip_space_Cons [OF that(2)] by simp
    then show ?case unfolding m
      by (auto simp: v I [where m = m] split: option.split list.split)
  next
    case 3
    then obtain m where m: "n' = Suc m" by (cases n') auto
    have u: "2 * length q < n \<and> 2 * length q < m" if "skip_space s = a # t" "unquote t = Some (k, r)" "skip_space r = c # q" for a t k r c q
      using 3 m skip_space_Cons [OF that(1)] unquote_length [OF that(2)] skip_space_Cons [OF that(3)] by simp
    have "2 * length p + 1 < n \<and> 2 * length p + 1 < m"
      if "skip_space s = a # t" "unquote t = Some (k, r)" "skip_space r = c # q" "jvalue m d q = Some (x, z)" "skip_space z = e # p"
      for a t k r c q x z e p
      using 3 m skip_space_Cons [OF that(1)] unquote_length [OF that(2)] skip_space_Cons [OF that(3)] parser_length(1) [OF that(4)]
        skip_space_Cons [OF that(5)] by simp
    then show ?case unfolding m
      by (auto simp: V [where m = m] u M [where m = m] split: option.split list.split)
  }
qed simp_all

section \<open>Reading back what was written\<close>

text \<open>A rune of two or more bytes.\<close>

definition wide :: "string \<Rightarrow> bool" where
  "wide p \<longleftrightarrow> rune_size p = length p \<and> 2 \<le> length p"

lemma rune_size_le: "rune_size s \<le> length s"
  by (auto simp: rune_size_def split: list.split)

lemma wide_parts: "wide p \<Longrightarrow> \<exists>a q. p = a # q \<and> q \<noteq> [] \<and> 194 \<le> byte a \<and> list_all trail q"
  by (auto simp: wide_def rune_size_def head3_def head4_def split: list.splits if_splits)

lemma rune_size_wide: "wide p \<Longrightarrow> rune_size (p @ t) = length p"
  by (auto simp: wide_def rune_size_def head3_def head4_def split: list.splits if_splits)

lemma rune_cases:
  assumes "rune_size s \<noteq> 0"
  shows "(\<exists>c t. s = c # t \<and> byte c < 128 \<and> rune_size s = 1) \<or> wide (take (rune_size s) s)"
  using assms by (auto simp: wide_def rune_size_def split: list.splits if_splits)

lemma utf8_valid_Nil [simp]: "utf8_valid []"
  by (simp add: utf8_valid.simps)

lemma utf8_induct [consumes 1, case_names Nil ascii wide]:
  assumes "utf8_valid s" and "P []"
    and "\<And>c t. byte c < 128 \<Longrightarrow> utf8_valid t \<Longrightarrow> P t \<Longrightarrow> P (c # t)"
    and "\<And>p t. wide p \<Longrightarrow> utf8_valid t \<Longrightarrow> P t \<Longrightarrow> P (p @ t)"
  shows "P s"
  using assms(1)
proof (induction s rule: utf8_valid.induct)
  case (1 s)
  show ?case
  proof (cases "s = []")
    case False
    then have k: "rune_size s \<noteq> 0" and v: "utf8_valid (drop (rune_size s) s)"
      using 1(2) by (auto simp: utf8_valid.simps [of s] split: if_splits)
    from rune_cases [OF k] show ?thesis
    proof (elim disjE exE conjE)
      fix c t assume "s = c # t" "byte c < 128" "rune_size s = 1"
      then show ?thesis using assms(3) [of c t] 1(1) [OF False k v] v by simp
    next
      assume "wide (take (rune_size s) s)"
      from assms(4) [OF this v 1(1) [OF False k v]] show ?thesis by simp
    qed
  qed (simp add: assms(2))
qed

lemma rune_size_ascii: "byte c < 128 \<Longrightarrow> rune_size (c # t) = 1"
  by (auto simp: rune_size_def split: list.split)

lemma utf8_valid_ascii [simp]: "byte c < 128 \<Longrightarrow> utf8_valid (c # t) = utf8_valid t"
  by (subst utf8_valid.simps) (simp add: rune_size_ascii)

lemma utf8_valid_wide: "wide p \<Longrightarrow> utf8_valid (p @ t) = utf8_valid t"
  by (subst utf8_valid.simps) (auto simp: rune_size_wide wide_def)

lemma utf8_valid_append: "utf8_valid s \<Longrightarrow> utf8_valid t \<Longrightarrow> utf8_valid (s @ t)"
  by (induction s rule: utf8_induct) (simp_all add: utf8_valid_wide)

text \<open>A way of writing string bodies that \<^term>\<open>unquote\<close> reads back.\<close>

locale string_writer =
  fixes escape :: "string \<Rightarrow> string"
  assumes unquote_escape: "utf8_valid s \<Longrightarrow> unquote (escape s @ CHR 0x22 # r) = Some (s, r)"

lemma unquote_wide: "wide p \<Longrightarrow> unquote (p @ t) = prefix_result p (unquote t)"
proof -
  assume w: "wide p"
  from wide_parts [OF w] obtain a q where p: "p = a # q" "194 \<le> byte a" by blast
  then have "a \<noteq> CHR 0x22" "a \<noteq> CHR 0x5C" by (auto simp: byte_def)
  then show ?thesis
    using rune_size_wide [OF w, of t] p by (simp add: w)
qed

lemma unquote_plain: "byte c < 128 \<Longrightarrow> 32 \<le> byte c \<Longrightarrow> c \<noteq> CHR 0x22 \<Longrightarrow> c \<noteq> CHR 0x5C \<Longrightarrow> unquote (c # t) = prefix_result [c] (unquote t)"
  by (simp add: rune_size_ascii)

lemma hex_value_digit: "0 \<le> n \<Longrightarrow> n < 16 \<Longrightarrow> hex_value (hex_digit n) = Some n"
  by (auto simp: hex_value_def hex_digit_def byte_def Let_def)

lemma hex4_low: "0 \<le> n \<Longrightarrow> n < 256 \<Longrightarrow> hex4 (CHR ''0'' # CHR ''0'' # hex_digit (n div 16) # hex_digit (n mod 16) # t) = Some n"
proof -
  assume "0 \<le> n" "n < 256"
  moreover have "hex_value (CHR ''0'') = Some 0" by code_simp
  ultimately show ?thesis by (simp add: hex4_def hex_value_digit)
qed

lemma byte_nonneg: "0 \<le> byte c"
  unfolding byte_def by (metis of_nat_of_char of_nat_0_le_iff)

lemma byte_inj: "byte c = byte d \<longleftrightarrow> c = d"
  by (simp add: byte_def)

lemma unquote_hex: "byte c < 128 \<Longrightarrow> unquote (CHR 0x5C # CHR ''u'' # CHR ''0'' # CHR ''0'' # hex_digit (byte c div 16) # hex_digit (byte c mod 16) # t)
    = prefix_result [c] (unquote t)"
proof -
  assume c: "byte c < 128"
  have "0 \<le> byte c" by (rule byte_nonneg)
  moreover have "encode_rune (byte c) = [c]" using c byte_nonneg [of c] by (simp add: encode_rune_def) (simp add: byte_def)
  ultimately show ?thesis using c by (simp add: hex4_low surrogate_pair_def high_surrogate_def)
qed

lemma unquote_escape_char: "byte c < 128 \<Longrightarrow> unquote (escape_char c @ t) = prefix_result [c] (unquote t)"
proof -
  assume c: "byte c < 128"
  have esc: "byte (CHR 0x08) = 8" "byte (CHR 0x09) = 9" "byte (CHR 0x0A) = 10" "byte (CHR 0x0C) = 12" "byte (CHR 0x0D) = 13"
    "byte (CHR 0x22) = 34" "byte (CHR 0x5C) = 92" by (simp_all add: byte_def)
  show ?thesis
  proof (cases "byte c \<in> {8, 9, 10, 12, 13, 34, 92}")
    case True
    then have "c \<in> {CHR 0x08, CHR 0x09, CHR 0x0A, CHR 0x0C, CHR 0x0D, CHR 0x22, CHR 0x5C}"
      unfolding esc [symmetric] by (simp add: byte_inj)
    then show ?thesis by (elim insertE) (simp_all add: escape_char_def simple_escape_def Let_def)
  next
    case False
    moreover have "c \<noteq> CHR 0x22" "c \<noteq> CHR 0x5C" using False by (auto simp: byte_def)
    ultimately show ?thesis
      using c unquote_hex [OF c, of t] unquote_plain [OF c] by (auto simp: escape_char_def byte_def Let_def)
  qed
qed

lemma escape_wide: "wide p \<Longrightarrow> concat (map escape_char p) = p"
proof -
  have "concat (map escape_char q) = q" if "list_all (\<lambda>c. 128 \<le> byte c) q" for q
    using that by (induction q) (auto simp: escape_char_def byte_def Let_def)
  moreover assume "wide p"
  from wide_parts [OF this] have "list_all (\<lambda>c. 128 \<le> byte c) p" by (auto simp: trail_def list_all_iff)
  ultimately show ?thesis by blast
qed

interpretation canonical_string: string_writer "\<lambda>s. concat (map escape_char s)"
proof
  fix s r :: string
  assume "utf8_valid s"
  then show "unquote (concat (map escape_char s) @ CHR 0x22 # r) = Some (s, r)"
    by (induction s rule: utf8_induct) (simp_all add: unquote_escape_char unquote_wide escape_wide prefix_result_def)
qed

text \<open>\<open>json.Marshal\<close> also escapes HTML characters and the two line separators.\<close>

lemma go_escape_trail: "list_all trail q \<Longrightarrow> go_escape (q @ t) = q @ go_escape t"
  by (induction q) (auto simp: trail_def byte_def escape_char_def Let_def)

lemma go_escape_wide:
  assumes "wide p" and "p \<notin> {[CHR 0xE2, CHR 0x80, CHR 0xA8], [CHR 0xE2, CHR 0x80, CHR 0xA9]}"
  shows "go_escape (p @ t) = p @ go_escape t"
proof -
  from wide_parts [OF assms(1)] obtain a q where p: "p = a # q" "194 \<le> byte a" "list_all trail q" by blast
  have "take 2 (q @ t) \<notin> {[CHR 0x80, CHR 0xA8], [CHR 0x80, CHR 0xA9]}" if "a = CHR 0xE2"
  proof -
    have "length q = 2" using assms(1) p(1) that by (auto simp: wide_def rune_size_def head4_def byte_def split: list.splits if_splits)
    then show ?thesis using assms(2) p(1) that by auto
  qed
  moreover have "escape_char a = [a]" "a \<notin> {CHR 0x3C, CHR 0x3E, CHR 0x26}" using p(2) by (auto simp: escape_char_def byte_def Let_def)
  ultimately show ?thesis using go_escape_trail [OF p(3), of t] by (auto simp: p(1))
qed

lemma unquote_separator:
  "unquote (CHR 0x5C # CHR ''u'' # CHR ''2'' # CHR ''0'' # CHR ''2'' # CHR ''8'' # t) = prefix_result [CHR 0xE2, CHR 0x80, CHR 0xA8] (unquote t)"
  "unquote (CHR 0x5C # CHR ''u'' # CHR ''2'' # CHR ''0'' # CHR ''2'' # CHR ''9'' # t) = prefix_result [CHR 0xE2, CHR 0x80, CHR 0xA9] (unquote t)"
proof -
  have "encode_rune 8232 = [CHR 0xE2, CHR 0x80, CHR 0xA8]" "encode_rune 8233 = [CHR 0xE2, CHR 0x80, CHR 0xA9]" by code_simp+
  then show "unquote (CHR 0x5C # CHR ''u'' # CHR ''2'' # CHR ''0'' # CHR ''2'' # CHR ''8'' # t) = prefix_result [CHR 0xE2, CHR 0x80, CHR 0xA8] (unquote t)"
    "unquote (CHR 0x5C # CHR ''u'' # CHR ''2'' # CHR ''0'' # CHR ''2'' # CHR ''9'' # t) = prefix_result [CHR 0xE2, CHR 0x80, CHR 0xA9] (unquote t)"
    by (simp_all add: hex4_def hex_value_def byte_def surrogate_pair_def high_surrogate_def)
qed

lemma go_escape_separator:
  "go_escape ([CHR 0xE2, CHR 0x80, CHR 0xA8] @ t) = [CHR 0x5C, CHR ''u'', CHR ''2'', CHR ''0'', CHR ''2'', CHR ''8''] @ go_escape t"
  "go_escape ([CHR 0xE2, CHR 0x80, CHR 0xA9] @ t) = [CHR 0x5C, CHR ''u'', CHR ''2'', CHR ''0'', CHR ''2'', CHR ''9''] @ go_escape t"
  by simp_all

lemma go_escape_ascii: "byte c < 128 \<Longrightarrow> go_escape (c # t) =
    (if c \<in> {CHR 0x3C, CHR 0x3E, CHR 0x26} then [CHR 0x5C, CHR ''u'', CHR ''0'', CHR ''0'', hex_digit (byte c div 16), hex_digit (byte c mod 16)]
     else escape_char c) @ go_escape t"
  by (auto simp: byte_def)

interpretation go_string: string_writer go_escape
proof
  fix s r :: string
  assume "utf8_valid s"
  then show "unquote (go_escape s @ CHR 0x22 # r) = Some (s, r)"
  proof (induction s rule: utf8_induct)
    case (ascii c t)
    then show ?case
      using unquote_hex [OF ascii(1), of "go_escape t @ CHR 0x22 # r"] unquote_escape_char [OF ascii(1)]
      by (simp add: go_escape_ascii prefix_result_def del: go_escape.simps unquote.simps)
  next
    case (wide p t)
    show ?case
    proof (cases "p \<in> {[CHR 0xE2, CHR 0x80, CHR 0xA8], [CHR 0xE2, CHR 0x80, CHR 0xA9]}")
      case True
      then show ?thesis using wide(3) go_escape_separator [of t] unquote_separator [of "go_escape t @ CHR 0x22 # r"]
        by (auto simp del: go_escape.simps unquote.simps simp: prefix_result_def)
    next
      case False
      then show ?thesis using wide by (simp add: go_escape_wide unquote_wide prefix_result_def)
    qed
  qed simp
qed

declare unquote.simps(2) [simp del]

section \<open>Values\<close>

text \<open>The text of a value for a way of writing strings.\<close>

fun print_json :: "(string \<Rightarrow> string) \<Rightarrow> json \<Rightarrow> string" where
  "print_json w JNull = ''null''"
| "print_json w (JBool b) = (if b then ''true'' else ''false'')"
| "print_json w (JNum s) = s"
| "print_json w (JStr s) = CHR 0x22 # w s @ [CHR 0x22]"
| "print_json w (JArr items) = CHR ''['' # commas (map (print_json w) items) @ [CHR '']'']"
| "print_json w (JObj m) = CHR 0x7B # commas (map (\<lambda>(k, x). CHR 0x22 # w k @ CHR 0x22 # CHR '':'' # print_json w x) m) @ [CHR 0x7D]"

text \<open>A value that JSON text can hold: number literals, valid UTF-8, limited nesting.\<close>

definition number_text :: "string \<Rightarrow> bool" where
  "number_text s \<longleftrightarrow> number s = Some (s, [])"

fun json_text :: "nat \<Rightarrow> json \<Rightarrow> bool" where
  "json_text d (JNum s) \<longleftrightarrow> number_text s"
| "json_text d (JStr s) \<longleftrightarrow> utf8_valid s"
| "json_text d (JArr items) \<longleftrightarrow> 0 < d \<and> list_all (json_text (d - 1)) items"
| "json_text d (JObj m) \<longleftrightarrow> 0 < d \<and> list_all (\<lambda>(k, x). utf8_valid k \<and> json_text (d - 1) x) m"
| "json_text d _ \<longleftrightarrow> True"

text \<open>What may follow a value inside a document.\<close>

definition stop :: "string \<Rightarrow> bool" where
  "stop r \<longleftrightarrow> r = [] \<or> hd r \<in> {CHR '','', CHR '']'', CHR 0x7D}"

lemma stop_cases: "stop r \<Longrightarrow> r = [] \<or> (\<exists>c t. r = c # t \<and> \<not> is_digit c \<and> c \<notin> {CHR ''.'', CHR ''e'', CHR ''E'', CHR ''-''})"
  by (cases r) (auto simp: stop_def is_digit_def)

lemma digits_append: "digits s = Some (x, q) \<Longrightarrow> stop r \<Longrightarrow> digits (s @ r) = Some (x, q @ r)"
proof -
  assume d: "digits s = Some (x, q)" and r: "stop r"
  have w: "takeWhile is_digit r = []" "dropWhile is_digit r = r" using stop_cases [OF r] by auto
  show ?thesis
  proof (cases "list_all is_digit s")
    case True
    then have a: "takeWhile is_digit s = s" "dropWhile is_digit s = []" by (simp_all add: takeWhile_eq_all_conv list_all_iff)
    show ?thesis using d w True by (simp add: digits_def Let_def list_all_iff a takeWhile_append dropWhile_append split: if_splits)
  next
    case False
    then show ?thesis using d by (auto simp: digits_def Let_def list_all_iff takeWhile_append dropWhile_append split: if_splits)
  qed
qed

lemma whole_append: "number_whole s = Some (x, q) \<Longrightarrow> stop r \<Longrightarrow> number_whole (s @ r) = Some (x, q @ r)"
  using digits_append [of s x q r] by (auto simp: number_whole_def split: list.splits if_splits)

lemma fraction_append: "number_fraction s = Some (x, q) \<Longrightarrow> stop r \<Longrightarrow> number_fraction (s @ r) = Some (x, q @ r)"
  using digits_append [of "tl s" _ q r] stop_cases [of r]
  by (cases s) (fastforce simp: number_fraction_def prefix_result_Some split: if_splits)+

lemma exponent_append: "number_exponent s = Some (x, q) \<Longrightarrow> stop r \<Longrightarrow> number_exponent (s @ r) = Some (x, q @ r)"
  using digits_append [of "tl s" _ q r] digits_append [of "tl (tl s)" _ q r] stop_cases [of r]
  by (cases s; cases "tl s") (fastforce simp: number_exponent_def prefix_result_Some split: if_splits)+

lemma number_append: "number s = Some (x, q) \<Longrightarrow> stop r \<Longrightarrow> number (s @ r) = Some (x, q @ r)"
proof -
  assume n: "number s = Some (x, q)" and r: "stop r"
  obtain sg r0 where sg: "number_sign s = (sg, r0)" by (cases "number_sign s") auto
  with n obtain w r1 f r2 e where p: "number_whole r0 = Some (w, r1)" "number_fraction r1 = Some (f, r2)"
      "number_exponent r2 = Some (e, q)" "x = (sg @ w @ f) @ e"
    by (auto simp: number_def prefix_result_Some split: option.splits)
  have "s \<noteq> []" using sg p(1) by (auto simp: number_sign_def number_whole_def)
  then have "number_sign (s @ r) = (sg, r0 @ r)" using sg by (auto simp: number_sign_def split: list.splits if_splits)
  then show ?thesis using whole_append [OF p(1) r] fraction_append [OF p(2) r] exponent_append [OF p(3) r] p(4)
    by (simp add: number_def prefix_result_Some)
qed

lemma number_head: "number s = Some (x, q) \<Longrightarrow> \<exists>c t. s = c # t \<and> (is_digit c \<or> c = CHR ''-'')"
  by (cases s) (auto simp: number_def number_sign_def number_whole_def digits_def is_digit_def split: if_splits option.splits list.splits)

definition value_head :: "char \<Rightarrow> bool" where
  "value_head c \<longleftrightarrow> is_digit c \<or> c \<in> {CHR ''-'', CHR 0x22, CHR ''['', CHR 0x7B, CHR ''n'', CHR ''t'', CHR ''f''}"

lemma skip_value_head: "value_head c \<Longrightarrow> skip_space (c # t) = c # t"
  by (auto simp: skip_space_def value_head_def is_digit_def)

lemma literal_number: "number s = Some (x, q) \<Longrightarrow> literal s = Some (JNum x, q)"
  using number_head [of s x q] by (auto simp: literal_def is_digit_def)

lemma print_head: "json_text d v \<Longrightarrow> \<exists>c t. print_json w v = c # t \<and> value_head c"
  by (cases v) (auto simp: value_head_def number_text_def dest!: number_head)

lemma skip_stop: "c \<in> {CHR '','', CHR '']'', CHR 0x7D, CHR '':'', CHR 0x22} \<Longrightarrow> skip_space (c # t) = c # t"
  by (auto simp: skip_space_def)

lemma jvalue_literal: "value_head c \<Longrightarrow> c \<notin> {CHR 0x22, CHR ''['', CHR 0x7B} \<Longrightarrow> 0 < n \<Longrightarrow> jvalue n d (c # t) = literal (c # t)"
  by (cases n) (simp_all add: skip_value_head)

context string_writer
begin

definition member_text :: "string \<times> json \<Rightarrow> string" where
  "member_text = (\<lambda>(k, x). CHR 0x22 # escape k @ CHR 0x22 # CHR '':'' # print_json escape x)"

lemma items_read:
  assumes "\<And>x r n. x \<in> set items \<Longrightarrow> stop r \<Longrightarrow> 2 * length (print_json escape x) < n \<Longrightarrow> jvalue n d (print_json escape x @ r) = Some (x, r)"
    and "items \<noteq> []" and "2 * length (commas (map (print_json escape) items)) + 1 < n"
  shows "jitems n d (commas (map (print_json escape) items) @ CHR '']'' # r) = Some (items, r)"
  using assms
proof (induction items arbitrary: n)
  case (Cons x xs)
  from Cons.prems(3) obtain m where n: "n = Suc m" by (cases n) auto
  show ?case
  proof (cases xs)
    case Nil
    then show ?thesis using Cons.prems(1) [of x "CHR '']'' # r" m] Cons.prems(3) n by (simp add: skip_stop stop_def)
  next
    case (Cons y ys)
    let ?rest = "commas (map (print_json escape) xs) @ CHR '']'' # r"
    have "jvalue m d (print_json escape x @ CHR '','' # ?rest) = Some (x, CHR '','' # ?rest)"
      using Cons.prems(1) [of x "CHR '','' # ?rest" m] Cons.prems(3) n by (simp add: stop_def Cons)
    moreover have "jitems m d ?rest = Some (xs, r)"
      using Cons.IH [of m] Cons.prems(1,3) Cons n by simp
    ultimately show ?thesis by (simp add: n Cons skip_stop)
  qed
qed simp

lemma members_read:
  assumes "\<And>k x r n. (k, x) \<in> set m \<Longrightarrow> stop r \<Longrightarrow> 2 * length (print_json escape x) < n \<Longrightarrow> jvalue n d (print_json escape x @ r) = Some (x, r)"
    and "\<And>k x. (k, x) \<in> set m \<Longrightarrow> utf8_valid k"
    and "m \<noteq> []" and "2 * length (commas (map member_text m)) + 1 < n"
  shows "jmembers n d (commas (map member_text m) @ CHR 0x7D # r) = Some (m, r)"
  using assms
proof (induction m arbitrary: n)
  case (Cons kx m)
  obtain k x where kx: "kx = (k, x)" by (cases kx)
  from Cons.prems(4) obtain i where n: "n = Suc i" by (cases n) auto
  have u: "unquote (escape k @ CHR 0x22 # t) = Some (k, t)" for t
    using unquote_escape Cons.prems(2) [of k x] kx by simp
  have val: "jvalue i d (print_json escape x @ t) = Some (x, t)" if "stop t" for t
    using Cons.prems(1) [of k x t i] Cons.prems(4) kx n that by (cases m) (auto simp: member_text_def)
  show ?case
  proof (cases m)
    case Nil
    then show ?thesis using val [of "CHR 0x7D # r"] by (simp add: n kx member_text_def skip_stop u stop_def)
  next
    case (Cons y ys)
    let ?rest = "commas (map member_text m) @ CHR 0x7D # r"
    have "jmembers i d ?rest = Some (m, r)"
      by (rule Cons.IH, rule Cons.prems(1) [OF list.set_intros(2)], assumption+, rule Cons.prems(2) [OF list.set_intros(2)], assumption)
         (use Cons.prems(4) Cons n in auto)
    then show ?thesis using val [of "CHR '','' # ?rest"]
      by (simp add: n kx Cons member_text_def skip_stop u stop_def)
  qed
qed simp

lemma commas_head: "xs \<noteq> [] \<Longrightarrow> \<exists>t. commas xs @ r = hd xs @ t"
  by (cases xs rule: commas.cases) auto

lemma value_read:
  "json_text d v \<Longrightarrow> stop r \<Longrightarrow> 2 * length (print_json escape v) < n \<Longrightarrow> jvalue n d (print_json escape v @ r) = Some (v, r)"
proof (induction v arbitrary: d r n)
  case (JNum s)
  then obtain i where n: "n = Suc i" by (cases n) auto
  from JNum obtain c t where s: "s = c # t" "value_head c" using print_head [of d "JNum s" escape] by auto
  have num: "number s = Some (s, [])" using JNum(1) by (simp add: number_text_def)
  then have "literal (s @ r) = Some (JNum s, r)" using literal_number number_append [OF num JNum(2)] by simp
  moreover have "c \<noteq> CHR 0x22" "c \<noteq> CHR ''[''" "c \<noteq> CHR 0x7B" using number_head [OF num] s(1) by (auto simp: is_digit_def)
  ultimately show ?case by (simp add: n s skip_value_head)
next
  case (JStr s)
  then obtain i where "n = Suc i" by (cases n) auto
  then show ?case using unquote_escape JStr(1) by (simp add: skip_stop)
next
  case (JArr items)
  then obtain i where n: "n = Suc i" and d: "0 < d" by (cases n) auto
  show ?case
  proof (cases "items = []")
    case False
    then obtain c t where h: "commas (map (print_json escape) items) @ CHR '']'' # r = c # t" "value_head c"
      using commas_head [of "map (print_json escape) items" "CHR '']'' # r"] print_head [of "d - 1" "hd items" escape] JArr(2)
      by (auto simp: hd_map list_all_iff)
    have "jitems i (d - 1) (commas (map (print_json escape) items) @ CHR '']'' # r) = Some (items, r)"
      using JArr(1,2,4) False n by (intro items_read) (auto simp: list_all_iff)
    moreover have "c \<noteq> CHR '']''" using h(2) by (auto simp: value_head_def is_digit_def)
    ultimately show ?thesis using d h by (simp add: n skip_value_head [of "CHR ''[''"] value_head_def skip_value_head)
  qed (use d n in \<open>simp add: skip_value_head value_head_def skip_stop\<close>)
next
  case (JObj m)
  then obtain i where n: "n = Suc i" and d: "0 < d" by (cases n) auto
  have tx: "print_json escape (JObj m) = CHR 0x7B # commas (map member_text m) @ [CHR 0x7D]"
    by (simp add: member_text_def)
  show ?case
  proof (cases "m = []")
    case False
    then obtain t where h: "commas (map member_text m) @ CHR 0x7D # r = CHR 0x22 # t"
      using commas_head [of "map member_text m" "CHR 0x7D # r"] by (auto simp: member_text_def hd_map split: prod.splits)
    have "jmembers i (d - 1) (commas (map member_text m) @ CHR 0x7D # r) = Some (m, r)"
      using JObj(1,2,4) False n unfolding tx by (intro members_read) (auto simp: list_all_iff)
    then show ?thesis using d h unfolding tx by (simp add: n skip_value_head [of "CHR 0x7B"] value_head_def skip_stop)
  qed (use d n in \<open>simp add: skip_value_head value_head_def skip_stop\<close>)
qed (simp_all add: jvalue_literal literal_def value_head_def)

lemma parse_print: "json_text max_nesting v \<Longrightarrow> parse_json (print_json escape v) = Some v"
  using value_read [of max_nesting v "[]" "2 * length (print_json escape v) + 1"]
  by (simp add: parse_json_def stop_def skip_space_def)

end

section \<open>What the parser returns can be written again\<close>

lemma byte_char_of: "0 \<le> n \<Longrightarrow> n < 256 \<Longrightarrow> byte (char_of n) = n"
  by (simp add: byte_def)

lemma encode_rune_valid: "utf8_valid (encode_rune n)"
proof -
  have err: "utf8_valid rune_error" by code_simp
  have two: "wide [a, b]" if "194 \<le> byte a" "byte a < 224" "trail b" for a b
    using that by (simp add: wide_def rune_size_def)
  have three: "wide [a, b, c]" if "head3 a b" "trail c" for a b c
    using that by (auto simp: wide_def rune_size_def head3_def split: if_splits)
  have four: "wide [a, b, c, d]" if "head4 a b" "trail c" "trail d" for a b c d
    using that by (auto simp: wide_def rune_size_def head4_def head3_def split: if_splits)
  have w: "utf8_valid p" if "wide p" for p using utf8_valid_wide [OF that, of "[]"] by simp
  consider "n < 0 \<or> (55296 \<le> n \<and> n < 57344) \<or> 1114112 \<le> n" | "0 \<le> n" "n < 128" | "128 \<le> n" "n < 2048"
    | "2048 \<le> n" "n < 65536" "\<not> (55296 \<le> n \<and> n < 57344)" | "65536 \<le> n" "n < 1114112" by linarith
  then show ?thesis
  proof cases
    case 1
    then show ?thesis using err by (auto simp: encode_rune_def)
  next
    case 2
    then show ?thesis by (simp add: encode_rune_def byte_char_of)
  next
    case 3
    then have "wide [char_of (192 + n div 64), char_of (128 + n mod 64)]"
      by (intro two) (auto simp: byte_char_of trail_def)
    then show ?thesis using 3 w by (simp add: encode_rune_def)
  next
    case 4
    have "n div 64 mod 64 < 32" if "n < 55296" "n div 4096 = 13"
      using that zdiv_zmult2_eq [of 64 n 64] div_mult_mod_eq [of "n div 64" 64] by simp
    with 4 have "wide [char_of (224 + n div 4096), char_of (128 + n div 64 mod 64), char_of (128 + n mod 64)]"
      by (intro three) (auto simp: head3_def byte_char_of trail_def)
    then show ?thesis using 4 w by (auto simp: encode_rune_def)
  next
    case 5
    have "n div 4096 mod 64 < 16" if "n div 262144 = 4"
      using that 5 zdiv_zmult2_eq [of 64 n 4096] div_mult_mod_eq [of "n div 4096" 64] by simp
    with 5 have "wide [char_of (240 + n div 262144), char_of (128 + n div 4096 mod 64), char_of (128 + n div 64 mod 64), char_of (128 + n mod 64)]"
      by (intro four) (auto simp: head4_def byte_char_of trail_def)
    then show ?thesis using 5 w by (simp add: encode_rune_def)
  qed
qed

lemma simple_escape_ascii: "simple_escape e = Some b \<Longrightarrow> byte b < 128"
  by (auto simp: simple_escape_def byte_def split: if_splits)

lemma rune_valid: "rune_size s \<noteq> 0 \<Longrightarrow> utf8_valid (take (rune_size s) s)"
  using rune_cases [of s] utf8_valid_wide [of "take (rune_size s) s" "[]"] by auto

lemma unquote_valid: "unquote s = Some (x, r) \<Longrightarrow> utf8_valid x"
proof (induction "length s" arbitrary: s x rule: less_induct)
  case less
  show ?case
  proof (cases s)
    case (Cons c cs)
    have tail: "length t \<le> length cs \<longrightarrow> utf8_valid y" if "unquote t = Some (y, r)" for t y
      using less.hyps [OF _ that] Cons by auto
    have err: "utf8_valid rune_error" by code_simp
    show ?thesis
      using less.prems rune_valid [of s] unfolding Cons unquote.simps
      by (auto simp: prefix_result_Some drop_Cons' err encode_rune_valid simple_escape_ascii split: if_splits list.split_asm option.split_asm
          dest!: tail simp del: take_Cons' intro!: utf8_valid_append)
  qed (use less.prems in simp)
qed

lemma digits_again: "digits s = Some (x, r) \<Longrightarrow> digits x = Some (x, []) \<and> (r = [] \<or> \<not> is_digit (hd r))"
  by (auto simp: digits_def Let_def takeWhile_eq_all_conv split: if_splits dest: set_takeWhileD hd_dropWhile)

lemma exponent_parts:
  assumes "number_exponent s = Some (e, q)"
  shows "e = [] \<or> (\<exists>c g d. e = c # g @ d \<and> c \<in> {CHR ''e'', CHR ''E''} \<and> g \<in> {[], ''+'', ''-''} \<and> digits d = Some (d, []))"
proof (cases "e = []")
  case False
  then obtain c t where s: "s = c # t" "c \<in> {CHR ''e'', CHR ''E''}" using assms by (auto simp: number_exponent_def split: list.splits if_splits)
  then obtain g u where t: "t = g # u" using assms by (cases t) (auto simp: number_exponent_def)
  show ?thesis
  proof (cases "g \<in> {CHR ''+'', CHR ''-''}")
    case True
    then obtain d where "digits u = Some (d, q)" "e = [c, g] @ d"
      using assms s t by (auto simp: number_exponent_def prefix_result_Some)
    with True s(2) digits_again [of u d q] show ?thesis by (intro disjI2 exI [of _ c] exI [of _ "[g]"] exI [of _ d]) auto
  next
    case False
    then obtain d where "digits t = Some (d, q)" "e = c # d"
      using assms s t by (auto simp: number_exponent_def prefix_result_Some)
    with s(2) digits_again [of t d q] show ?thesis by (intro disjI2 exI [of _ c] exI [of _ "[]"] exI [of _ d]) auto
  qed
qed simp

text \<open>A number that was read is a number literal: its parts are read alone, and together.\<close>

lemma number_parts:
  assumes "number s = Some (x, q)"
  obtains sg w f e where "x = sg @ w @ f @ e" "sg = [] \<or> sg = ''-''" "digits w = Some (w, [])" "w = ''0'' \<or> hd w \<noteq> CHR ''0''"
    "f = [] \<or> (\<exists>d. f = CHR ''.'' # d \<and> digits d = Some (d, []))"
    "e = [] \<or> (\<exists>c g d. e = c # g @ d \<and> c \<in> {CHR ''e'', CHR ''E''} \<and> g \<in> {[], ''+'', ''-''} \<and> digits d = Some (d, []))"
proof -
  obtain sg r0 where sg: "number_sign s = (sg, r0)" by (cases "number_sign s") auto
  with assms obtain w r1 f r2 e where p: "number_whole r0 = Some (w, r1)" "number_fraction r1 = Some (f, r2)"
      "number_exponent r2 = Some (e, q)" "x = (sg @ w @ f) @ e"
    by (auto simp: number_def prefix_result_Some split: option.splits)
  have "digits ''0'' = Some (''0'', [])" by code_simp
  with p(1) have "digits w = Some (w, [])" "w = ''0'' \<or> hd w \<noteq> CHR ''0''"
    using digits_again [of r0 w r1]
    by (auto simp: number_whole_def digits_def Let_def split: list.splits if_splits)
  moreover have "f = [] \<or> (\<exists>d. f = CHR ''.'' # d \<and> digits d = Some (d, []))"
    using p(2) digits_again [of "tl r1" "tl f" r2] by (cases r1) (auto simp: number_fraction_def prefix_result_Some split: if_splits)
  moreover have "e = [] \<or> (\<exists>c g d. e = c # g @ d \<and> c \<in> {CHR ''e'', CHR ''E''} \<and> g \<in> {[], ''+'', ''-''} \<and> digits d = Some (d, []))"
    using p(3) by (rule exponent_parts)
  moreover have "sg = [] \<or> sg = ''-''" using sg by (auto simp: number_sign_def split: list.splits if_splits)
  ultimately show ?thesis using that p(4) by simp
qed

lemma digits_then: "digits x = Some (x, []) \<Longrightarrow> r = [] \<or> \<not> is_digit (hd r) \<Longrightarrow> digits (x @ r) = Some (x, r)"
  by (cases r) (auto simp: digits_def Let_def takeWhile_append dropWhile_append takeWhile_eq_all_conv split: if_splits)

lemma digits_head: "digits x = Some (x, []) \<Longrightarrow> \<exists>c t. x = c # t \<and> is_digit c"
  by (cases x) (auto simp: digits_def Let_def split: if_splits)

lemma number_again: "number s = Some (x, q) \<Longrightarrow> number_text x"
proof (elim number_parts)
  fix sg w f e
  assume x: "x = sg @ w @ f @ e" and sg: "sg = [] \<or> sg = ''-''" and w: "digits w = Some (w, [])" "w = ''0'' \<or> hd w \<noteq> CHR ''0''"
    and f: "f = [] \<or> (\<exists>d. f = CHR ''.'' # d \<and> digits d = Some (d, []))"
    and e: "e = [] \<or> (\<exists>c g d. e = c # g @ d \<and> c \<in> {CHR ''e'', CHR ''E''} \<and> g \<in> {[], ''+'', ''-''} \<and> digits d = Some (d, []))"
  have eh: "e = [] \<or> \<not> is_digit (hd e) \<and> hd e \<noteq> CHR ''.''" using e by (auto simp: is_digit_def)
  have fh: "f @ e = [] \<or> \<not> is_digit (hd (f @ e))" using f eh by (auto simp: is_digit_def)
  obtain c t where c: "w = c # t" "is_digit c" using digits_head [OF w(1)] by blast
  have "number_sign x = (sg, w @ f @ e)" using sg c by (auto simp: x number_sign_def is_digit_def)
  moreover have "number_whole (w @ f @ e) = Some (w, f @ e)"
    using digits_then [OF w(1) fh] w(2) c by (auto simp: number_whole_def split: list.splits if_splits)
  moreover have "number_fraction (f @ e) = Some (f, e)"
    using f eh digits_then [of _ e] by (auto simp: number_fraction_def prefix_result_Some split: list.splits)
  moreover have "number_exponent e = Some (e, [])"
    using e by (auto simp: number_exponent_def prefix_result_Some is_digit_def dest: digits_head split: list.splits)
  ultimately show "number_text x" by (simp add: number_text_def number_def prefix_result_def x)
qed

lemma literal_text: "literal s = Some (v, r) \<Longrightarrow> json_text d v"
  by (auto simp: literal_def dest: number_again split: if_splits)

lemma parser_text:
  "jvalue n d s = Some (v, r) \<Longrightarrow> json_text d v"
  "jitems n d s = Some (xs, r) \<Longrightarrow> list_all (json_text d) xs"
  "jmembers n d s = Some (m, r) \<Longrightarrow> list_all (\<lambda>(k, x). utf8_valid k \<and> json_text d x) m"
proof (induction n arbitrary: d s v r xs m)
  case (Suc n)
  {
    case 1
    then show ?case
      by (fastforce dest!: Suc.IH(2,3) unquote_valid literal_text split: list.splits if_splits)
  next
    case 2
    then show ?case
      by (fastforce dest!: Suc.IH(1,2) split: option.splits list.splits if_splits)
  next
    case 3
    then show ?case
      by (fastforce dest!: Suc.IH(1,3) unquote_valid split: option.splits list.splits if_splits)
  }
qed simp_all

lemma parse_json_text: "parse_json s = Some v \<Longrightarrow> json_text max_nesting v"
  by (auto simp: parse_json_def simp del: jvalue.simps intro: parser_text(1) split: option.splits if_splits)

end
