(* ===== verification/Canonical.thy ===== *)
theory Canonical
  imports Json
begin

text \<open>
  Written JSON is strictly valid, and the canonical text of a command is a normal form: it can be
  read back, canonicalizing it again changes nothing, it is the same for every order of the members, and it determines the value.
\<close>

section \<open>Strictly valid output\<close>

text \<open>A writer whose output also passes the escape scan and stays UTF-8.\<close>

locale strict_writer = string_writer +
  assumes escape_paired: "utf8_valid s \<Longrightarrow> escapes_paired True (escape s @ CHR 0x22 # r) = escapes_paired False r"
    and escape_valid: "utf8_valid s \<Longrightarrow> utf8_valid (escape s)"

lemma paired_outside: "CHR 0x22 \<notin> set s \<Longrightarrow> escapes_paired False (s @ r) = escapes_paired False r"
  by (induction s) auto

lemma paired_wide: "wide p \<Longrightarrow> escapes_paired True (p @ t) = escapes_paired True t"
proof -
  have "escapes_paired True (q @ t) = escapes_paired True t" if "list_all (\<lambda>c. 128 \<le> byte c) q" for q
    using that by (induction q) (auto simp: byte_def)
  moreover assume "wide p"
  from wide_parts [OF this] have "list_all (\<lambda>c. 128 \<le> byte c) p" by (auto simp: trail_def list_all_iff)
  ultimately show ?thesis by blast
qed

lemma paired_hex: "byte c < 128 \<Longrightarrow>
    escapes_paired True (CHR 0x5C # CHR ''u'' # CHR ''0'' # CHR ''0'' # hex_digit (byte c div 16) # hex_digit (byte c mod 16) # t) = escapes_paired True t"
  using byte_nonneg [of c] by (simp add: hex4_low low_surrogate_def high_surrogate_def)

lemma paired_escape_char: "byte c < 128 \<Longrightarrow> escapes_paired True (escape_char c @ t) = escapes_paired True t"
proof (cases "c = CHR 0x22 \<or> c = CHR 0x5C")
  case False
  moreover assume "byte c < 128"
  ultimately show ?thesis using paired_hex [of c t] by (auto simp: escape_char_def byte_def Let_def)
qed (auto simp: escape_char_def Let_def)

lemma hex_digit_ascii: "0 \<le> n \<Longrightarrow> n < 16 \<Longrightarrow> byte (hex_digit n) < 128"
  by (auto simp: hex_digit_def byte_def)

lemma escape_char_valid: "byte c < 128 \<Longrightarrow> utf8_valid (escape_char c)"
  using byte_nonneg [of c] hex_digit_ascii [of "byte c div 16"] hex_digit_ascii [of "byte c mod 16"]
  by (auto simp: escape_char_def byte_def Let_def)

interpretation canonical_strict: strict_writer "\<lambda>s. concat (map escape_char s)"
proof
  fix s r :: string
  assume "utf8_valid s"
  then show "escapes_paired True (concat (map escape_char s) @ CHR 0x22 # r) = escapes_paired False r"
    by (induction s rule: utf8_induct) (simp_all add: paired_escape_char paired_wide escape_wide)
  from \<open>utf8_valid s\<close> show "utf8_valid (concat (map escape_char s))"
    by (induction s rule: utf8_induct) (simp_all add: escape_wide utf8_valid_wide utf8_valid_append escape_char_valid)
qed

lemma go_escape_wide_cases: "wide p \<Longrightarrow> go_escape (p @ t) = p @ go_escape t \<or>
    (\<exists>c \<in> {CHR ''8'', CHR ''9''}. go_escape (p @ t) = CHR 0x5C # CHR ''u'' # CHR ''2'' # CHR ''0'' # CHR ''2'' # c # go_escape t)"
  by (cases "p \<in> {[CHR 0xE2, CHR 0x80, CHR 0xA8], [CHR 0xE2, CHR 0x80, CHR 0xA9]}")
     (auto simp: go_escape_wide)

lemma paired_separator: "c \<in> {CHR ''8'', CHR ''9''} \<Longrightarrow>
    escapes_paired True (CHR 0x5C # CHR ''u'' # CHR ''2'' # CHR ''0'' # CHR ''2'' # c # t) = escapes_paired True t"
  by (auto simp: hex4_def hex_value_def byte_def low_surrogate_def high_surrogate_def)

interpretation go_strict: strict_writer go_escape
proof
  fix s r :: string
  assume v: "utf8_valid s"
  show "escapes_paired True (go_escape s @ CHR 0x22 # r) = escapes_paired False r" using v
  proof (induction s rule: utf8_induct)
    case (ascii c t)
    then show ?case using paired_hex [OF ascii(1), of "go_escape t @ CHR 0x22 # r"] paired_escape_char [OF ascii(1)]
      by (simp add: go_escape_ascii del: go_escape.simps escapes_paired.simps(2))
  next
    case (wide p t)
    then show ?case using go_escape_wide_cases [OF wide(1), of t] paired_separator [of _ "go_escape t @ CHR 0x22 # r"]
      by (elim disjE bexE) (simp_all add: paired_wide del: escapes_paired.simps(2))
  qed simp
  show "utf8_valid (go_escape s)" using v
  proof (induction s rule: utf8_induct)
    case (ascii c t)
    have "0 \<le> byte c div 16" "byte c div 16 < 16" "0 \<le> byte c mod 16" "byte c mod 16 < 16" using byte_nonneg [of c] ascii(1) by auto
    then show ?case using ascii escape_char_valid [OF ascii(1)] hex_digit_ascii [of "byte c div 16"] hex_digit_ascii [of "byte c mod 16"]
      by (auto simp: go_escape_ascii byte_def simp del: go_escape.simps intro: utf8_valid_append)
  next
    case (wide p t)
    then show ?case using go_escape_wide_cases [OF wide(1), of t]
      by (elim disjE bexE) (auto simp: utf8_valid_wide byte_def)
  qed simp
qed

lemma digits_chars: "digits x = Some (x, []) \<Longrightarrow> list_all is_digit x"
  by (auto simp: digits_def Let_def list_all_iff takeWhile_eq_all_conv split: if_splits dest: set_takeWhileD)

lemma number_chars: "number_text s \<Longrightarrow> list_all (\<lambda>c. byte c < 128 \<and> c \<noteq> CHR 0x22) s"
  unfolding number_text_def
proof (elim number_parts)
  let ?P = "\<lambda>c. byte c < 128 \<and> c \<noteq> CHR 0x22"
  fix sg w f e
  assume x: "s = sg @ w @ f @ e" and sg: "sg = [] \<or> sg = ''-''" and w: "digits w = Some (w, [])"
    and f: "f = [] \<or> (\<exists>d. f = CHR ''.'' # d \<and> digits d = Some (d, []))"
    and e: "e = [] \<or> (\<exists>c g d. e = c # g @ d \<and> c \<in> {CHR ''e'', CHR ''E''} \<and> g \<in> {[], ''+'', ''-''} \<and> digits d = Some (d, []))"
  have d: "list_all ?P d" if "digits d = Some (d, [])" for d
    using digits_chars [OF that] by (auto simp: list_all_iff is_digit_def byte_def)
  have "list_all ?P f" using f d by (auto simp: byte_def)
  moreover have "list_all ?P e" using e d by (auto simp: byte_def)
  moreover have "list_all ?P sg" using sg by (auto simp: byte_def)
  ultimately show "list_all ?P s" using d [OF w] by (simp add: x)
qed

lemma ascii_valid: "list_all (\<lambda>c. byte c < 128) s \<Longrightarrow> utf8_valid s"
  by (induction s) auto

lemma commas_valid: "(\<And>s. s \<in> set xs \<Longrightarrow> utf8_valid s) \<Longrightarrow> utf8_valid (commas xs)"
  by (induction xs rule: commas.induct) (auto simp: byte_def intro!: utf8_valid_append)

lemma commas_paired: "(\<And>s r. s \<in> set xs \<Longrightarrow> escapes_paired False (s @ r) = escapes_paired False r) \<Longrightarrow>
    escapes_paired False (commas xs @ r) = escapes_paired False r"
  by (induction xs rule: commas.induct) auto

context strict_writer
begin

lemma print_paired: "json_text d v \<Longrightarrow> escapes_paired False (print_json escape v @ r) = escapes_paired False r"
proof (induction v arbitrary: d r)
  case (JNum s)
  then show ?case using number_chars [of s] by (auto simp: list_all_iff intro!: paired_outside)
next
  case (JArr items)
  then have "escapes_paired False (commas (map (print_json escape) items) @ CHR '']'' # r) = escapes_paired False (CHR '']'' # r)"
    by (intro commas_paired) (auto simp: list_all_iff)
  then show ?case by simp
next
  case (JObj m)
  have "escapes_paired False (commas (map (\<lambda>(k, x). CHR 0x22 # escape k @ CHR 0x22 # CHR '':'' # print_json escape x) m) @ CHR 0x7D # r)
      = escapes_paired False (CHR 0x7D # r)"
  proof (rule commas_paired)
    fix s r assume "s \<in> set (map (\<lambda>(k, x). CHR 0x22 # escape k @ CHR 0x22 # CHR '':'' # print_json escape x) m)"
    then obtain k x where "(k, x) \<in> set m" and s: "s = CHR 0x22 # escape k @ CHR 0x22 # CHR '':'' # print_json escape x" by auto
    moreover from this have "utf8_valid k" "json_text (d - 1) x" using JObj(2) by (auto simp: list_all_iff)
    ultimately show "escapes_paired False (s @ r) = escapes_paired False r"
      using JObj(1) [of "(k, x)" x "d - 1" r] by (simp add: escape_paired snds.simps)
  qed
  then show ?case by simp
qed (simp_all add: escape_paired)

lemma print_valid: "json_text d v \<Longrightarrow> utf8_valid (print_json escape v)"
proof (induction v arbitrary: d)
  case (JNum s)
  then show ?case using number_chars [of s] by (simp add: ascii_valid list_all_iff)
next
  case (JArr items)
  then have "utf8_valid (commas (map (print_json escape) items))" by (intro commas_valid) (auto simp: list_all_iff)
  then show ?case by (auto simp: byte_def intro!: utf8_valid_append)
next
  case (JObj m)
  have "utf8_valid (commas (map (\<lambda>(k, x). CHR 0x22 # escape k @ CHR 0x22 # CHR '':'' # print_json escape x) m))"
  proof (rule commas_valid)
    fix s assume "s \<in> set (map (\<lambda>(k, x). CHR 0x22 # escape k @ CHR 0x22 # CHR '':'' # print_json escape x) m)"
    then obtain k x where kx: "(k, x) \<in> set m" and s: "s = CHR 0x22 # escape k @ CHR 0x22 # CHR '':'' # print_json escape x" by auto
    from kx have "utf8_valid k" "json_text (d - 1) x" using JObj(2) by (auto simp: list_all_iff)
    then show "utf8_valid s"
      using JObj(1) [OF kx, of x "d - 1"] escape_valid by (simp add: s byte_def utf8_valid_append snds.simps)
  qed
  then show ?case by (auto simp: byte_def intro!: utf8_valid_append)
qed (auto simp: byte_def escape_valid intro!: utf8_valid_append)

text \<open>A value that was read strictly is strictly valid again once it is written.\<close>

lemma print_strict: "json_text max_nesting v \<Longrightarrow> strict_value 0 v \<Longrightarrow> Valid (print_json escape v)"
  using print_paired [of max_nesting v "[]"] by (simp add: Valid_def parse_print print_valid)

end

lemma go_marshal_print: "go_marshal v = print_json go_escape v"
proof (induction v)
  case (JArr items)
  then have "map go_marshal items = map (print_json go_escape) items" by (intro map_cong) auto
  then show ?case by (simp del: map_eq_conv)
next
  case (JObj m)
  then have "map (\<lambda>(k, x). go_quote k @ [CHR '':''] @ go_marshal x) m =
      map (\<lambda>(k, x). CHR 0x22 # go_escape k @ CHR 0x22 # CHR '':'' # print_json go_escape x) m"
    by (intro map_cong) (auto simp: go_quote_def)
  then show ?case by (simp del: map_eq_conv)
qed (simp_all add: go_quote_def)

section \<open>The canonical text\<close>

text \<open>The value with the members of every object sorted by key.\<close>

fun canon :: "json \<Rightarrow> json" where
  "canon (JArr items) = JArr (map canon items)"
| "canon (JObj m) = JObj (sort_key fst (map (\<lambda>(k, x). (k, canon x)) m))"
| "canon v = v"

lemma opt_list_Some: "opt_list xs = Some ys \<longleftrightarrow> xs = map Some ys"
  by (induction xs arbitrary: ys rule: opt_list.induct) (auto simp: map_eq_Cons_conv Cons_eq_map_conv)

lemma sort_members: "sort_key fst (map (\<lambda>(k, x). (k, g x)) m) = map (\<lambda>(k, x). (k, g x)) (sort_key fst m)"
proof -
  have ins: "insort_key fst (k, g x) (map (\<lambda>(k, x). (k, g x)) n) = map (\<lambda>(k, x). (k, g x)) (insort_key fst (k, x) n)" for k x n
    by (induction n) auto
  show ?thesis by (induction m) (auto simp: ins)
qed

lemma sort_members': "sort_key fst (map (\<lambda>x. (fst x, g (snd x))) m) = map (\<lambda>x. (fst x, g (snd x))) (sort_key fst m)"
  using sort_members [of g m] by (simp only: case_prod_beta')

lemma canonical_object: "appendCanonical (JObj m) = map_option (\<lambda>ss. [CHR 0x7B] @ commas ss @ [CHR 0x7D])
    (opt_list (map (\<lambda>kx. map_option (\<lambda>t. appendJSONString (fst kx) @ CHR '':'' # t) (appendCanonical (snd kx))) (sort_key fst m)))"
  by (simp add: case_prod_beta' sort_members' comp_def)

lemma canon_object: "canon (JObj m) = JObj (map (\<lambda>kx. (fst kx, canon (snd kx))) (sort_key fst m))"
  by (simp add: case_prod_beta' sort_members')

lemma canonical_print: "appendCanonical v = Some c \<Longrightarrow> c = print_json (\<lambda>s. concat (map escape_char s)) (canon v)"
proof (induction v arbitrary: c)
  case (JArr items)
  then obtain ss where ss: "map appendCanonical items = map Some ss" "c = [CHR ''[''] @ commas ss @ [CHR '']'']"
    by (auto simp: opt_list_Some)
  have "map (\<lambda>x. print_json (\<lambda>s. concat (map escape_char s)) (canon x)) items = ss"
  proof (rule nth_equalityI)
    have l: "length items = length ss" using ss(1) by (metis length_map)
    then show "length (map (\<lambda>x. print_json (\<lambda>s. concat (map escape_char s)) (canon x)) items) = length ss" by simp
    fix i assume "i < length (map (\<lambda>x. print_json (\<lambda>s. concat (map escape_char s)) (canon x)) items)"
    then have i: "i < length ss" using l by simp
    then have "appendCanonical (items ! i) = Some (ss ! i)" using ss(1) l by (metis nth_map)
    then show "map (\<lambda>x. print_json (\<lambda>s. concat (map escape_char s)) (canon x)) items ! i = ss ! i"
      using JArr(1) [of "items ! i" "ss ! i"] i l by simp
  qed
  then show ?case using ss(2) by (simp add: comp_def)
next
  case (JObj m)
  let ?m = "sort_key fst m"
  let ?f = "\<lambda>kx. CHR 0x22 # concat (map escape_char (fst kx)) @ CHR 0x22 # CHR '':'' # print_json (\<lambda>s. concat (map escape_char s)) (canon (snd kx))"
  obtain ss where ss: "map (\<lambda>kx. map_option (\<lambda>t. appendJSONString (fst kx) @ CHR '':'' # t) (appendCanonical (snd kx))) ?m = map Some ss"
      "c = [CHR 0x7B] @ commas ss @ [CHR 0x7D]"
    using JObj(2) unfolding canonical_object by (auto simp: opt_list_Some)
  have "map ?f ?m = ss"
  proof (rule nth_equalityI)
    have l: "length m = length ss" using arg_cong [OF ss(1), of length] by simp
    then show "length (map ?f ?m) = length ss" by simp
    fix i assume "i < length (map ?f ?m)"
    then have i: "i < length ss" using l by simp
    then have "map_option (\<lambda>t. appendJSONString (fst (?m ! i)) @ CHR '':'' # t) (appendCanonical (snd (?m ! i))) = Some (ss ! i)"
      using arg_cong [OF ss(1), of "\<lambda>xs. xs ! i"] l by (simp add: nth_map)
    then obtain t where t: "appendCanonical (snd (?m ! i)) = Some t" "ss ! i = appendJSONString (fst (?m ! i)) @ CHR '':'' # t" by auto
    have "?m ! i \<in> set m" using i l by (metis length_sort nth_mem set_sort)
    moreover have "snd (?m ! i) \<in> Basic_BNFs.snds (?m ! i)" by (cases "?m ! i") simp
    ultimately have "t = print_json (\<lambda>s. concat (map escape_char s)) (canon (snd (?m ! i)))" using JObj(1) t(1) by blast
    then have "?f (?m ! i) = ss ! i" using t(2) by (simp add: appendJSONString_def)
    then show "map ?f ?m ! i = ss ! i" using i l by simp
  qed
  then show ?case using ss(2) unfolding canon_object by (simp add: comp_def)
qed (auto simp: appendJSONString_def split: option.splits if_splits)

lemma sorted_members: "sort_key fst (sort_key fst m) = sort_key fst m"
  by (rule sort_key_id_if_sorted) simp

lemma canonical_canon: "appendCanonical (canon v) = appendCanonical v"
proof (induction v)
  case (JArr items)
  then have "map (\<lambda>x. appendCanonical (canon x)) items = map appendCanonical items" by (intro map_cong) auto
  then show ?case by (simp add: comp_def del: map_eq_conv)
next
  case (JObj m)
  then have "map (\<lambda>kx. map_option (\<lambda>t. appendJSONString (fst kx) @ CHR '':'' # t) (appendCanonical (canon (snd kx)))) (sort_key fst m) =
      map (\<lambda>kx. map_option (\<lambda>t. appendJSONString (fst kx) @ CHR '':'' # t) (appendCanonical (snd kx))) (sort_key fst m)"
    by (intro map_cong) (auto simp: snds.simps prod_eq_iff)
  then show ?case unfolding canon_object canonical_object by (simp add: sort_members' comp_def sorted_members del: map_eq_conv)
qed simp_all

lemma canon_text: "json_text d v \<Longrightarrow> json_text d (canon v)"
proof (induction v arbitrary: d)
  case (JObj m)
  then show ?case unfolding canon_object by (auto simp: list_all_iff snds.simps)
qed (auto simp: list_all_iff)

lemma canonical_read: "json_text max_nesting v \<Longrightarrow> appendCanonical v = Some c \<Longrightarrow> parse_json c = Some (canon v)"
  using canonical_string.parse_print [OF canon_text [of max_nesting v]] canonical_print [of v c] by simp

lemma decodeObject_text: "decodeObject raw = Some v \<Longrightarrow> json_text max_nesting v \<and> strict_value 0 v"
  by (auto simp: decodeObject_def Valid_def parse_json_text split: if_splits option.splits json.splits)

lemma canon_strict: "strict_value d v \<Longrightarrow> strict_value d (canon v)"
proof (induction v arbitrary: d)
  case (JObj m)
  have "distinct (map fst (sort_key fst m))" using JObj(2) by (metis distinct_map set_sort distinct_sort strict_value.simps(2))
  with JObj show ?case unfolding canon_object by (auto simp: list_all_iff comp_def case_prod_beta' snds.simps)
qed (auto simp: list_all_iff)

text \<open>
  C20: canonicalization is idempotent. The canonical text of a document from the wire is strictly
  valid JSON (UTF-8, paired surrogates, no duplicate key, at most 32 levels); unless escaping made it
  longer than the wire limit, the node accepts it as a document again, and the canonical text of
  that document is the same text. So a command sent in its canonical form has the identity and
  the digest of the original.
\<close>

theorem canonical_text_idempotent:
  assumes "decodeObject raw = Some v" and "appendCanonical v = Some c"
  shows "Valid c \<and> (int (length c) \<le> MaximumWireBytes \<longrightarrow> (\<exists>w. decodeObject c = Some w \<and> appendCanonical w = Some c))"
proof -
  have t: "json_text max_nesting v" "strict_value 0 v" using decodeObject_text [OF assms(1)] by auto
  have valid: "Valid c"
    using canonical_strict.print_strict [OF canon_text [OF t(1)] canon_strict [OF t(2)]] canonical_print [OF assms(2)] by simp
  obtain m where "v = JObj m" using assms(1) by (auto simp: decodeObject_def split: if_splits option.splits json.splits)
  then have "parse_json c = Some (canon (JObj m))" using canonical_read [OF t(1) assms(2)] by simp
  then have "decodeObject c = Some (canon v)" if "int (length c) \<le> MaximumWireBytes"
    using that valid \<open>v = JObj m\<close> by (simp add: decodeObject_def)
  then show ?thesis using valid canonical_canon [of v] assms(2) by auto
qed

text \<open>
  C21: the canonical text of a document is a normal form of it. Two documents from the wire have the
  same canonical text exactly when they are equal up to the order of their members, so the digest
  that a command identity is bound to stands for the command's meaning and not for its bytes; and
  the canonical text can be read back to the document with sorted members.
\<close>

theorem canonical_text_normal_form:
  assumes "decodeObject raw = Some v" and "decodeObject raw' = Some v'" and "appendCanonical v = Some c"
  shows "(appendCanonical v' = Some c \<longleftrightarrow> canon v' = canon v) \<and> parse_json c = Some (canon v)"
proof -
  have t: "json_text max_nesting v" "json_text max_nesting v'" using decodeObject_text assms(1,2) by auto
  have "canon v' = canon v" if "appendCanonical v' = Some c"
    using canonical_read [OF t(1) assms(3)] canonical_read [OF t(2) that] by simp
  moreover have "appendCanonical v' = Some c" if "canon v' = canon v"
    using canonical_canon [of v'] canonical_canon [of v] that assms(3) by simp
  ultimately show ?thesis using canonical_read [OF t(1) assms(3)] by auto
qed

text \<open>The step bound that the length of a text gives its parser is enough: no larger bound changes the result.\<close>

lemma parser_bound_suffices:
  assumes "2 * length s + 1 \<le> n"
  shows "parse_json s = (case jvalue n max_nesting s of None \<Rightarrow> None | Some (v, r) \<Rightarrow> if skip_space r = [] then Some v else None)"
  using parser_steps(1) [of s "2 * length s + 1" n] assms by (simp add: parse_json_def del: jvalue.simps)

definition sample_text_one :: string where
  "sample_text_one = [CHR 0x7B, CHR 0x22, CHR ''b'', CHR 0x22, CHR '':'', CHR ''1'', CHR '','', CHR '' '', CHR 0x22, CHR ''a'', CHR 0x22, CHR '':'',
     CHR 0x22, CHR ''<'', CHR 0x5C, CHR ''n'', CHR 0x22, CHR 0x7D]"

definition sample_text_two :: string where
  "sample_text_two = [CHR 0x7B, CHR 0x22, CHR ''a'', CHR 0x22, CHR '':'',
     CHR 0x22, CHR ''<'', CHR 0x5C, CHR ''n'', CHR 0x22, CHR '','', CHR 0x22, CHR ''b'', CHR 0x22, CHR '':'', CHR ''1'', CHR 0x7D]"

lemma sample_texts:
  "decodeObject sample_text_one = Some (JObj [(''b'', JNum ''1''), (''a'', JStr [CHR ''<'', CHR 0x0A])])"
  "decodeObject sample_text_two = Some (JObj [(''a'', JStr [CHR ''<'', CHR 0x0A]), (''b'', JNum ''1'')])"
  "appendCanonical (JObj [(''b'', JNum ''1''), (''a'', JStr [CHR ''<'', CHR 0x0A])]) = Some sample_text_two"
  by code_simp+

theorem canonical_text_idempotent_witness:
  "\<exists>w. decodeObject sample_text_two = Some w \<and> appendCanonical w = Some sample_text_two"
  using canonical_text_idempotent [OF sample_texts(1,3)] by (auto simp: sample_text_two_def MaximumWireBytes_def)

theorem canonical_text_normal_form_witness:
  "appendCanonical (JObj [(''a'', JStr [CHR ''<'', CHR 0x0A]), (''b'', JNum ''1'')]) = Some sample_text_two \<and>
     parse_json sample_text_two = Some (canon (JObj [(''b'', JNum ''1''), (''a'', JStr [CHR ''<'', CHR 0x0A])]))"
  using canonical_text_normal_form [OF sample_texts] by simp

end
