(* ===== verification/Read.thy ===== *)
theory Read
  imports System Canonical
begin

text \<open>
  The read side of \<open>runtime/read.go\<close>: identity, admission profile, health, heartbeat, the node
  snapshot and the status of a command. A read runs in its own read-only transaction under the node
  lock, so it is a function of one committed database and changes nothing. What the environment
  answers is a record: whether the store can be read, whether the read transaction commits, the
  clock, a fresh correlation identity, and the readiness of the adapter and of the provider
  authentication (absent when the node has none).
\<close>

section \<open>The environment of a read\<close>

record node_env =
  ne_config :: Config
  ne_registry :: int
  ne_identity :: Identity
  ne_started_at :: string
  ne_boot :: string
  ne_heartbeat :: string

record read_io =
  ri_store :: bool
  ri_commit :: bool
  ri_now :: string
  ri_correlation :: string
  ri_native :: "bool option"
  ri_auth :: "bool option"

definition read_error :: "read_io \<Rightarrow> nat \<Rightarrow> string \<Rightarrow> string \<Rightarrow> string \<Rightarrow> Result" where
  "read_error e status code message correlation =
     errorResult status code message (if correlation = [] then ri_correlation e else correlation) None []"

definition authorizeRead :: "node_env \<Rightarrow> read_io \<Rightarrow> TrustContext \<Rightarrow> Result option" where
  "authorizeRead n e trust = (if TransportNodeID trust \<noteq> CfgNodeID (ne_config n)
     then Some (read_error e 404 ''not_found'' ''node was not found'' []) else None)"

definition Busy :: "bool \<Rightarrow> database \<Rightarrow> bool" where
  "Busy store db \<longleftrightarrow> \<not> store \<or> ActiveAttemptID (node_state db) \<noteq> None"

definition effectiveReadiness :: "read_io \<Rightarrow> string \<Rightarrow> string list \<Rightarrow> string \<times> string list" where
  "effectiveReadiness e readiness reasons =
     (let (r1, s1) = (if ri_native e = Some False then (''blocked'', addReason reasons ''engine_unavailable'') else (readiness, reasons))
      in if ri_auth e = Some False then (''blocked'', addReason s1 ''auth_unavailable'') else (r1, s1))"

definition Invalid :: "read_io \<Rightarrow> string \<Rightarrow> Result" where
  "Invalid e message = read_error e 400 ''invalid'' message []"

text \<open>A response is sent only if it is a valid document of its wire type.\<close>

definition wireResult :: "read_io \<Rightarrow> string \<Rightarrow> json \<Rightarrow> Result" where
  "wireResult e wireType v = (if MaximumWireBytes < int (length (go_marshal v)) \<or> \<not> Validate wireType v
     then read_error e 503 ''not_durable'' ''durable response is invalid'' []
     else \<lparr>HTTPStatus = 200, Body = v, Committed = False\<rparr>)"

section \<open>Documents\<close>

definition json_pins :: "(string \<times> json) list" where
  "json_pins = [(''protocolVersion'', jnum ProtocolVersion), (''schemaId'', JStr SchemaID)]"

definition json_Request :: "request_row \<Rightarrow> json" where
  "json_Request r = JObj [(''requestId'', JStr (request_id r)), (''dialogId'', JStr (r_dialog_id r)),
     (''inputMessageId'', JStr (r_input_message_id r)), (''queueSequence'', jnum (r_queue_sequence r)),
     (''version'', jnum (r_version r)), (''status'', JStr (request_status_text (r_status r)))]"

definition scan_null :: "string option \<Rightarrow> string" where
  "scan_null x = (case x of None \<Rightarrow> [] | Some s \<Rightarrow> s)"

definition json_Attempt :: "attempt_row \<Rightarrow> json" where
  "json_Attempt a = JObj ([(''attemptId'', JStr (attempt_id a)), (''dialogId'', JStr (a_dialog_id a)), (''requestId'', JStr (a_request_id a)),
     (''generation'', jnum (a_generation a)), (''version'', jnum (a_version a)), (''state'', JStr (attempt_state_text (a_state a))),
     (''effectStatus'', JStr (a_effect_status a))] @ omit ''startedAt'' (scan_null (a_started_at a)) @ omit ''finishedAt'' (scan_null (a_finished_at a)))"

definition json_Snapshot :: "durableState \<Rightarrow> string \<Rightarrow> request_row list \<Rightarrow> attempt_row option \<Rightarrow> json" where
  "json_Snapshot s at queue active = JObj (json_pins @ [(''nodeId'', JStr (NodeID s)), (''epoch'', jnum (Epoch s)),
     (''stateVersion'', jnum (StateVersion s)), (''lastEventSeq'', jnum (LastEventSeq s)), (''capturedAt'', JStr at),
     (''node'', nodePayload s), (''pendingQueue'', JArr (map json_Request queue)),
     (''activeAttempt'', case active of None \<Rightarrow> JNull | Some a \<Rightarrow> json_Attempt a), (''completeness'', JStr ''complete'')])"

section \<open>Snapshot\<close>

definition pending_queue :: "database \<Rightarrow> request_row list" where
  "pending_queue db = take (nat QueueCapacity) (sort_key r_queue_sequence (filter (\<lambda>r. r_status r = RQueued) (requests db)))"

definition Snapshot :: "node_env \<Rightarrow> read_io \<Rightarrow> TrustContext \<Rightarrow> database \<Rightarrow> Result" where
  "Snapshot n e trust db = (case authorizeRead n e trust of Some denied \<Rightarrow> denied
     | None \<Rightarrow> (let s = node_state db; unavailable = read_error e 503 ''not_durable'' ''snapshot is unavailable'' [];
          answer = (\<lambda>active. if ri_commit e then wireResult e ''snapshot'' (json_Snapshot s (ri_now e) (pending_queue db) active) else unavailable) in
        if \<not> ri_store e then unavailable
        else (case ActiveAttemptID s of None \<Rightarrow> answer None
          | Some i \<Rightarrow> (case lookup_row attempt_id i (attempts db) of
              None \<Rightarrow> read_error e 503 ''not_durable'' ''snapshot is inconsistent'' []
            | Some a \<Rightarrow> answer (Some a)))))"

section \<open>Command status\<close>

text \<open>\<open>json.Unmarshal\<close> into a \<open>Receipt\<close> and \<open>json.Marshal\<close> of it again.\<close>

definition reencode_Receipt :: "json \<Rightarrow> json option" where
  "reencode_Receipt v = (case v of JObj m \<Rightarrow>
       (case (go_int ''protocolVersion'' m, go_string ''schemaId'' m, go_string ''commandId'' m, go_string ''commandKind'' m,
           go_string ''receiptId'' m, go_string ''acceptedAt'' m, go_string ''nodeId'' m, go_int ''eventSeq'' m, go_string ''result'' m,
           go_string ''blockingReason'' m) of
         (Some pv, Some sc, Some ci, Some ck, Some ri, Some at, Some ni, Some es, Some rs, Some br) \<Rightarrow>
           Some (JObj ([(''protocolVersion'', jnum pv), (''schemaId'', JStr sc), (''commandId'', JStr ci), (''commandKind'', JStr ck),
             (''receiptId'', JStr ri), (''acceptedAt'', JStr at), (''nodeId'', JStr ni), (''eventSeq'', jnum es), (''result'', JStr rs)] @
             omit ''blockingReason'' br @ [(''references'', go_raw ''references'' m)]))
       | _ \<Rightarrow> None)
    | JNull \<Rightarrow> Some (JObj [(''protocolVersion'', jnum 0), (''schemaId'', JStr []), (''commandId'', JStr []), (''commandKind'', JStr []),
        (''receiptId'', JStr []), (''acceptedAt'', JStr []), (''nodeId'', JStr []), (''eventSeq'', jnum 0), (''result'', JStr []),
        (''references'', JNull)])
    | _ \<Rightarrow> None)"

definition json_CommandStatus :: "string \<Rightarrow> string \<Rightarrow> string \<Rightarrow> json \<Rightarrow> json" where
  "json_CommandStatus node command hash receipt = JObj (json_pins @ [(''nodeId'', JStr node), (''commandId'', JStr command),
     (''canonicalPayloadHash'', JStr hash), (''status'', JStr ''accepted''), (''receipt'', receipt)])"

text \<open>The answer for a stored outcome whose dialog is not deleted.\<close>

definition outcome_status :: "node_env \<Rightarrow> read_io \<Rightarrow> string \<Rightarrow> storedCommandOutcome \<Rightarrow> Result" where
  "outcome_status n e commandID oc = (let unavailable = read_error e 503 ''not_durable'' ''command status is unavailable'' commandID;
       invalid = read_error e 503 ''not_durable'' ''command status is invalid'' commandID in
     if \<not> oc_accepted oc then
       (if \<not> validRejectionReceipt (oc_body oc) then invalid
        else if \<not> ri_commit e then unavailable
        else \<lparr>HTTPStatus = oc_status oc, Body = oc_body oc, Committed = False\<rparr>)
     else (case reencode_Receipt (oc_body oc) of None \<Rightarrow> invalid
       | Some receipt \<Rightarrow> if \<not> ri_commit e then unavailable
           else wireResult e ''commandStatus'' (json_CommandStatus (CfgNodeID (ne_config n)) commandID (oc_hash oc) receipt)))"

definition CommandStatus :: "node_env \<Rightarrow> read_io \<Rightarrow> TrustContext \<Rightarrow> string \<Rightarrow> database \<Rightarrow> Result" where
  "CommandStatus n e trust commandID db = (case authorizeRead n e trust of Some denied \<Rightarrow> denied
     | None \<Rightarrow> if \<not> uuidPattern commandID then read_error e 400 ''invalid'' ''command id is invalid'' []
         else if \<not> ri_store e then read_error e 503 ''not_durable'' ''command status is unavailable'' commandID
         else (case loadCommandOutcome commandID (begin_tx db [] []) of
             Inl _ \<Rightarrow> read_error e 503 ''not_durable'' ''command status is unavailable'' commandID
           | Inr (None, _) \<Rightarrow> read_error e 404 ''not_found'' ''command was not found'' commandID
           | Inr (Some oc, _) \<Rightarrow> if commandOutcomeTargetsDeletedDialog oc (begin_tx db [] [])
               then read_error e 404 ''not_found'' ''command was not found'' commandID else outcome_status n e commandID oc))"

section \<open>Identity, admission and health\<close>

definition capabilityStatus :: "Identity \<Rightarrow> string \<Rightarrow> string" where
  "capabilityStatus i c = (if Verified i c then ''verified'' else if Declared i c then ''declared'' else ''unsupported'')"

definition json_AdapterIdentity :: "Identity \<Rightarrow> json" where
  "json_AdapterIdentity i = JObj [(''kind'', JStr (IdKind i)), (''version'', JStr (IdVersion i))]"

definition json_NodeIdentity :: "node_env \<Rightarrow> durableState \<Rightarrow> json" where
  "json_NodeIdentity n s = JObj (json_pins @ [(''schemaSHA256'', JStr SchemaSHA256), (''nodeId'', JStr (CfgNodeID (ne_config n))),
     (''registryVersion'', jnum (ne_registry n)), (''identityEpoch'', jnum (Epoch s)), (''adapter'', json_AdapterIdentity (ne_identity n)),
     (''capabilities'', JObj (map (\<lambda>c. (c, JStr (capabilityStatus (ne_identity n) c))) mandatoryCapabilities))])"

definition NodeIdentity_read :: "node_env \<Rightarrow> read_io \<Rightarrow> TrustContext \<Rightarrow> database \<Rightarrow> Result" where
  "NodeIdentity_read n e trust db = (case authorizeRead n e trust of Some denied \<Rightarrow> denied
     | None \<Rightarrow> if \<not> ri_store e then read_error e 503 ''not_durable'' ''identity is unavailable'' []
         else wireResult e ''nodeIdentity'' (json_NodeIdentity n (node_state db)))"

definition json_AdmissionProfile :: "node_env \<Rightarrow> durableState \<Rightarrow> string \<Rightarrow> json" where
  "json_AdmissionProfile n s readiness = JObj [(''schemaId'', JStr AdmissionSchemaID), (''ownerId'', JStr (CfgOwnerID (ne_config n))),
     (''nodeId'', JStr (CfgNodeID (ne_config n))), (''registrationRevision'', jnum (ne_registry n)), (''identityEpoch'', jnum (Epoch s)),
     (''wireSchemaSHA256'', JStr SchemaSHA256), (''adapter'', json_AdapterIdentity (ne_identity n)), (''readiness'', JStr readiness),
     (''capabilities'', JObj [(''profile'', JBool True), (''native_epoch'', JBool True),
       (''policy_enforcement'', JBool (Verified (ne_identity n) ''policy_enforcement'')), (''history'', JBool True), (''facts'', JBool False),
       (''durable_receipts'', JBool True), (''replica_export'', JBool False), (''replica_import'', JBool False), (''asset_export'', JBool False),
       (''asset_import'', JBool False), (''scoped_quiesce'', JBool True), (''ownership_release'', JBool True), (''target_reservation'', JBool False)])]"

definition Admission :: "node_env \<Rightarrow> read_io \<Rightarrow> TrustContext \<Rightarrow> database \<Rightarrow> Result" where
  "Admission n e trust db = (case authorizeRead n e trust of Some denied \<Rightarrow> denied
     | None \<Rightarrow> if \<not> ri_store e then read_error e 503 ''not_durable'' ''admission profile is unavailable'' []
         else (let s = node_state db; readiness = fst (effectiveReadiness e (EngineReadiness s) (BlockedReasons s)) in
           wireResult e ''admissionProfile'' (json_AdmissionProfile n s readiness)))"

definition HealthLive :: "node_env \<Rightarrow> read_io \<Rightarrow> Result" where
  "HealthLive n e = wireResult e ''healthLive'' (JObj (json_pins @ [(''status'', JStr ''live''), (''processStartedAt'', JStr (ne_started_at n))]))"

definition ExecutorHeartbeat :: "node_env \<Rightarrow> read_io \<Rightarrow> TrustContext \<Rightarrow> database \<Rightarrow> Result" where
  "ExecutorHeartbeat n e trust db = (case authorizeRead n e trust of Some denied \<Rightarrow> denied
     | None \<Rightarrow> if \<not> ri_store e then read_error e 503 ''not_durable'' ''executor heartbeat is unavailable'' []
         else (let s = node_state db; readiness = fst (effectiveReadiness e (EngineReadiness s) (BlockedReasons s)) in
           \<lparr>HTTPStatus = 200, Body = JObj [(''nodeId'', JStr (CfgNodeID (ne_config n))), (''bootId'', JStr (ne_boot n)),
              (''observedAt'', JStr (ne_heartbeat n)), (''health'', JStr ''live''), (''readiness'', JStr readiness),
              (''capacity'', jnum QueueCapacity)], Committed = False\<rparr>))"

definition HealthReady :: "node_env \<Rightarrow> read_io \<Rightarrow> TrustContext \<Rightarrow> database \<Rightarrow> Result" where
  "HealthReady n e trust db = (case authorizeRead n e trust of Some denied \<Rightarrow> denied
     | None \<Rightarrow> if \<not> ri_store e then read_error e 503 ''not_durable'' ''readiness is unavailable'' []
         else (let s = node_state db; identity = NodeIdentity_read n e trust db in
           if HTTPStatus identity \<noteq> 200 then identity
           else (let (readiness, reasons) = effectiveReadiness e (EngineReadiness s) (BlockedReasons s) in
             wireResult e ''healthReady'' (JObj (json_pins @ [(''checkedAt'', JStr (ri_now e)), (''identity'', Body identity),
               (''readiness'', JStr readiness), (''blockedReasons'', JArr (map JStr reasons))])))))"

section \<open>Laws of the reads\<close>

lemma slot_attempt:
  assumes "reachable H cfg db"
  shows "filter (\<lambda>a. is_active (a_state a)) (attempts db) = (case ActiveAttemptID (node_state db) of None \<Rightarrow> []
    | Some i \<Rightarrow> (case lookup_row attempt_id i (attempts db) of None \<Rightarrow> [] | Some a \<Rightarrow> [a])) \<and>
    (\<forall>i. ActiveAttemptID (node_state db) = Some i \<longrightarrow> lookup_row attempt_id i (attempts db) \<noteq> None)"
proof -
  have s: "map attempt_id (filter (\<lambda>a. is_active (a_state a)) (attempts db)) = (case ActiveAttemptID (node_state db) of None \<Rightarrow> [] | Some i \<Rightarrow> [i])"
    and d: "distinct (map attempt_id (attempts db))"
    using slot_program.reachable_inv [OF new_volume_slot assms] table_keys.reachable_inv [OF new_volume_stores(2) assms]
    by (simp_all add: db_inv_def slot_ok_def slot_keys_def slot_inv_def active_ids_def primary_keys_def begin_tx_def database.defs)
  show ?thesis
  proof (cases "ActiveAttemptID (node_state db)")
    case None
    then show ?thesis using s by simp
  next
    case (Some i)
    then obtain a where a: "filter (\<lambda>a. is_active (a_state a)) (attempts db) = [a]" "attempt_id a = i"
      using s by (auto simp: map_eq_Cons_conv)
    then have "a \<in> set (attempts db)" by (metis filter_is_subset list.set_intros(1) subsetD)
    from lookup_row_unique [OF d this] show ?thesis using a Some by simp
  qed
qed

text \<open>
  C26: a snapshot is never inconsistent. On every database the node can reach, an authorized snapshot
  that reads and commits is the document of the committed state: its active attempt is the one row
  that occupies the execution slot, or null when no attempt is active, and its queue is the oldest
  queued requests in queue order. The branch that reports an inconsistent snapshot is never taken.
\<close>

theorem snapshot_consistent:
  assumes "reachable H cfg db" and "TransportNodeID trust = CfgNodeID (ne_config n)" and "ri_store e" and "ri_commit e"
  shows "\<exists>active. Snapshot n e trust db = wireResult e ''snapshot'' (json_Snapshot (node_state db) (ri_now e) (pending_queue db) active) \<and>
    filter (\<lambda>a. is_active (a_state a)) (attempts db) = (case active of None \<Rightarrow> [] | Some a \<Rightarrow> [a])"
  using slot_attempt [OF assms(1)] assms(2-4)
  by (auto simp: Snapshot_def authorizeRead_def Let_def split: option.splits)

text \<open>
  C27: the status of a command is stable. Once a command has a durable outcome, every later status
  request for it answers from that same outcome, whatever transactions ran in between, until its
  dialog is deleted; from then on the command is reported as not found.
\<close>

theorem command_status_stable:
  assumes "reachable H cfg db" and "node_steps H cfg db db'" and "oc \<in> set (command_outcomes c (begin_tx db [] []))"
    and "TransportNodeID trust = CfgNodeID (ne_config n)" and "uuidPattern c" and "ri_store e"
  shows "CommandStatus n e trust c db' = (if commandOutcomeTargetsDeletedDialog oc (begin_tx db' [] [])
     then read_error e 404 ''not_found'' ''command was not found'' c else outcome_status n e c oc)"
proof -
  have "command_outcomes c (begin_tx db' [] []) = [oc]" by (rule final_outcome [OF assms(1-3)])
  then show ?thesis using assms(4-6)
    by (simp add: CommandStatus_def authorizeRead_def loadCommandOutcome_def tbind_def tgets_def tret_def)
qed

definition sample_env :: node_env where
  "sample_env = \<lparr>ne_config = sample_config, ne_registry = 1, ne_identity = \<lparr>IdKind = ''cursor'', IdVersion = ''1.0.31'',
     IdProtocolVersion = ProtocolVersion, IdSchemaID = SchemaID, IdSchemaSHA256 = SchemaSHA256, Declared = (\<lambda>_. True), Verified = (\<lambda>_. True)\<rparr>,
     ne_started_at = io_now sample_io, ne_boot = [], ne_heartbeat = io_now sample_io\<rparr>"

definition sample_read :: read_io where
  "sample_read = \<lparr>ri_store = True, ri_commit = True, ri_now = io_now sample_io, ri_correlation = io_correlation sample_io,
     ri_native = Some True, ri_auth = None\<rparr>"

theorem snapshot_consistent_witness:
  "\<exists>active. Snapshot sample_env sample_read sample_trust (snd sample_created) =
     wireResult sample_read ''snapshot'' (json_Snapshot (node_state (snd sample_created)) (ri_now sample_read) (pending_queue (snd sample_created)) active)"
  using snapshot_consistent [OF sample_created_reachable, of sample_trust sample_env sample_read]
  by (auto simp: sample_trust_def sample_env_def sample_config_def sample_read_def)

definition sample_status :: bool where
  "sample_status \<longleftrightarrow> (case commands (snd sample_created) of [r] \<Rightarrow> uuidPattern (command_id r) | _ \<Rightarrow> False)"

lemma sample_status_fact: "sample_status"
  by code_simp

theorem command_status_stable_witness:
  "\<exists>c oc. oc \<in> set (command_outcomes c (begin_tx (snd sample_created) [] [])) \<and>
     CommandStatus sample_env sample_read sample_trust c (finishAction sample_io [] CUnknown (snd sample_created)) =
       (if commandOutcomeTargetsDeletedDialog oc (begin_tx (finishAction sample_io [] CUnknown (snd sample_created)) [] [])
        then read_error sample_read 404 ''not_found'' ''command was not found'' c else outcome_status sample_env sample_read c oc)"
proof -
  obtain r where r: "r \<in> set (commands (snd sample_created))" "uuidPattern (command_id r)"
    using sample_status_fact by (auto simp: sample_status_def split: list.splits)
  then obtain oc where oc: "oc \<in> set (command_outcomes (command_id r) (begin_tx (snd sample_created) [] []))"
    by (auto simp: command_outcomes_def)
  have "node_steps sample_hash sample_config (snd sample_created) (finishAction sample_io [] CUnknown (snd sample_created))"
    by (rule steps_one [OF step_finish])
  moreover have "TransportNodeID sample_trust = CfgNodeID (ne_config sample_env)" "ri_store sample_read"
    by (simp_all add: sample_trust_def sample_env_def sample_config_def sample_read_def)
  ultimately show ?thesis using command_status_stable [OF sample_created_reachable _ oc _ r(2)] oc by blast
qed

end
