(* ===== verification/Replay.thy ===== *)
theory Replay
  imports Read
begin

text \<open>
  The durable event stream of \<open>runtime/replay.go\<close>. A client names the last sequence number it has
  and gets a bounded window of what follows; it asks again from the end of the window. The laws: on
  a database the node can reach no answer reports a gap, a window is exactly the next events in
  order, and a client that keeps asking receives the whole log. The last part rests on a further
  invariant of the program, that every event row carries the identity, epoch, attempt and dialog
  that its JSON carries.
\<close>

section \<open>Deleted dialogs\<close>

definition loadDeletedDialogs :: "database \<Rightarrow> string list" where
  "loadDeletedDialogs db = concat (map (\<lambda>x. case e_dialog_id x of
      Some d \<Rightarrow> if e_projection_key x = Some ''dialog.deleted'' then [d] else [] | None \<Rightarrow> []) (events db))"

text \<open>The messages among the candidates that belong to a deleted dialog; more than 100 candidates are refused.\<close>

definition deletedMessageScopes :: "database \<Rightarrow> string list \<Rightarrow> string list \<Rightarrow> string list option" where
  "deletedMessageScopes db candidates deletedDialogs =
     (if candidates = [] then Some []
      else if 100 < length (remdups candidates) then None
      else Some (map message_id (filter (\<lambda>m. message_id m \<in> set candidates \<and> m_dialog_id m \<in> set deletedDialogs) (messages db))))"

text \<open>The envelope fields the code reads, by \<open>json.Unmarshal\<close> into \<open>EventEnvelope\<close>.\<close>

record envelope =
  ev_node :: string
  ev_seq :: int
  ev_epoch :: int
  ev_type :: string
  ev_entity :: string
  ev_attempt :: string
  ev_dialog :: string
  ev_payload :: json

definition read_envelope :: "json \<Rightarrow> envelope option" where
  "read_envelope v = (case v of JObj m \<Rightarrow>
       (case (go_int ''protocolVersion'' m, go_string ''schemaId'' m, go_string ''nodeId'' m, go_int ''seq'' m, go_int ''epoch'' m,
           go_string ''type'' m, go_string ''entityId'' m, go_int ''entityVersion'' m, go_string ''attemptId'' m, go_string ''dialogId'' m,
           go_string ''observedAt'' m, go_string ''sourceAt'' m, go_string ''completeness'' m) of
         (Some _, Some _, Some n, Some sq, Some ep, Some ty, Some en, Some _, Some at, Some di, Some _, Some _, Some _) \<Rightarrow>
           Some \<lparr>ev_node = n, ev_seq = sq, ev_epoch = ep, ev_type = ty, ev_entity = en, ev_attempt = at, ev_dialog = di,
             ev_payload = go_raw ''payload'' m\<rparr>
       | _ \<Rightarrow> None)
    | _ \<Rightarrow> None)"

definition accepted_dialog :: "json \<Rightarrow> string option" where
  "accepted_dialog v = (case v of JObj m \<Rightarrow>
       (case (go_string ''dialogId'' m, go_string ''messageId'' m, go_string ''requestId'' m, go_int ''sequence'' m, go_string ''disposition'' m) of
         (Some d, Some _, Some _, Some _, Some _) \<Rightarrow> Some d | _ \<Rightarrow> None)
    | JNull \<Rightarrow> Some [] | _ \<Rightarrow> None)"

definition eventBelongsToDeletedDialog :: "envelope \<Rightarrow> string list \<Rightarrow> string list \<Rightarrow> bool" where
  "eventBelongsToDeletedDialog v deleted gone \<longleftrightarrow> ev_type v \<noteq> ''dialog.deleted'' \<and>
     (ev_dialog v \<in> set deleted \<or> (ev_type v = ''message.disposition_changed'' \<and> ev_entity v \<in> set gone) \<or>
      (ev_type v = ''message.accepted'' \<and> (case accepted_dialog (ev_payload v) of None \<Rightarrow> False | Some d \<Rightarrow> d \<in> set deleted)))"

section \<open>Replay\<close>

record EventReplay =
  er_epoch :: int
  er_last :: int
  er_events :: "json list"

definition raw_size :: "json \<Rightarrow> int" where "raw_size v = int (length (go_marshal v))"

text \<open>The scan of the rows: \<open>None\<close> for a gap, otherwise the window that fits.\<close>

fun replay_window :: "durableState \<Rightarrow> int \<Rightarrow> int \<Rightarrow> json list \<Rightarrow> (json \<times> envelope) list option" where
  "replay_window s expected bytes [] = Some []"
| "replay_window s expected bytes (raw # rows) =
     (if \<not> Validate ''event'' raw then None
      else case read_envelope raw of None \<Rightarrow> None
      | Some v \<Rightarrow> if ev_node v \<noteq> NodeID s \<or> ev_epoch v \<noteq> Epoch s \<or> ev_seq v \<noteq> expected then None
          else if MaximumWireBytes - 1024 < bytes + raw_size raw then Some []
          else map_option (Cons (raw, v)) (replay_window s (expected + 1) (bytes + raw_size raw) rows))"

definition replay_rows :: "int \<Rightarrow> nat \<Rightarrow> database \<Rightarrow> event_row list" where
  "replay_rows after limit db = take limit (sort_key e_seq (filter (\<lambda>x. e_node_id x = NodeID (node_state db) \<and> after < e_seq x) (events db)))"

definition ReplayEvents :: "node_env \<Rightarrow> read_io \<Rightarrow> TrustContext \<Rightarrow> string list \<Rightarrow> int \<Rightarrow> int \<Rightarrow> database \<Rightarrow> Result + EventReplay" where
  "ReplayEvents n e trust deletedDialogs after limit db = (case authorizeRead n e trust of Some denied \<Rightarrow> Inl denied
     | None \<Rightarrow> if after < 0 \<or> limit < 1 \<or> 100 < limit then Inl (Invalid e ''event cursor is invalid'')
         else (let s = node_state db; unavailable = read_error e 503 ''not_durable'' ''events are unavailable'' [] in
           if \<not> ri_store e then Inl unavailable
           else if LastEventSeq s < after then Inl (read_error e 409 ''stale'' ''event cursor is ahead of durable history'' [])
           else (case replay_window s (after + 1) 0 (map e_json (replay_rows after (nat limit) db)) of
               None \<Rightarrow> Inl (read_error e 409 ''stale'' ''durable event history has a gap'' [])
             | Some window \<Rightarrow>
                 (let candidates = map (ev_entity \<circ> snd) (filter (\<lambda>(_, v). ev_type v = ''message.disposition_changed'') window) in
                  case deletedMessageScopes db candidates deletedDialogs of None \<Rightarrow> Inl unavailable
                  | Some gone \<Rightarrow> if list_ex (\<lambda>(_, v). eventBelongsToDeletedDialog v deletedDialogs gone) window
                      then Inl (read_error e 409 ''stale'' ''event history requires snapshot resynchronization'' [])
                      else Inr \<lparr>er_epoch = Epoch s, er_last = LastEventSeq s, er_events = map fst window\<rparr>))))"

section \<open>The event stream of the HTTP server\<close>

text \<open>
  \<open>events\<close> of \<open>api/server.go\<close>: the frames written for one batch, which stop at the first event that
  is not the next one, and the loop that polls again from the last event written. The environment
  of a run is the list of its polls: whether the heartbeat came first, and the database and answers
  at that moment. The run ends when the list does (the client is gone).
\<close>

definition frame :: "int \<Rightarrow> json \<Rightarrow> string" where
  "frame sq raw = ''id: '' @ digits_of sq @ [CHR 0x0A] @ ''data: '' @ go_marshal raw @ [CHR 0x0A, CHR 0x0A]"

definition keep_alive :: string where "keep_alive = '': keep-alive'' @ [CHR 0x0A, CHR 0x0A]"

fun send_batch :: "int \<Rightarrow> json list \<Rightarrow> string list \<times> int \<times> bool" where
  "send_batch lst [] = ([], lst, True)"
| "send_batch lst (raw # rows) =
     (case (case raw of JObj m \<Rightarrow> go_int ''seq'' m | _ \<Rightarrow> None) of None \<Rightarrow> ([], lst, False)
      | Some sq \<Rightarrow> if sq \<noteq> lst + 1 then ([], lst, False)
          else (case send_batch sq rows of (frames, l, live) \<Rightarrow> (frame sq raw # frames, l, live)))"

record poll =
  po_heartbeat :: bool
  po_io :: read_io
  po_db :: database

fun event_loop :: "node_env \<Rightarrow> TrustContext \<Rightarrow> int \<Rightarrow> json list \<Rightarrow> poll list \<Rightarrow> string list" where
  "event_loop n trust lst batch polls = (case send_batch lst batch of (frames, l, live) \<Rightarrow> frames @
     (if \<not> live then [] else case polls of [] \<Rightarrow> []
      | p # ps \<Rightarrow> (if po_heartbeat p then [keep_alive] else []) @
          (case ReplayEvents n (po_io p) trust (loadDeletedDialogs (po_db p)) l 100 (po_db p) of
             Inl _ \<Rightarrow> []
           | Inr r \<Rightarrow> event_loop n trust l (er_events r) ps)))"

declare event_loop.simps [simp del]

text \<open>A connection: the first replay decides between an error and a stream.\<close>

definition event_stream :: "node_env \<Rightarrow> TrustContext \<Rightarrow> int \<Rightarrow> poll \<Rightarrow> poll list \<Rightarrow> Result + string list" where
  "event_stream n trust after first polls =
     (case ReplayEvents n (po_io first) trust (loadDeletedDialogs (po_db first)) after 100 (po_db first) of
        Inl failure \<Rightarrow> Inl failure
      | Inr r \<Rightarrow> Inr (event_loop n trust after (er_events r) polls))"

section \<open>Events and their rows\<close>

lemma parse_int64_digits: "0 \<le> n \<Longrightarrow> n < 2 ^ 63 \<Longrightarrow> parse_int64 (digits_of n) = Some n"
proof -
  assume n: "0 \<le> n" "n < 2 ^ 63"
  obtain c cs where d: "digits_of n = c # cs" by (cases "digits_of n") auto
  have "is_digit c" using digits_of_digits [OF n(1)] by (simp add: d)
  then have "c \<noteq> CHR ''-''" by (auto simp: is_digit_def)
  then show ?thesis using digits_of_digits [OF n(1)] decimal_digits_of [OF n(1)] n(2) by (simp add: parse_int64_def d)
qed

lemma set_int_jnum: "0 \<le> n \<Longrightarrow> n < 2 ^ 63 \<Longrightarrow> set_int (jnum n) x = Some n"
  by (simp add: set_int_def jnum_def parse_int64_digits)

definition envelope_keys :: "string list" where
  "envelope_keys = [''protocolVersion'', ''schemaId'', ''nodeId'', ''seq'', ''epoch'', ''type'', ''entityId'', ''entityVersion'', ''attemptId'',
     ''dialogId'', ''observedAt'', ''sourceAt'', ''completeness'', ''payload'']"

lemma fold_key: "a \<in> set envelope_keys \<Longrightarrow> b \<in> set envelope_keys \<Longrightarrow> go_fold a = go_fold b \<longleftrightarrow> a = b"
proof -
  have "distinct (map go_fold envelope_keys)" by code_simp
  then show "a \<in> set envelope_keys \<Longrightarrow> b \<in> set envelope_keys \<Longrightarrow> ?thesis" by (auto simp: distinct_map dest: inj_onD)
qed

lemma members_Cons: "a \<in> set envelope_keys \<Longrightarrow> b \<in> set envelope_keys \<Longrightarrow>
    go_members a ((b, v) # m) = (if a = b then v # go_members a m else go_members a m)"
  using fold_key [of b a] by (auto simp: go_members_def)

lemma members_omit: "a \<in> set envelope_keys \<Longrightarrow> b \<in> set envelope_keys \<Longrightarrow>
    go_members a (omit b x @ m) = (if a = b \<and> x \<noteq> [] then JStr x # go_members a m else go_members a m)"
  by (simp add: omit_def members_Cons)

lemma members_Nil: "go_members a [] = []"
  by (simp add: go_members_def)

lemma obj_field: "obj fs v \<Longrightarrow> (k, chk, b) \<in> set fs \<Longrightarrow> case jfield v k of None \<Rightarrow> b | Some x \<Rightarrow> chk x"
  by (cases v) (auto simp: obj_def object_check_def list_all_iff split: option.splits)

lemma event_numbers:
  assumes "Validate ''event'' (event_envelope s at ty ent ver att dia body)"
  shows "0 < LastEventSeq s \<and> LastEventSeq s \<le> MaximumSafeInteger \<and> 0 < Epoch s \<and> Epoch s \<le> MaximumSafeInteger \<and>
    0 \<le> ver \<and> ver \<le> MaximumSafeInteger"
proof -
  obtain c where ok: "obj (event_fields ty c) (event_envelope s at ty ent ver att dia body)"
    using assms by (auto simp: Validate_def validateEvent_def event_envelope_def split: option.splits)
  have f: "case jfield (event_envelope s at ty ent ver att dia body) k of None \<Rightarrow> b | Some x \<Rightarrow> chk x"
    if "(k, chk, b) \<in> set (event_fields ty c)" for k chk b
    using obj_field [OF ok that] .
  have "jfield (event_envelope s at ty ent ver att dia body) ''epoch'' = Some (jnum (Epoch s))"
    "jfield (event_envelope s at ty ent ver att dia body) ''entityVersion'' = Some (jnum ver)" by (simp_all add: event_envelope_def)
  then show ?thesis
    using f [of "''seq''" positiveInteger False] f [of "''epoch''" positiveInteger False] f [of "''entityVersion''" safeInteger False]
    by (simp add: event_fields_def req_def positiveInteger_jnum safeInteger_jnum)
qed

lemma read_event:
  assumes "Validate ''event'' (event_envelope s at ty ent ver att dia body)"
  shows "read_envelope (event_envelope s at ty ent ver att dia body) = Some \<lparr>ev_node = NodeID s, ev_seq = LastEventSeq s, ev_epoch = Epoch s,
    ev_type = ty, ev_entity = ent, ev_attempt = att, ev_dialog = dia, ev_payload = body\<rparr>"
proof -
  have n: "n < 2 ^ 63" if "n \<le> MaximumSafeInteger" for n using that by (simp add: MaximumSafeInteger_def)
  show ?thesis
    using event_numbers [OF assms] n [of "LastEventSeq s"] n [of "Epoch s"] n [of ver]
    by (simp add: read_envelope_def event_envelope_def go_int_def go_string_def go_raw_def members_Cons members_omit members_Nil
        envelope_keys_def set_int_jnum set_string_def ProtocolVersion_def)
qed

text \<open>
  Every event row is the row of its envelope: sequence number, attempt and dialog agree, and the
  envelope carries the node's identity and epoch.
\<close>

definition event_shape :: "durableState \<Rightarrow> event_row \<Rightarrow> bool" where
  "event_shape s x \<longleftrightarrow> (\<exists>at ty ent ver att dia body. e_json x = event_envelope (s\<lparr>LastEventSeq := e_seq x\<rparr>) at ty ent ver att dia body \<and>
     e_attempt_id x = nullText att \<and> e_dialog_id x = nullText dia)"

definition envelope_inv :: "txn \<Rightarrow> bool" where
  "envelope_inv t \<longleftrightarrow> list_all (event_shape (st t)) (events t)"

lemma event_shape_cong: "NodeID s' = NodeID s \<Longrightarrow> Epoch s' = Epoch s \<Longrightarrow> event_shape s' = event_shape s"
  by (simp add: event_shape_def event_envelope_def fun_eq_iff)

lemma event_shape_state: "state_update_ok f \<Longrightarrow> event_shape (f s) = event_shape s"
  by (intro event_shape_cong) (simp_all add: state_update_ok_def)

lemma event_shape_update: "event_update_ok g \<Longrightarrow> list_all (event_shape s) (update_rows P g rows) = list_all (event_shape s) rows"
  by (induction rows) (auto simp: update_rows_def event_update_ok_def event_shape_def)

lemma event_row_shape: "event_shape (st t) (event_row_of t ty ent ver att dia body late)"
  unfolding event_shape_def event_row_of_def Let_def
  by (intro exI [of _ "now t"] exI [of _ ty] exI [of _ ent] exI [of _ ver] exI [of _ att] exI [of _ dia] exI [of _ body]) simp

interpretation envelopes: store_frame envelope_inv
proof unfold_locales
  show "keeps envelope_inv (appendEvent ty ent ver att dia body late)" for ty ent ver att dia body late
  proof (rule keepsI)
    fix t assume "envelope_inv t"
    moreover have "event_shape (st t\<lparr>LastEventSeq := LastEventSeq (st t) + 1\<rparr>) = event_shape (st t)" by (rule event_shape_cong) simp_all
    ultimately show "wp (appendEvent ty ent ver att dia body late) (\<lambda>_. envelope_inv) t"
      by (simp add: wp_appendEvent envelope_inv_def event_row_shape Let_def)
  qed
  show "keeps envelope_inv (update_events P g)" if "event_update_ok g" for P g
    using that by (simp add: keeps_def update_events_def wp envelope_inv_def event_shape_update)
  show "keeps envelope_inv saveState"
    by (simp add: keeps_def wp saveState_def envelope_inv_def)
qed (auto simp: keeps_def wp statement_defs envelope_inv_def event_shape_state Let_def)

section \<open>A window is the next events\<close>

text \<open>What the byte limit lets through.\<close>

fun fit :: "int \<Rightarrow> json list \<Rightarrow> json list" where
  "fit bytes [] = []"
| "fit bytes (raw # rows) = (if MaximumWireBytes - 1024 < bytes + raw_size raw then [] else raw # fit (bytes + raw_size raw) rows)"

definition log_rows :: "durableState \<Rightarrow> int \<Rightarrow> event_row list \<Rightarrow> bool" where
  "log_rows s after rows \<longleftrightarrow> map e_seq rows = [after + 1..after + int (length rows)] \<and>
     list_all (\<lambda>x. event_shape s x \<and> event_ok x) rows"

lemma window_is_fit:
  "log_rows s after rows \<Longrightarrow> \<exists>w. replay_window s (after + 1) bytes (map e_json rows) = Some w \<and> map fst w = fit bytes (map e_json rows)"
proof (induction rows arbitrary: after bytes)
  case (Cons x rows)
  have q: "e_seq x = after + 1" "map e_seq rows = [after + 1 + 1..after + 1 + int (length rows)]"
    using Cons.prems upto_rec1 [of "after + 1" "after + int (length (x # rows))"] by (auto simp: log_rows_def algebra_simps)
  then have r: "log_rows s (after + 1) rows" using Cons.prems by (simp add: log_rows_def)
  obtain at ty ent ver att dia body where j: "e_json x = event_envelope (s\<lparr>LastEventSeq := e_seq x\<rparr>) at ty ent ver att dia body"
    using Cons.prems by (auto simp: log_rows_def event_shape_def)
  have v: "Validate ''event'' (e_json x)" using Cons.prems by (auto simp: log_rows_def event_ok_def)
  from read_event [OF v [unfolded j]] Cons.IH [OF r, of "bytes + raw_size (e_json x)"] v q(1) show ?case
    by (auto simp: j)
qed simp

text \<open>The log of a reachable database, as its readers see it.\<close>

lemma reachable_log:
  assumes "reachable H cfg db"
  shows "log_rows (node_state db) 0 (events db) \<and> int (length (events db)) = LastEventSeq (node_state db) \<and>
    list_all (\<lambda>x. e_node_id x = NodeID (node_state db)) (events db)"
proof -
  have l: "map e_seq (events db) = [1..LastEventSeq (node_state db)]" "0 \<le> LastEventSeq (node_state db)"
      "list_all (\<lambda>e. e_node_id e = NodeID (node_state db) \<and> event_ok e) (events db)"
    using event_log.reachable_inv [OF new_volume_stores(1) assms] by (simp_all add: db_inv_def log_inv_def)
  have "db_inv envelope_inv (new_volume node owner registry)" for node owner registry
    by (simp add: db_inv_def envelope_inv_def new_volume_def)
  from envelopes.reachable_inv [OF this assms] have "list_all (event_shape (node_state db)) (events db)"
    by (simp add: db_inv_def envelope_inv_def)
  moreover have "int (length (events db)) = LastEventSeq (node_state db)" using arg_cong [OF l(1), of length] l(2) by simp
  ultimately show ?thesis using l by (auto simp: log_rows_def list_all_iff)
qed

lemma log_rows_drop: "log_rows s after rows \<Longrightarrow> k \<le> length rows \<Longrightarrow> log_rows s (after + int k) (drop k rows)"
proof (induction k)
  case (Suc k)
  then have r: "log_rows s (after + int k) (drop k rows)" by simp
  obtain x xs where d: "drop k rows = x # xs" "xs = drop (Suc k) rows"
    using Suc.prems(2) by (metis Cons_nth_drop_Suc Suc_le_eq)
  have "map e_seq xs = [after + int k + 1 + 1..after + int k + 1 + int (length xs)]"
    using r upto_rec1 [of "after + int k + 1" "after + int k + int (length (x # xs))"] by (auto simp: log_rows_def d algebra_simps)
  then show ?case using r by (simp add: log_rows_def d algebra_simps)
qed simp

lemma log_rows_take: "log_rows s after rows \<Longrightarrow> log_rows s after (take k rows)"
proof -
  assume r: "log_rows s after rows"
  have "map e_seq (take k rows) = take k [after + 1..after + int (length rows)]" using r by (simp add: log_rows_def flip: take_map)
  also have "\<dots> = [after + 1..after + int (length (take k rows))]"
    by (rule nth_equalityI) (auto simp: nth_upto)
  finally show ?thesis using r by (auto simp: log_rows_def list_all_iff dest: in_set_takeD)
qed

lemma replay_rows_log:
  assumes "reachable H cfg db" and "0 \<le> after"
  shows "replay_rows after k db = take k (drop (nat after) (events db))"
proof -
  let ?rows = "events db"
  have l: "log_rows (node_state db) 0 ?rows" "list_all (\<lambda>x. e_node_id x = NodeID (node_state db)) ?rows"
    using reachable_log [OF assms(1)] by auto
  have q: "map e_seq ?rows = [1..int (length ?rows)]" using l(1) by (simp add: log_rows_def)
  have nth: "e_seq (?rows ! i) = int i + 1" if "i < length ?rows" for i
    using arg_cong [OF q, of "\<lambda>xs. xs ! i"] that by (simp add: nth_upto)
  have "filter (\<lambda>x. e_node_id x = NodeID (node_state db) \<and> after < e_seq x) ?rows = filter (\<lambda>x. after < e_seq x) ?rows"
    using l(2) by (intro filter_cong) (auto simp: list_all_iff)
  also have "\<dots> = filter (\<lambda>x. after < e_seq x) (take (nat after) ?rows) @ filter (\<lambda>x. after < e_seq x) (drop (nat after) ?rows)"
    by (metis append_take_drop_id filter_append)
  also have "filter (\<lambda>x. after < e_seq x) (take (nat after) ?rows) = []"
    using nth assms(2) by (auto simp: filter_empty_conv in_set_conv_nth)
  also have "filter (\<lambda>x. after < e_seq x) (drop (nat after) ?rows) = drop (nat after) ?rows"
    using nth assms(2) by (auto simp: filter_id_conv in_set_conv_nth)
  moreover have "sort_key e_seq (drop (nat after) ?rows) = drop (nat after) ?rows"
    by (rule sort_key_id_if_sorted) (simp add: drop_map [symmetric] q sorted_wrt_drop)
  ultimately show ?thesis by (simp add: replay_rows_def)
qed

lemma deleted_candidates: "length candidates \<le> 100 \<Longrightarrow> deletedMessageScopes db candidates deleted \<noteq> None"
  using length_remdups_leq [of candidates] unfolding deletedMessageScopes_def by (auto simp del: length_remdups_leq)

lemma fit_length: "length (fit bytes rows) \<le> length rows"
  by (induction rows arbitrary: bytes) (auto simp: le_SucI)

lemma belongs_none: "\<not> eventBelongsToDeletedDialog v [] []"
  by (auto simp: eventBelongsToDeletedDialog_def split: option.splits)

lemma deletedMessageScopes_none: "deletedMessageScopes db candidates [] = Some gone \<Longrightarrow> gone = []"
  by (auto simp: deletedMessageScopes_def split: if_splits)

text \<open>The events a snapshot hides: those of a deleted dialog and of its messages.\<close>

definition hidden_event :: "string list \<Rightarrow> database \<Rightarrow> json \<Rightarrow> bool" where
  "hidden_event deleted db raw \<longleftrightarrow> (case read_envelope raw of None \<Rightarrow> False
     | Some v \<Rightarrow> eventBelongsToDeletedDialog v deleted
         (map message_id (filter (\<lambda>m. m_dialog_id m \<in> set deleted) (messages db))))"

lemma window_read: "replay_window s expected bytes rows = Some w \<Longrightarrow> (raw, v) \<in> set w \<Longrightarrow> raw \<in> set rows \<and> read_envelope raw = Some v"
  by (induction s expected bytes rows arbitrary: w rule: replay_window.induct) (fastforce split: if_splits option.splits)+

lemma hidden_found:
  assumes "deletedMessageScopes db candidates deleted = Some gone" and "eventBelongsToDeletedDialog v deleted gone"
    and "read_envelope raw = Some v"
  shows "hidden_event deleted db raw"
  using assms by (auto simp: deletedMessageScopes_def eventBelongsToDeletedDialog_def hidden_event_def split: if_splits)

lemma replay_cases:
  assumes "reachable H cfg db" and "TransportNodeID trust = CfgNodeID (ne_config n)" and "ri_store e"
    and "0 \<le> after" and "after \<le> LastEventSeq (node_state db)" and "1 \<le> limit" and "limit \<le> 100"
  shows "ReplayEvents n e trust deleted after limit db =
      Inr \<lparr>er_epoch = Epoch (node_state db), er_last = LastEventSeq (node_state db),
        er_events = fit 0 (map e_json (take (nat limit) (drop (nat after) (events db))))\<rparr> \<or>
    deleted \<noteq> [] \<and> (\<exists>x \<in> set (take (nat limit) (drop (nat after) (events db))). hidden_event deleted db (e_json x)) \<and>
    ReplayEvents n e trust deleted after limit db =
      Inl (read_error e 409 ''stale'' ''event history requires snapshot resynchronization'' [])"
proof -
  let ?rows = "take (nat limit) (drop (nat after) (events db))"
  have "nat after \<le> length (events db)" using reachable_log [OF assms(1)] assms(4,5) by linarith
  then have "log_rows (node_state db) after ?rows"
    using log_rows_take [OF log_rows_drop, of "node_state db" 0 "events db" "nat after" "nat limit"] reachable_log [OF assms(1)] assms(4) by simp
  from window_is_fit [OF this] obtain w where w: "replay_window (node_state db) (after + 1) 0 (map e_json ?rows) = Some w"
    "map fst w = fit 0 (map e_json ?rows)" by blast
  have "nat limit \<le> 100" using assms(7) by simp
  then have "length w \<le> 100" using arg_cong [OF w(2), of length] fit_length [of 0 "map e_json ?rows"] by simp
  then have "length (map (ev_entity \<circ> snd) (filter (\<lambda>(_, v). ev_type v = ''message.disposition_changed'') w)) \<le> 100"
    using le_trans [OF length_filter_le [of "\<lambda>(_, v). ev_type v = ''message.disposition_changed''" w]] by simp
  from deleted_candidates [OF this, of db deleted] obtain gone where
    g: "deletedMessageScopes db (map (ev_entity \<circ> snd) (filter (\<lambda>(_, v). ev_type v = ''message.disposition_changed'') w)) deleted = Some gone"
    by auto
  have "\<not> list_ex (\<lambda>(_, v). eventBelongsToDeletedDialog v deleted gone) w" if "deleted = []"
    using that deletedMessageScopes_none g belongs_none by (auto simp: list_ex_iff)
  moreover have "\<exists>x \<in> set ?rows. hidden_event deleted db (e_json x)" if "list_ex (\<lambda>(_, v). eventBelongsToDeletedDialog v deleted gone) w"
    using that window_read [OF w(1)] hidden_found [OF g] by (fastforce simp: list_ex_iff)
  moreover have "replay_rows after (nat limit) db = ?rows" by (rule replay_rows_log [OF assms(1,4)])
  ultimately show ?thesis
    using assms w g unfolding ReplayEvents_def authorizeRead_def by (auto simp: Let_def)
qed

section \<open>A stream is the log\<close>

lemma fit_prefix: "\<exists>k \<le> length rows. fit bytes rows = take k rows"
proof (induction rows arbitrary: bytes)
  case (Cons x rows)
  from Cons.IH [of "bytes + raw_size x"] obtain k where "k \<le> length rows" "fit (bytes + raw_size x) rows = take k rows" by blast
  then show ?case by (cases "MaximumWireBytes - 1024 < bytes + raw_size x") (auto intro: exI [of _ 0] exI [of _ "Suc k"])
qed simp

lemma event_sequence:
  assumes "event_shape s x" "event_ok x"
  shows "\<exists>m. e_json x = JObj m \<and> go_int ''seq'' m = Some (e_seq x)"
proof -
  obtain at ty ent ver att dia body where j: "e_json x = event_envelope (s\<lparr>LastEventSeq := e_seq x\<rparr>) at ty ent ver att dia body"
    using assms(1) by (auto simp: event_shape_def)
  have v: "Validate ''event'' (event_envelope (s\<lparr>LastEventSeq := e_seq x\<rparr>) at ty ent ver att dia body)"
    using assms(2) j by (simp add: event_ok_def)
  have "0 < e_seq x" "e_seq x < 2 ^ 63" using event_numbers [OF v] by (simp_all add: MaximumSafeInteger_def)
  then show ?thesis
    unfolding j event_envelope_def
    by (simp add: go_int_def members_Cons members_omit members_Nil envelope_keys_def set_int_jnum)
qed

lemma send_log: "log_rows s after rows \<Longrightarrow>
    send_batch after (map e_json rows) = (map (\<lambda>x. frame (e_seq x) (e_json x)) rows, after + int (length rows), True)"
proof (induction rows arbitrary: after)
  case (Cons x rows)
  have q: "e_seq x = after + 1"
    using Cons.prems upto_rec1 [of "after + 1" "after + int (length (x # rows))"] by (auto simp: log_rows_def algebra_simps)
  have r: "log_rows s (after + 1) rows" using log_rows_drop [OF Cons.prems, of 1] by simp
  obtain m where "e_json x = JObj m" "go_int ''seq'' m = Some (e_seq x)"
    using event_sequence [of s x] Cons.prems by (auto simp: log_rows_def)
  then show ?case using Cons.IH [OF r] q by simp
qed simp

definition log_frames :: "database \<Rightarrow> string list" where
  "log_frames db = map (\<lambda>x. frame (e_seq x) (e_json x)) (events db)"

text \<open>Polls that see one history: each database is reachable and follows from the one before.\<close>

fun history :: "(string \<Rightarrow> string) \<Rightarrow> Config \<Rightarrow> database \<Rightarrow> poll list \<Rightarrow> bool" where
  "history H cfg db [] = True"
| "history H cfg db (p # ps) = (node_steps H cfg db (po_db p) \<and> history H cfg (po_db p) ps)"

definition data_frames :: "string list \<Rightarrow> string list" where
  "data_frames = filter (\<lambda>f. f \<noteq> keep_alive)"

lemma frame_data: "frame sq raw \<noteq> keep_alive"
  by (simp add: frame_def keep_alive_def)

lemma data_log: "data_frames (map (\<lambda>x. frame (e_seq x) (e_json x)) rows @ fs) = map (\<lambda>x. frame (e_seq x) (e_json x)) rows @ data_frames fs"
  by (simp add: data_frames_def filter_map comp_def frame_data)

lemma grown_log:
  assumes "reachable H cfg db" "node_steps H cfg db db'"
  shows "take (length (events db)) (log_frames db') = log_frames db \<and> length (events db) \<le> length (events db')"
proof -
  have r: "reachable H cfg db'" by (rule reachable_steps [OF assms(2,1)])
  from log_grows [OF assms(2)] obtain new where j: "map e_json (events db') = map e_json (events db) @ new" by blast
  have le: "length (events db) \<le> length (events db')" using arg_cong [OF j, of length] by simp
  have sq: "map e_seq (events x) = [1..int (length (events x))]" if "reachable H cfg x" for x
    using reachable_log [OF that] by (simp add: log_rows_def)
  have "take (length (events db)) (log_frames db') = log_frames db"
  proof (rule nth_equalityI)
    show "length (take (length (events db)) (log_frames db')) = length (log_frames db)" using le by (simp add: log_frames_def)
    fix i assume "i < length (take (length (events db)) (log_frames db'))"
    then have i: "i < length (events db)" by simp
    then have "e_json (events db' ! i) = e_json (events db ! i)" using arg_cong [OF j, of "\<lambda>xs. xs ! i"] le by (simp add: nth_append)
    moreover have "e_seq (events db' ! i) = e_seq (events db ! i)"
      using arg_cong [OF sq [OF r], of "\<lambda>xs. xs ! i"] arg_cong [OF sq [OF assms(1)], of "\<lambda>xs. xs ! i"] i le by (simp add: nth_upto)
    ultimately show "take (length (events db)) (log_frames db') ! i = log_frames db ! i" using i le by (simp add: log_frames_def)
  qed
  then show ?thesis using le by simp
qed

text \<open>
  The conditions under which a poll answers with events to a client that started after sequence
  number \<open>base\<close>: it is authorised, the store is readable, and no event from there on belongs to a deleted
  dialog (which forces a resynchronization) or is too large for a response on its own.
\<close>

definition clear_poll :: "node_env \<Rightarrow> TrustContext \<Rightarrow> int \<Rightarrow> poll \<Rightarrow> bool" where
  "clear_poll n trust base p \<longleftrightarrow> TransportNodeID trust = CfgNodeID (ne_config n) \<and> ri_store (po_io p) \<and>
     list_all (\<lambda>x. \<not> hidden_event (loadDeletedDialogs (po_db p)) (po_db p) (e_json x) \<and> raw_size (e_json x) \<le> MaximumWireBytes - 1024)
       (drop (nat base) (events (po_db p)))"

lemma poll_answer:
  assumes "reachable H cfg (po_db p)" and "0 \<le> after" and "nat after \<le> length (events (po_db p))" and "base \<le> after"
  shows "(\<not> clear_poll n trust base p \<and> (\<exists>f. ReplayEvents n (po_io p) trust (loadDeletedDialogs (po_db p)) after 100 (po_db p) = Inl f)) \<or>
    (\<exists>r k. ReplayEvents n (po_io p) trust (loadDeletedDialogs (po_db p)) after 100 (po_db p) = Inr r \<and>
      er_events r = map e_json (take k (drop (nat after) (events (po_db p)))) \<and> nat after + k \<le> length (events (po_db p)) \<and>
      (clear_poll n trust base p \<longrightarrow> k = 0 \<longrightarrow> nat after = length (events (po_db p))))"
proof (cases "TransportNodeID trust = CfgNodeID (ne_config n) \<and> ri_store (po_io p)")
  case False
  then show ?thesis by (auto simp: clear_poll_def ReplayEvents_def authorizeRead_def Let_def)
next
  case True
  let ?db = "po_db p" and ?rows = "take 100 (drop (nat after) (events (po_db p)))"
  have "after \<le> LastEventSeq (node_state ?db)" using reachable_log [OF assms(1)] assms(2,3) by linarith
  have later: "x \<in> set (drop (nat base) (events ?db))" if "x \<in> set (drop (nat after) (events ?db))" for x
    using that set_drop_subset_set_drop [of "nat base" "nat after" "events ?db"] nat_mono [OF assms(4)] by blast
  have shown: "\<not> hidden_event (loadDeletedDialogs ?db) ?db (e_json x)" if "clear_poll n trust base p" "x \<in> set ?rows" for x
    using that later [OF in_set_takeD] by (auto simp: clear_poll_def list_all_iff)
  note c = replay_cases [OF assms(1), of trust n "po_io p" after 100 "loadDeletedDialogs ?db"]
  obtain k where k: "k \<le> length ?rows" "fit 0 (map e_json ?rows) = take k (map e_json ?rows)" using fit_prefix [of "map e_json ?rows" 0] by auto
  have "take k (map e_json ?rows) = map e_json (take k (drop (nat after) (events ?db)))" using k(1) by (simp add: take_map min_absorb1)
  moreover have "nat after = length (events ?db)" if "clear_poll n trust base p" "k = 0"
  proof (rule ccontr)
    assume "nat after \<noteq> length (events ?db)"
    with assms(3) obtain x xs where x: "drop (nat after) (events ?db) = x # xs" by (cases "drop (nat after) (events ?db)") auto
    then have "x \<in> set (drop (nat base) (events ?db))" using later by simp
    then have "raw_size (e_json x) \<le> MaximumWireBytes - 1024" using that(1) by (auto simp: clear_poll_def list_all_iff)
    then show False using k(2) that(2) x by (simp add: take_Cons')
  qed
  moreover have "nat after + k \<le> length (events ?db)" using k(1) assms(3) by auto
  ultimately show ?thesis using c True assms(2) \<open>after \<le> LastEventSeq (node_state ?db)\<close> k(2) shown by force
qed

definition final_db :: "database \<Rightarrow> poll list \<Rightarrow> database" where
  "final_db db polls = (if polls = [] then db else po_db (last polls))"

lemma history_final: "history H cfg db polls \<Longrightarrow> node_steps H cfg db (final_db db polls)"
proof (induction polls arbitrary: db)
  case (Cons p ps)
  then have "node_steps H cfg db (po_db p)" "node_steps H cfg (po_db p) (final_db (po_db p) ps)" by auto
  then show ?case by (cases ps) (auto simp: final_db_def node_steps_def)
qed (simp add: final_db_def node_steps_def)

lemma loop_is_log:
  assumes "reachable H cfg db" and "history H cfg db polls" and "nat after + k \<le> length (events db)" and "0 \<le> after" and "base \<le> after"
  shows "\<exists>j. data_frames (event_loop n trust after (map e_json (take k (drop (nat after) (events db)))) polls) =
      take j (drop (nat after) (log_frames (final_db db polls))) \<and>
    (list_all (clear_poll n trust base) polls \<longrightarrow>
      (\<forall>goal. goal \<le> length (events db) \<longrightarrow> goal \<le> nat after + k + length polls \<longrightarrow> goal \<le> nat after + j))"
  using assms
proof (induction polls arbitrary: db after k)
  case Nil
  let ?rows = "take k (drop (nat after) (events db))"
  have "log_rows (node_state db) after ?rows"
    using log_rows_take [OF log_rows_drop, of "node_state db" 0 "events db" "nat after" k] reachable_log [OF Nil.prems(1)] Nil.prems(3,4) by simp
  from send_log [OF this] have "event_loop n trust after (map e_json ?rows) [] = map (\<lambda>x. frame (e_seq x) (e_json x)) ?rows"
    by (simp add: event_loop.simps)
  then show ?case using data_log [of ?rows "[]"]
    by (intro exI [of _ k]) (auto simp: log_frames_def final_db_def take_map drop_map data_frames_def)
next
  case (Cons p ps)
  let ?rows = "take k (drop (nat after) (events db))" and ?l = "after + int k" and ?fin = "final_db db (p # ps)"
  have fin: "?fin = final_db (po_db p) ps" by (simp add: final_db_def)
  have st: "node_steps H cfg db (po_db p)" "history H cfg (po_db p) ps" using Cons.prems(2) by auto
  have r: "reachable H cfg (po_db p)" by (rule reachable_steps [OF st(1) Cons.prems(1)])
  have g: "length (events db) \<le> length (events (po_db p))" using grown_log [OF Cons.prems(1) st(1)] by simp
  have len: "length ?rows = k" "nat ?l = nat after + k" using Cons.prems(3,4) by auto
  have "log_rows (node_state db) after ?rows"
    using log_rows_take [OF log_rows_drop, of "node_state db" 0 "events db" "nat after" k] reachable_log [OF Cons.prems(1)] Cons.prems(3,4) by simp
  from send_log [OF this] have sb: "send_batch after (map e_json ?rows) = (map (\<lambda>x. frame (e_seq x) (e_json x)) ?rows, ?l, True)"
    using len by simp
  have pre: "map (\<lambda>x. frame (e_seq x) (e_json x)) ?rows = take k (drop (nat after) (log_frames ?fin))"
  proof -
    have "log_frames db = take (length (events db)) (log_frames ?fin)" using grown_log [OF Cons.prems(1) history_final [OF Cons.prems(2)]] by simp
    then have "take k (drop (nat after) (log_frames db)) = take k (drop (nat after) (take (length (events db)) (log_frames ?fin)))" by simp
    also have "\<dots> = take k (drop (nat after) (log_frames ?fin))" using Cons.prems(3) by (simp add: drop_take min_def)
    finally show ?thesis by (simp add: log_frames_def take_map drop_map)
  qed
  have hb: "data_frames ((if po_heartbeat p then [keep_alive] else []) @ fs) = data_frames fs" for fs by (simp add: data_frames_def)
  have lo: "nat ?l \<le> length (events (po_db p))" "0 \<le> ?l" "base \<le> ?l" using Cons.prems(3,4,5) g len(2) by simp_all
  from poll_answer [OF r lo(2,1,3), of n trust] show ?case
  proof (elim disjE conjE exE)
    fix f assume "\<not> clear_poll n trust base p" and a: "ReplayEvents n (po_io p) trust (loadDeletedDialogs (po_db p)) ?l 100 (po_db p) = Inl f"
    then have "data_frames (event_loop n trust after (map e_json ?rows) (p # ps)) = map (\<lambda>x. frame (e_seq x) (e_json x)) ?rows"
      using data_log [of ?rows "if po_heartbeat p then [keep_alive] else []"] hb [of "[]"]
      by (subst event_loop.simps) (simp add: sb data_frames_def)
    then show ?thesis using pre \<open>\<not> clear_poll n trust base p\<close> by auto
  next
    fix ra k' assume a: "ReplayEvents n (po_io p) trust (loadDeletedDialogs (po_db p)) ?l 100 (po_db p) = Inr ra"
      and b: "er_events ra = map e_json (take k' (drop (nat ?l) (events (po_db p))))" "nat ?l + k' \<le> length (events (po_db p))"
      and z: "clear_poll n trust base p \<longrightarrow> k' = 0 \<longrightarrow> nat ?l = length (events (po_db p))"
    from Cons.IH [OF r st(2) b(2) lo(2,3)] obtain j where
      j: "data_frames (event_loop n trust ?l (er_events ra) ps) = take j (drop (nat ?l) (log_frames ?fin))"
      "list_all (clear_poll n trust base) ps \<longrightarrow> (\<forall>goal. goal \<le> length (events (po_db p)) \<longrightarrow> goal \<le> nat ?l + k' + length ps \<longrightarrow> goal \<le> nat ?l + j)"
      unfolding b(1) fin by auto
    have "data_frames (event_loop n trust after (map e_json ?rows) (p # ps)) =
        take k (drop (nat after) (log_frames ?fin)) @ take j (drop k (drop (nat after) (log_frames ?fin)))"
      using data_log [of ?rows] hb j(1) a sb pre len(2) by (subst event_loop.simps) (simp add: add.commute)
    also have "\<dots> = take (k + j) (drop (nat after) (log_frames ?fin))" by (simp only: take_add)
    finally have e: "data_frames (event_loop n trust after (map e_json ?rows) (p # ps)) = take (k + j) (drop (nat after) (log_frames ?fin))" .
    have "goal \<le> nat after + (k + j)" if "list_all (clear_poll n trust base) (p # ps)" "goal \<le> length (events db)" "goal \<le> nat after + k + length (p # ps)" for goal
    proof (cases "k' = 0")
      case True
      then show ?thesis using that z g len(2) by auto
    next
      case False
      then have "goal \<le> nat ?l + k' + length ps" "goal \<le> length (events (po_db p))" using that g len(2) by auto
      then show ?thesis using j(2) that(1) len(2) by auto
    qed
    then show ?thesis using e by blast
  qed
qed

section \<open>Properties\<close>

text \<open>
  C19: replay is exact. In every reachable database a request for the events after a sequence number
  within the log is answered with exactly the next events, in order and unchanged, as many as the
  limit and the byte budget allow; it never reports a gap. The one other answer is the demand to
  resynchronise, and only once some dialog has been deleted.
\<close>

theorem replay_window_exact:
  assumes "reachable H cfg db" and "TransportNodeID trust = CfgNodeID (ne_config n)" and "ri_store e"
    and "0 \<le> after" and "after \<le> LastEventSeq (node_state db)" and "1 \<le> limit" and "limit \<le> 100"
  shows "ReplayEvents n e trust (loadDeletedDialogs db) after limit db =
      Inr \<lparr>er_epoch = Epoch (node_state db), er_last = LastEventSeq (node_state db),
        er_events = fit 0 (map e_json (take (nat limit) (drop (nat after) (events db))))\<rparr> \<or>
    loadDeletedDialogs db \<noteq> [] \<and> ReplayEvents n e trust (loadDeletedDialogs db) after limit db =
      Inl (read_error e 409 ''stale'' ''event history requires snapshot resynchronization'' [])"
  using replay_cases [OF assms] by auto

text \<open>
  C17: the event stream is the log. Whatever happens to the node between the polls of one
  connection, the data frames a client receives are the events after its cursor, each once, in
  order, without a gap, as the log has them at the end.
\<close>

theorem event_stream_gapless:
  assumes "reachable H cfg (po_db first)" and "history H cfg (po_db first) polls" and "0 \<le> after"
    and "event_stream n trust after first polls = Inr frames"
  shows "\<exists>j. data_frames frames = take j (drop (nat after) (log_frames (final_db (po_db first) polls)))"
proof -
  obtain r where r: "ReplayEvents n (po_io first) trust (loadDeletedDialogs (po_db first)) after 100 (po_db first) = Inr r"
    "frames = event_loop n trust after (er_events r) polls" using assms(4) by (auto simp: event_stream_def split: sum.splits)
  have "after \<le> LastEventSeq (node_state (po_db first))" using r(1) by (auto simp: ReplayEvents_def Let_def split: option.splits if_splits)
  then have "nat after \<le> length (events (po_db first))" using reachable_log [OF assms(1)] by linarith
  from poll_answer [OF assms(1,3) this order_refl, of n trust] r obtain k where
    k: "er_events r = map e_json (take k (drop (nat after) (events (po_db first))))" "nat after + k \<le> length (events (po_db first))" by auto
  from loop_is_log [OF assms(1,2) k(2) assms(3) order_refl, of n trust] r(2) k(1) show ?thesis by auto
qed

text \<open>
  C18: the event stream delivers. Let every poll of a connection be authorised and find the store
  readable, and let no event after the cursor the client connected with belong to a dialog that is
  deleted by then or be too large for one response. Dialogs deleted before, with all their events
  at or below the cursor, do not matter. Then the client has every event that was in the log when it
  connected after at most one poll per missing event, each once and in order.
\<close>

theorem event_stream_delivers:
  assumes "reachable H cfg (po_db first)" and "history H cfg (po_db first) polls" and "0 \<le> after"
    and "after \<le> LastEventSeq (node_state (po_db first))" and "list_all (clear_poll n trust after) (first # polls)"
    and "LastEventSeq (node_state (po_db first)) \<le> after + int (length polls)"
  shows "\<exists>frames j. event_stream n trust after first polls = Inr frames \<and>
    data_frames frames = take j (drop (nat after) (log_frames (final_db (po_db first) polls))) \<and>
    LastEventSeq (node_state (po_db first)) \<le> after + int j"
proof -
  have l: "nat after \<le> length (events (po_db first))" "int (length (events (po_db first))) = LastEventSeq (node_state (po_db first))"
    using reachable_log [OF assms(1)] assms(4) by linarith+
  from poll_answer [OF assms(1,3) l(1) order_refl, of n trust] assms(5) obtain r k where
    r: "ReplayEvents n (po_io first) trust (loadDeletedDialogs (po_db first)) after 100 (po_db first) = Inr r"
    "er_events r = map e_json (take k (drop (nat after) (events (po_db first))))" "nat after + k \<le> length (events (po_db first))" by auto
  from loop_is_log [OF assms(1,2) r(3) assms(3) order_refl, of n trust] obtain j where
    j: "data_frames (event_loop n trust after (er_events r) polls) = take j (drop (nat after) (log_frames (final_db (po_db first) polls)))"
    "length (events (po_db first)) \<le> nat after + k + length polls \<longrightarrow> length (events (po_db first)) \<le> nat after + j"
    using assms(5) r(2) by auto
  have "LastEventSeq (node_state (po_db first)) \<le> after + int j" using j(2) l assms(3,6) by linarith
  then show ?thesis using r(1) j(1) by (auto simp: event_stream_def)
qed

definition sample_poll :: poll where
  "sample_poll = \<lparr>po_heartbeat = True, po_io = sample_read, po_db = snd sample_created\<rparr>"

definition sample_log_size :: nat where
  "sample_log_size = length (events (snd sample_created))"

definition sample_clear :: "database \<Rightarrow> bool" where
  "sample_clear db \<longleftrightarrow> loadDeletedDialogs db = [] \<and> length (events db) \<le> 3 \<and>
     list_all (\<lambda>x. \<not> hidden_event [] db (e_json x) \<and> raw_size (e_json x) \<le> MaximumWireBytes - 1024) (events db)"

lemma sample_created_clear: "sample_clear (snd sample_created)"
  by code_simp

lemma sample_nothing_deleted: "loadDeletedDialogs (snd sample_created) = []"
  using sample_created_clear by (simp add: sample_clear_def)

lemma sample_poll_clear: "clear_poll sample_env sample_trust 0 sample_poll \<and> sample_log_size \<le> 3"
  using sample_created_clear by (simp add: sample_clear_def clear_poll_def sample_log_size_def sample_poll_def
    sample_read_def sample_env_def sample_trust_def sample_config_def)

lemma sample_history: "history sample_hash sample_config (snd sample_created) (replicate k sample_poll)"
  by (induction k) (simp_all add: sample_poll_def node_steps_def)

lemma sample_log_end: "LastEventSeq (node_state (snd sample_created)) = int sample_log_size"
  using reachable_log [OF sample_created_reachable] by (simp add: sample_log_size_def)

theorem replay_window_exact_witness:
  "ReplayEvents sample_env sample_read sample_trust (loadDeletedDialogs (snd sample_created)) 0 100 (snd sample_created) =
     Inr \<lparr>er_epoch = Epoch (node_state (snd sample_created)), er_last = LastEventSeq (node_state (snd sample_created)),
       er_events = fit 0 (map e_json (take 100 (events (snd sample_created))))\<rparr>"
  using replay_window_exact [OF sample_created_reachable, of sample_trust sample_env sample_read 0 100] sample_poll_clear
  by (simp add: sample_log_end clear_poll_def sample_poll_def sample_read_def sample_nothing_deleted)

theorem event_stream_delivers_witness:
  "\<exists>frames j. event_stream sample_env sample_trust 0 sample_poll (replicate 3 sample_poll) = Inr frames \<and>
     data_frames frames = take j (log_frames (final_db (snd sample_created) (replicate 3 sample_poll))) \<and> int sample_log_size \<le> int j"
  using event_stream_delivers [of sample_hash sample_config sample_poll "replicate 3 sample_poll" 0 sample_env sample_trust]
    sample_poll_clear sample_history [of 3] sample_created_reachable sample_log_end
  by (auto simp: sample_poll_def list_all_iff)

theorem event_stream_gapless_witness:
  "\<exists>frames j. event_stream sample_env sample_trust 0 sample_poll [sample_poll] = Inr frames \<and>
     data_frames frames = take j (log_frames (snd sample_created))"
proof -
  have "\<exists>r. ReplayEvents sample_env sample_read sample_trust (loadDeletedDialogs (snd sample_created)) 0 100 (snd sample_created) = Inr r"
    using replay_cases [OF sample_created_reachable, of sample_trust sample_env sample_read 0 100 "loadDeletedDialogs (snd sample_created)"]
      sample_poll_clear by (auto simp: sample_log_end clear_poll_def sample_poll_def sample_read_def sample_nothing_deleted)
  then obtain frames where f: "event_stream sample_env sample_trust 0 sample_poll [sample_poll] = Inr frames"
    by (auto simp: event_stream_def sample_poll_def)
  from event_stream_gapless [of sample_hash sample_config sample_poll "[sample_poll]" 0, OF _ _ _ f] show ?thesis
    using f sample_created_reachable sample_history [of 1] by (auto simp: sample_poll_def final_db_def)
qed

end
