(* ===== verification/Cursor.thy ===== *)
theory Cursor
  imports Replay
begin

text \<open>
  Page cursors: \<open>base64.RawURLEncoding\<close> of a small JSON object. The decoder skips carriage returns
  and newlines, accepts the two alphabets' common letters with \<open>-\<close> and \<open>_\<close>, wants no padding, and
  ignores the unused bits of the last character, as Go's does. The laws are the round trips: what
  \<open>encodeCursor\<close> writes \<open>decodeCursor\<close> reads, for the same scope and the same snapshot only.
\<close>

section \<open>Base64\<close>

definition b64_char :: "int \<Rightarrow> char" where
  "b64_char n = (if n < 26 then char_of (65 + n) else if n < 52 then char_of (71 + n) else if n < 62 then char_of (n - 4)
     else if n = 62 then CHR ''-'' else CHR ''_'')"

definition b64_value :: "char \<Rightarrow> int option" where
  "b64_value c = (let n = byte c in
     if 65 \<le> n \<and> n \<le> 90 then Some (n - 65) else if 97 \<le> n \<and> n \<le> 122 then Some (n - 71)
     else if 48 \<le> n \<and> n \<le> 57 then Some (n + 4) else if n = 45 then Some 62 else if n = 95 then Some 63 else None)"

fun base64_encode :: "string \<Rightarrow> string" where
  "base64_encode [] = []"
| "base64_encode [a] = [b64_char (byte a div 4), b64_char (byte a mod 4 * 16)]"
| "base64_encode [a, b] = [b64_char (byte a div 4), b64_char (byte a mod 4 * 16 + byte b div 16), b64_char (byte b mod 16 * 4)]"
| "base64_encode (a # b # c # r) =
     b64_char (byte a div 4) # b64_char (byte a mod 4 * 16 + byte b div 16) # b64_char (byte b mod 16 * 4 + byte c div 64) #
     b64_char (byte c mod 64) # base64_encode r"

fun base64_groups :: "int option list \<Rightarrow> string option" where
  "base64_groups [] = Some []"
| "base64_groups [Some w, Some x] = Some [char_of (w * 4 + x div 16)]"
| "base64_groups [Some w, Some x, Some y] = Some [char_of (w * 4 + x div 16), char_of (x mod 16 * 16 + y div 4)]"
| "base64_groups (Some w # Some x # Some y # Some z # r) = map_option (\<lambda>t. char_of (w * 4 + x div 16) # char_of (x mod 16 * 16 + y div 4) #
     char_of (y mod 4 * 64 + z) # t) (base64_groups r)"
| "base64_groups _ = None"

definition base64_decode :: "string \<Rightarrow> string option" where
  "base64_decode s = base64_groups (map b64_value (filter (\<lambda>c. c \<notin> {CHR 0x0A, CHR 0x0D}) s))"

section \<open>Cursors\<close>

record pageCursor =
  cu_epoch :: int
  cu_state :: int
  cu_offset :: int
  cu_scope :: string

record latestHistoryCursor =
  lc_epoch :: int
  lc_before :: int
  lc_scope :: string

definition json_pageCursor :: "pageCursor \<Rightarrow> json" where
  "json_pageCursor c = JObj [(''e'', jnum (cu_epoch c)), (''s'', jnum (cu_state c)), (''o'', jnum (cu_offset c)), (''p'', JStr (cu_scope c))]"

definition encodeCursor :: "pageCursor \<Rightarrow> string" where
  "encodeCursor c = base64_encode (go_marshal (json_pageCursor c))"

text \<open>\<open>json.Unmarshal\<close> of the decoded bytes into a cursor.\<close>

definition read_pageCursor :: "string \<Rightarrow> pageCursor option" where
  "read_pageCursor s = (case parse_json s of
      Some (JObj m) \<Rightarrow> (case (go_int ''e'' m, go_int ''s'' m, go_int ''o'' m, go_string ''p'' m) of
         (Some e, Some v, Some off, Some p) \<Rightarrow> Some \<lparr>cu_epoch = e, cu_state = v, cu_offset = off, cu_scope = p\<rparr> | _ \<Rightarrow> None)
    | Some JNull \<Rightarrow> Some \<lparr>cu_epoch = 0, cu_state = 0, cu_offset = 0, cu_scope = []\<rparr>
    | _ \<Rightarrow> None)"

definition decodeCursor :: "string \<Rightarrow> string \<Rightarrow> durableState \<Rightarrow> tx_error + int" where
  "decodeCursor raw scope s = (let invalid = Inl (CommandFailure 400 ''invalid'' ''cursor is invalid'' None []) in
     if raw = [] then Inr 0
     else case base64_decode raw of None \<Rightarrow> invalid
     | Some decoded \<Rightarrow> if MaximumCursorBytes < int (length decoded) then invalid
         else case read_pageCursor decoded of None \<Rightarrow> invalid
         | Some c \<Rightarrow> if cu_offset c < 0 \<or> cu_scope c \<noteq> scope then invalid
             else if cu_epoch c \<noteq> Epoch s \<or> cu_state c \<noteq> StateVersion s
             then Inl (CommandFailure 409 ''stale'' ''cursor snapshot is stale'' None []) else Inr (cu_offset c))"

definition json_latestHistoryCursor :: "latestHistoryCursor \<Rightarrow> json" where
  "json_latestHistoryCursor c = JObj [(''e'', jnum (lc_epoch c)), (''b'', jnum (lc_before c)), (''p'', JStr (lc_scope c))]"

definition encodeLatestHistoryCursor :: "latestHistoryCursor \<Rightarrow> string" where
  "encodeLatestHistoryCursor c = base64_encode (go_marshal (json_latestHistoryCursor c))"

definition read_latestHistoryCursor :: "string \<Rightarrow> latestHistoryCursor option" where
  "read_latestHistoryCursor s = (case parse_json s of
      Some (JObj m) \<Rightarrow> (case (go_int ''e'' m, go_int ''b'' m, go_string ''p'' m) of
         (Some e, Some b, Some p) \<Rightarrow> Some \<lparr>lc_epoch = e, lc_before = b, lc_scope = p\<rparr> | _ \<Rightarrow> None)
    | Some JNull \<Rightarrow> Some \<lparr>lc_epoch = 0, lc_before = 0, lc_scope = []\<rparr>
    | _ \<Rightarrow> None)"

definition decodeLatestHistoryCursor :: "string \<Rightarrow> string \<Rightarrow> int \<Rightarrow> tx_error + int" where
  "decodeLatestHistoryCursor raw scope epoch = (let invalid = Inl (CommandFailure 400 ''invalid'' ''history cursor is invalid'' None []);
       stale = Inl (CommandFailure 409 ''stale'' ''history cursor is invalid or stale'' None []) in
     if raw = [] then Inr (MaximumSafeInteger + 1)
     else case base64_decode raw of None \<Rightarrow> invalid
     | Some decoded \<Rightarrow> if MaximumCursorBytes < int (length decoded) then invalid
         else case read_latestHistoryCursor decoded of None \<Rightarrow> stale
         | Some c \<Rightarrow> if lc_epoch c \<noteq> epoch \<or> lc_scope c \<noteq> scope \<or> lc_before c < 1 \<or> MaximumSafeInteger < lc_before c then stale
             else Inr (lc_before c))"

section \<open>Round trips\<close>

lemma b64_char_value: "0 \<le> n \<Longrightarrow> n < 64 \<Longrightarrow> b64_value (b64_char n) = Some n"
  by (auto simp: b64_value_def b64_char_def byte_def Let_def)

lemma b64_char_kept: "0 \<le> n \<Longrightarrow> n < 64 \<Longrightarrow> b64_char n \<notin> {CHR 0x0A, CHR 0x0D}"
  using b64_char_value [of n] by (auto simp: b64_value_def byte_def Let_def)

lemma byte_less: "byte c < 256"
proof -
  have "(of_char c :: nat) < 256" by (rule nat_of_char_less_256)
  then have "int (of_char c) < int 256" by (simp only: of_nat_less_iff)
  moreover have "int (of_char c) = of_char c" by (rule of_nat_of_char)
  ultimately show ?thesis unfolding byte_def by simp
qed

lemma char_of_byte: "char_of (byte c) = c"
  by (simp add: byte_def)

lemma packed: "0 \<le> y \<Longrightarrow> y < 16 \<Longrightarrow> (x * 16 + y) div 16 = (x :: int) \<and> (x * 16 + y) mod 16 = y"
  "0 \<le> z \<Longrightarrow> z < 4 \<Longrightarrow> (x * 4 + z) div 4 = (x :: int) \<and> (x * 4 + z) mod 4 = z"
  by (simp_all add: div_add1_eq)

lemma parts: "0 \<le> byte b div 16" "byte b div 16 < 16" "0 \<le> byte b div 64" "byte b div 64 < 4"
  using byte_nonneg [of b] byte_less [of b] by simp_all

lemma parts_low: "byte a div 4 < 64" "0 \<le> byte a div 4"
  using byte_less [of a] byte_nonneg [of a] by simp_all

lemma sextet_bounds:
  "0 \<le> x \<Longrightarrow> x < 4 \<Longrightarrow> 0 \<le> y \<Longrightarrow> y < 16 \<Longrightarrow> x * 16 + y < (64 :: int) \<and> 0 \<le> x * 16 + y"
  "0 \<le> v \<Longrightarrow> v < 16 \<Longrightarrow> 0 \<le> z \<Longrightarrow> z < 4 \<Longrightarrow> v * 4 + z < (64 :: int) \<and> 0 \<le> v * 4 + z"
  by simp_all

lemma sextets:
  "byte a div 4 < 64" "byte a mod 4 * 16 < 64" "byte a mod 4 * 16 + byte b div 16 < 64" "byte b mod 16 * 4 < 64"
  "byte b mod 16 * 4 + byte c div 64 < 64" "byte c mod 64 < 64"
  "0 \<le> byte a div 4" "0 \<le> byte a mod 4 * 16" "0 \<le> byte a mod 4 * 16 + byte b div 16" "0 \<le> byte b mod 16 * 4"
  "0 \<le> byte b mod 16 * 4 + byte c div 64" "0 \<le> byte c mod 64"
  using sextet_bounds(1) [of "byte a mod 4" "byte b div 16"] sextet_bounds(1) [of "byte a mod 4" 0]
    sextet_bounds(2) [of "byte b mod 16" "byte c div 64"] sextet_bounds(2) [of "byte b mod 16" 0]
    parts(1,2) [of b] parts(3,4) [of c]
  by (simp_all add: byte_nonneg parts_low)

lemma regroup:
  "byte a div 4 * 4 + byte a mod 4 * 16 div 16 = byte a"
  "byte a div 4 * 4 + (byte a mod 4 * 16 + byte b div 16) div 16 = byte a"
  "(byte a mod 4 * 16 + byte b div 16) mod 16 * 16 + byte b mod 16 * 4 div 4 = byte b"
  "(byte a mod 4 * 16 + byte b div 16) mod 16 * 16 + (byte b mod 16 * 4 + byte c div 64) div 4 = byte b"
  "(byte b mod 16 * 4 + byte c div 64) mod 4 * 64 + byte c mod 64 = byte c"
  using packed(1) [of "byte b div 16" "byte a mod 4"] packed(2) [of "byte c div 64" "byte b mod 16"]
  by (simp_all add: parts)

lemma base64_roundtrip: "base64_decode (base64_encode s) = Some s"
proof -
  have k: "filter (\<lambda>c. c \<notin> {CHR 0x0A, CHR 0x0D}) (base64_encode s) = base64_encode s"
    by (induction s rule: base64_encode.induct) (simp_all only: base64_encode.simps filter.simps b64_char_kept sextets if_True simp_thms)
  have "base64_groups (map b64_value (base64_encode s)) = Some s"
    by (induction s rule: base64_encode.induct)
      (simp_all only: base64_encode.simps list.map b64_char_value sextets base64_groups.simps regroup char_of_byte option.map)
  then show ?thesis by (simp only: base64_decode_def k)
qed

lemma base64_nonempty: "base64_encode s = [] \<longleftrightarrow> s = []"
  by (cases s rule: base64_encode.cases) auto

lemma number_text_digits: "0 \<le> n \<Longrightarrow> number_text (digits_of n)"
proof -
  assume n: "0 \<le> n"
  obtain c r where s: "digits_of n = c # r" using digits_of_nonempty [of n] by (cases "digits_of n") auto
  have d: "list_all is_digit (c # r)" using digits_of_digits [OF n] by (simp only: s)
  then have t: "takeWhile is_digit r = r" "dropWhile is_digit r = []"
    by (simp_all add: takeWhile_eq_all_conv dropWhile_eq_Nil_conv list_all_iff)
  have z: "r = []" if "c = CHR ''0''"
    using integerPattern_digits_of [OF n] that s by (auto simp: integerPattern_def is_digit_def)
  have m: "c \<noteq> CHR ''-''" using d by (auto simp: is_digit_def)
  then show ?thesis using z d unfolding s number_text_def number_def
    by (auto simp: t number_sign_def number_whole_def digits_def number_fraction_def number_exponent_def prefix_result_def Let_def)
qed

lemma jnum_text: "0 \<le> n \<Longrightarrow> json_text d (jnum n)"
  by (simp add: jnum_def number_text_digits)

lemma go_fold_letter: "is_lower c \<Longrightarrow> go_fold [c] = [char_of ((of_char c :: int) - 32)]"
  by (auto simp: ascii_upper_def is_lower_def)

lemma letters_text: "utf8_valid ''e''" "utf8_valid ''s''" "utf8_valid ''o''" "utf8_valid ''p''" "utf8_valid ''b''"
  by (simp_all add: byte_def)

lemma pageCursor_read:
  assumes "0 \<le> cu_epoch c" "cu_epoch c < 2 ^ 63" "0 \<le> cu_state c" "cu_state c < 2 ^ 63" "0 \<le> cu_offset c" "cu_offset c < 2 ^ 63"
    "utf8_valid (cu_scope c)"
  shows "read_pageCursor (go_marshal (json_pageCursor c)) = Some c"
proof -
  have "json_text max_nesting (json_pageCursor c)"
    using assms by (simp add: json_pageCursor_def max_nesting_def jnum_text letters_text)
  then have "parse_json (go_marshal (json_pageCursor c)) = Some (json_pageCursor c)"
    by (simp add: go_marshal_print go_string.parse_print)
  then show ?thesis using assms
    by (simp add: read_pageCursor_def json_pageCursor_def go_int_def go_string_def go_members_def ascii_upper_def is_lower_def set_int_jnum set_string_def)
qed

lemma latestHistoryCursor_read:
  assumes "0 \<le> lc_epoch c" "lc_epoch c < 2 ^ 63" "0 \<le> lc_before c" "lc_before c < 2 ^ 63" "utf8_valid (lc_scope c)"
  shows "read_latestHistoryCursor (go_marshal (json_latestHistoryCursor c)) = Some c"
proof -
  have "json_text max_nesting (json_latestHistoryCursor c)"
    using assms by (simp add: json_latestHistoryCursor_def max_nesting_def jnum_text letters_text)
  then have "parse_json (go_marshal (json_latestHistoryCursor c)) = Some (json_latestHistoryCursor c)"
    by (simp add: go_marshal_print go_string.parse_print)
  then show ?thesis using assms
    by (simp add: read_latestHistoryCursor_def json_latestHistoryCursor_def go_int_def go_string_def go_members_def ascii_upper_def is_lower_def set_int_jnum set_string_def)
qed

lemma marshal_nonempty: "go_marshal (JObj m) \<noteq> []"
  by (simp add: go_marshal_print)

lemma encodeCursor_nonempty: "encodeCursor c \<noteq> []"
  by (simp add: encodeCursor_def base64_nonempty json_pageCursor_def marshal_nonempty del: go_marshal.simps)

lemma encodeLatestHistoryCursor_nonempty: "encodeLatestHistoryCursor c \<noteq> []"
  by (simp add: encodeLatestHistoryCursor_def base64_nonempty json_latestHistoryCursor_def marshal_nonempty del: go_marshal.simps)

definition cursor_ok :: "pageCursor \<Rightarrow> bool" where
  "cursor_ok c \<longleftrightarrow> 0 \<le> cu_epoch c \<and> cu_epoch c < 2 ^ 63 \<and> 0 \<le> cu_state c \<and> cu_state c < 2 ^ 63 \<and> 0 \<le> cu_offset c \<and> cu_offset c < 2 ^ 63 \<and>
     utf8_valid (cu_scope c) \<and> int (length (go_marshal (json_pageCursor c))) \<le> MaximumCursorBytes"

lemma cursor_decoded: "cursor_ok c \<Longrightarrow> decodeCursor (encodeCursor c) scope s =
    (if cu_scope c \<noteq> scope then Inl (CommandFailure 400 ''invalid'' ''cursor is invalid'' None [])
     else if cu_epoch c \<noteq> Epoch s \<or> cu_state c \<noteq> StateVersion s then Inl (CommandFailure 409 ''stale'' ''cursor snapshot is stale'' None [])
     else Inr (cu_offset c))"
  using encodeCursor_nonempty [of c] pageCursor_read [of c]
  by (simp add: decodeCursor_def cursor_ok_def Let_def) (simp add: encodeCursor_def base64_roundtrip)

text \<open>
  C22: Page cursors round trip. What \<open>encodeCursor\<close> writes, \<open>decodeCursor\<close> reads back for the same
  query scope and the same snapshot: it yields the offset. For another scope the cursor is refused as
  invalid, and when the epoch or the state version has moved on it is refused as stale; nothing else
  can happen. The text of a cursor is never empty, so it is never mistaken for a first page.
\<close>

theorem page_cursor_roundtrip:
  assumes "0 \<le> cu_epoch c" "cu_epoch c < 2 ^ 63" "0 \<le> cu_state c" "cu_state c < 2 ^ 63" "0 \<le> cu_offset c" "cu_offset c < 2 ^ 63"
    and "utf8_valid (cu_scope c)" and "int (length (go_marshal (json_pageCursor c))) \<le> MaximumCursorBytes"
  shows "encodeCursor c \<noteq> [] \<and> decodeCursor (encodeCursor c) scope s =
    (if cu_scope c \<noteq> scope then Inl (CommandFailure 400 ''invalid'' ''cursor is invalid'' None [])
     else if cu_epoch c \<noteq> Epoch s \<or> cu_state c \<noteq> StateVersion s then Inl (CommandFailure 409 ''stale'' ''cursor snapshot is stale'' None [])
     else Inr (cu_offset c))"
  using assms cursor_decoded [of c scope s] encodeCursor_nonempty [of c] by (simp add: cursor_ok_def del: go_marshal.simps)

definition sample_cursor :: pageCursor where
  "sample_cursor = \<lparr>cu_epoch = 1, cu_state = 7, cu_offset = 100, cu_scope = ''dialogs''\<rparr>"

definition sample_cursor_ok :: bool where
  "sample_cursor_ok \<longleftrightarrow> utf8_valid ''dialogs'' \<and> int (length (go_marshal (json_pageCursor sample_cursor))) \<le> MaximumCursorBytes"

lemma sample_cursor_fact: "sample_cursor_ok"
  by code_simp

theorem page_cursor_roundtrip_witness:
  "encodeCursor sample_cursor \<noteq> [] \<and>
   decodeCursor (encodeCursor sample_cursor) ''dialogs'' ((new_volume_state sample_node ''owner'' 1)\<lparr>Epoch := 1, StateVersion := 7\<rparr>) = Inr 100"
  using page_cursor_roundtrip [of sample_cursor "''dialogs''"] sample_cursor_fact
  by (simp add: sample_cursor_def sample_cursor_ok_def del: go_marshal.simps)

end
