(* ===== verification/Pages.thy ===== *)
theory Pages
  imports Cursor "HOL-Library.Product_Lexorder"
begin

text \<open>
  The pages of \<open>runtime/pages.go\<close>: dialogs, history, requests, attempts and the events of an attempt.
  Every endpoint reads one committed database, orders the rows it selects, and answers a bounded
  window with the cursor of the next one. Offset cursors carry the snapshot they were made on; the
  newest-first history carries the sequence number it continues below.

  The laws are stated once in a locale for anything that is paged: following the cursors of an
  unchanged database from the first page gives the whole list, in order and without repetition. Each
  endpoint is an instance.
\<close>

section \<open>Selection\<close>

definition normalizedLimit :: "int \<Rightarrow> int \<times> bool" where
  "normalizedLimit limit = (if limit = 0 then (MaximumPageSize, True) else (limit, 0 < limit \<and> limit \<le> MaximumPageSize))"

text \<open>A dialog of this node and owner that has no tombstone.\<close>

definition visible_dialog :: "database \<Rightarrow> string \<Rightarrow> bool" where
  "visible_dialog db d = (case lookup_row dialog_id d (dialogs db) of None \<Rightarrow> False
     | Some r \<Rightarrow> d_node_id r = NodeID (node_state db) \<and> d_owner_id r = OwnerID (node_state db) \<and>
         \<not> exists_row (\<lambda>x. e_dialog_id x = Some d \<and> e_projection_key x = Some ''dialog.deleted'') (events db))"

text \<open>\<open>LIMIT limit OFFSET offset\<close>\<close>

definition sql_window :: "int \<Rightarrow> int \<Rightarrow> 'a list \<Rightarrow> 'a list" where
  "sql_window limit offset rows = take (nat limit) (drop (nat offset) rows)"

definition read_failure :: "read_io \<Rightarrow> tx_error \<Rightarrow> string \<Rightarrow> Result" where
  "read_failure e f correlation = commandError f (if correlation = [] then ri_correlation e else correlation)"

section \<open>Documents\<close>

definition json_cursor :: "string option \<Rightarrow> json" where
  "json_cursor c = (case c of None \<Rightarrow> JNull | Some s \<Rightarrow> JStr s)"

definition json_Page :: "durableState \<Rightarrow> string \<Rightarrow> (string \<times> json) list \<Rightarrow> json list \<Rightarrow> string option \<Rightarrow> (string \<times> json) list \<Rightarrow> json" where
  "json_Page s pageType scope items nxt extra = JObj (json_pins @ [(''nodeId'', JStr (NodeID s)), (''epoch'', jnum (Epoch s)),
     (''snapshotStateVersion'', jnum (StateVersion s)), (''lastEventSeq'', jnum (LastEventSeq s))] @ scope @
     [(''items'', JArr items), (''nextCursor'', json_cursor nxt), (''pageType'', JStr pageType)] @ extra)"

definition json_DialogSummary :: "dialog_row \<Rightarrow> json" where
  "json_DialogSummary d = JObj ([(''dialogId'', JStr (dialog_id d)), (''version'', jnum (d_version d))] @
     omit ''title'' (scan_null (d_title d)) @ [(''createdAt'', JStr (d_created_at d))])"

definition json_UserHistoryItem :: "string \<Rightarrow> message_row \<Rightarrow> json" where
  "json_UserHistoryItem dialogID m = JObj [(''messageId'', JStr (message_id m)), (''role'', JStr ''user''), (''dialogId'', JStr dialogID),
     (''sequence'', jnum (m_sequence m)), (''version'', jnum (m_version m)), (''createdAt'', JStr (m_created_at m)),
     (''text'', JStr (scan_null (m_text m))),
     (''disposition'', JStr (case m_disposition m of None \<Rightarrow> [] | Some d \<Rightarrow> disposition_text d)),
     (''commandId'', JStr (scan_null (m_command_id m))), (''requestId'', JStr (scan_null (m_request_id m)))]"

definition json_AssistantHistoryItem :: "string \<Rightarrow> message_row \<Rightarrow> SafeContent \<Rightarrow> json" where
  "json_AssistantHistoryItem dialogID m c = JObj [(''messageId'', JStr (message_id m)), (''role'', JStr ''assistant''), (''dialogId'', JStr dialogID),
     (''sequence'', jnum (m_sequence m)), (''version'', jnum (m_version m)), (''createdAt'', JStr (m_created_at m)),
     (''attemptId'', JStr (scan_null (m_attempt_id m))), (''content'', json_SafeContent c), (''finishReason'', JStr (scan_null (m_finish_reason m)))]"

definition json_AttemptRead :: "durableState \<Rightarrow> attempt_row \<Rightarrow> json" where
  "json_AttemptRead s a = JObj (json_pins @ [(''nodeId'', JStr (NodeID s)), (''epoch'', jnum (Epoch s)), (''stateVersion'', jnum (StateVersion s)),
     (''attempt'', json_Attempt a)])"

section \<open>Pages by offset\<close>

text \<open>One row more than the page is read to learn whether there is a next page.\<close>

definition offset_page :: "durableState \<Rightarrow> string \<Rightarrow> int \<Rightarrow> int \<Rightarrow> 'a list \<Rightarrow> 'a list \<times> string option" where
  "offset_page s scope limit offset rows = (let items = sql_window (limit + 1) offset rows in
     if limit < int (length items)
     then (take (nat limit) items,
       Some (encodeCursor \<lparr>cu_epoch = Epoch s, cu_state = StateVersion s, cu_offset = offset + limit, cu_scope = scope\<rparr>))
     else (items, None))"

definition dialog_rows :: "database \<Rightarrow> dialog_row list" where
  "dialog_rows db = sort_key (\<lambda>d. (d_created_at d, dialog_id d)) (filter (\<lambda>d. visible_dialog db (dialog_id d)) (dialogs db))"

definition Dialogs :: "node_env \<Rightarrow> read_io \<Rightarrow> TrustContext \<Rightarrow> string \<Rightarrow> int \<Rightarrow> database \<Rightarrow> Result" where
  "Dialogs n e trust cursor limit0 db = (case authorizeRead n e trust of Some denied \<Rightarrow> denied
     | None \<Rightarrow> (case normalizedLimit limit0 of (limit, valid) \<Rightarrow>
         if \<not> valid then Invalid e ''limit is invalid''
         else if \<not> ri_store e then read_error e 503 ''not_durable'' ''dialogs are unavailable'' []
         else (let s = node_state db in case decodeCursor cursor ''dialogs'' s of
             Inl f \<Rightarrow> read_failure e f []
           | Inr offset \<Rightarrow> (case offset_page s ''dialogs'' limit offset (dialog_rows db) of (items, nxt) \<Rightarrow>
               wireResult e ''dialogPage'' (json_Page s ''dialogs'' [] (map json_DialogSummary items) nxt [])))))"

definition request_filters :: "string list" where
  "request_filters = [[], ''queued'', ''cancelled'', ''dispatching'', ''active'', ''completed'', ''failed'', ''interrupted'', ''unknown'']"

definition requests_scope :: "string \<Rightarrow> string \<Rightarrow> string" where
  "requests_scope dialogID stateFilter = ''requests:'' @ dialogID @ '':'' @ stateFilter"

definition request_rows :: "database \<Rightarrow> string \<Rightarrow> string \<Rightarrow> request_row list" where
  "request_rows db dialogID stateFilter = sort_key (\<lambda>r. (r_queue_sequence r, request_id r))
     (filter (\<lambda>r. visible_dialog db (r_dialog_id r) \<and> (dialogID \<noteq> [] \<longrightarrow> r_dialog_id r = dialogID) \<and>
       (stateFilter \<noteq> [] \<longrightarrow> request_status_text (r_status r) = stateFilter)) (requests db))"

definition requests_page :: "node_env \<Rightarrow> read_io \<Rightarrow> TrustContext \<Rightarrow> string \<Rightarrow> string \<Rightarrow> string \<Rightarrow> int \<Rightarrow> database \<Rightarrow> Result" where
  "requests_page n e trust dialogID stateFilter cursor limit0 db = (case authorizeRead n e trust of Some denied \<Rightarrow> denied
     | None \<Rightarrow> (case normalizedLimit limit0 of (limit, valid) \<Rightarrow>
         if \<not> valid \<or> stateFilter \<notin> set request_filters then Invalid e ''request query is invalid''
         else if \<not> ri_store e then read_error e 503 ''not_durable'' ''requests are unavailable'' []
         else (let s = node_state db; scope = requests_scope dialogID stateFilter in case decodeCursor cursor scope s of
             Inl f \<Rightarrow> read_failure e f []
           | Inr offset \<Rightarrow> (case offset_page s scope limit offset (request_rows db dialogID stateFilter) of (items, nxt) \<Rightarrow>
               wireResult e ''requestPage'' (json_Page s ''requests'' [] (map json_Request items) nxt [])))))"

definition Requests :: "node_env \<Rightarrow> read_io \<Rightarrow> TrustContext \<Rightarrow> string \<Rightarrow> string \<Rightarrow> int \<Rightarrow> database \<Rightarrow> Result" where
  "Requests n e trust stateFilter cursor limit db = requests_page n e trust [] stateFilter cursor limit db"

definition RequestsForDialog :: "node_env \<Rightarrow> read_io \<Rightarrow> TrustContext \<Rightarrow> string \<Rightarrow> string \<Rightarrow> string \<Rightarrow> int \<Rightarrow> database \<Rightarrow> Result" where
  "RequestsForDialog n e trust dialogID stateFilter cursor limit db =
     (if \<not> uuidPattern dialogID then Invalid e ''dialog id is invalid'' else requests_page n e trust dialogID stateFilter cursor limit db)"

definition Attempt_read :: "node_env \<Rightarrow> read_io \<Rightarrow> TrustContext \<Rightarrow> string \<Rightarrow> database \<Rightarrow> Result" where
  "Attempt_read n e trust attemptID db = (case authorizeRead n e trust of Some denied \<Rightarrow> denied
     | None \<Rightarrow> if \<not> ri_store e then read_error e 503 ''not_durable'' ''attempt is unavailable'' attemptID
         else (case lookup_row attempt_id attemptID (attempts db) of
             None \<Rightarrow> read_error e 404 ''not_found'' ''attempt was not found'' attemptID
           | Some a \<Rightarrow> if \<not> visible_dialog db (a_dialog_id a) then read_error e 404 ''not_found'' ''attempt was not found'' attemptID
               else wireResult e ''attemptRead'' (json_AttemptRead (node_state db) a)))"

definition attempt_rows :: "database \<Rightarrow> string \<Rightarrow> attempt_row list" where
  "attempt_rows db requestID = sort_key a_generation (filter (\<lambda>a. a_request_id a = requestID) (attempts db))"

definition Attempts :: "node_env \<Rightarrow> read_io \<Rightarrow> TrustContext \<Rightarrow> string \<Rightarrow> string \<Rightarrow> int \<Rightarrow> database \<Rightarrow> Result" where
  "Attempts n e trust requestID cursor limit0 db = (case authorizeRead n e trust of Some denied \<Rightarrow> denied
     | None \<Rightarrow> (case normalizedLimit limit0 of (limit, valid) \<Rightarrow>
         if \<not> valid then Invalid e ''limit is invalid''
         else if \<not> ri_store e then read_error e 503 ''not_durable'' ''attempts are unavailable'' requestID
         else (let s = node_state db; scope = ''attempts:'' @ requestID; missing = read_error e 404 ''not_found'' ''request was not found'' requestID in
           case lookup_row request_id requestID (requests db) of None \<Rightarrow> missing
           | Some r \<Rightarrow> if \<not> visible_dialog db (r_dialog_id r) then missing
             else (case decodeCursor cursor scope s of
               Inl f \<Rightarrow> read_failure e f requestID
             | Inr offset \<Rightarrow> (case offset_page s scope limit offset (attempt_rows db requestID) of (items, nxt) \<Rightarrow>
                 wireResult e ''attemptPage'' (json_Page s ''attempts'' [(''dialogId'', JStr (r_dialog_id r)), (''requestId'', JStr requestID)]
                   (map json_Attempt items) nxt []))))))"

section \<open>History\<close>

text \<open>The item of a message; \<open>None\<close> when an assistant message has no readable content.\<close>

definition history_item :: "string \<Rightarrow> message_row \<Rightarrow> json option" where
  "history_item dialogID m = (case m_role m of RoleUser \<Rightarrow> Some (json_UserHistoryItem dialogID m)
     | RoleAssistant \<Rightarrow> map_option (json_AssistantHistoryItem dialogID m) (m_content m))"

text \<open>The loop over the rows: the items that fit, and whether a row was left out.\<close>

fun history_scan :: "string \<Rightarrow> nat \<Rightarrow> int \<Rightarrow> message_row list \<Rightarrow> ((int \<times> json) list \<times> bool) option" where
  "history_scan dialogID room bytes [] = Some ([], False)"
| "history_scan dialogID room bytes (m # rows) = (case history_item dialogID m of None \<Rightarrow> None
     | Some item \<Rightarrow> if room = 0 \<or> MaximumWireBytes - 4096 < bytes + raw_size item then Some ([], True)
         else map_option (\<lambda>(items, hasMore). ((m_sequence m, item) # items, hasMore))
           (history_scan dialogID (room - 1) (bytes + raw_size item) rows))"

definition message_rows :: "database \<Rightarrow> string \<Rightarrow> message_row list" where
  "message_rows db dialogID = sort_key m_sequence (filter (\<lambda>m. m_dialog_id m = dialogID) (messages db))"

definition History :: "node_env \<Rightarrow> read_io \<Rightarrow> TrustContext \<Rightarrow> string \<Rightarrow> string \<Rightarrow> int \<Rightarrow> database \<Rightarrow> Result" where
  "History n e trust dialogID cursor limit0 db = (case authorizeRead n e trust of Some denied \<Rightarrow> denied
     | None \<Rightarrow> (case normalizedLimit limit0 of (limit, valid) \<Rightarrow>
         if \<not> valid then Invalid e ''limit is invalid''
         else if \<not> ri_store e then read_error e 503 ''not_durable'' ''history is unavailable'' dialogID
         else if \<not> visible_dialog db dialogID then read_error e 404 ''not_found'' ''dialog was not found'' dialogID
         else (let s = node_state db; scope = ''history:'' @ dialogID in case decodeCursor cursor scope s of
             Inl f \<Rightarrow> read_failure e f dialogID
           | Inr offset \<Rightarrow> (case history_scan dialogID (nat limit) 0 (sql_window (limit + 1) offset (message_rows db dialogID)) of
               None \<Rightarrow> read_error e 503 ''not_durable'' ''history content is unavailable'' dialogID
             | Some (items, hasMore) \<Rightarrow>
                 wireResult e ''historyPage'' (json_Page s ''history'' [] (map snd items)
                   (if hasMore then Some (encodeCursor \<lparr>cu_epoch = Epoch s, cu_state = StateVersion s,
                      cu_offset = offset + int (length items), cu_scope = scope\<rparr>) else None)
                   [(''dialogId'', JStr dialogID)])))))"

text \<open>The newest messages below a sequence number, newest first.\<close>

definition latest_rows :: "database \<Rightarrow> string \<Rightarrow> int \<Rightarrow> message_row list" where
  "latest_rows db dialogID before = sort_key (\<lambda>m. - m_sequence m) (filter (\<lambda>m. m_dialog_id m = dialogID \<and> m_sequence m < before) (messages db))"

definition HistoryLatest :: "node_env \<Rightarrow> read_io \<Rightarrow> TrustContext \<Rightarrow> string \<Rightarrow> string \<Rightarrow> int \<Rightarrow> database \<Rightarrow> Result" where
  "HistoryLatest n e trust dialogID cursor limit0 db = (case authorizeRead n e trust of Some denied \<Rightarrow> denied
     | None \<Rightarrow> (case normalizedLimit limit0 of (limit, valid) \<Rightarrow>
         if \<not> valid then Invalid e ''limit is invalid''
         else if \<not> ri_store e then read_error e 503 ''not_durable'' ''history is unavailable'' dialogID
         else if \<not> visible_dialog db dialogID then read_error e 404 ''not_found'' ''dialog was not found'' dialogID
         else (let s = node_state db; scope = ''history-latest:'' @ dialogID in case decodeLatestHistoryCursor cursor scope (Epoch s) of
             Inl f \<Rightarrow> read_failure e f dialogID
           | Inr before \<Rightarrow> (case history_scan dialogID (nat limit) 0 (take (nat (limit + 1)) (latest_rows db dialogID before)) of
               None \<Rightarrow> read_error e 503 ''not_durable'' ''history content is unavailable'' dialogID
             | Some (items, hasMore) \<Rightarrow>
                 wireResult e ''historyPage'' (json_Page s ''history'' [] (rev (map snd items))
                   (if hasMore \<and> items \<noteq> [] then Some (encodeLatestHistoryCursor \<lparr>lc_epoch = Epoch s, lc_before = fst (last items),
                      lc_scope = scope\<rparr>) else None)
                   [(''dialogId'', JStr dialogID)])))))"

section \<open>Events of an attempt\<close>

fun event_scan :: "durableState \<Rightarrow> string \<Rightarrow> string \<Rightarrow> nat \<Rightarrow> int \<Rightarrow> json list \<Rightarrow> ((json \<times> envelope) list \<times> bool) option" where
  "event_scan s attemptID dialogID room bytes [] = Some ([], False)"
| "event_scan s attemptID dialogID room bytes (raw # rows) = (case read_envelope raw of None \<Rightarrow> None
     | Some v \<Rightarrow> if ev_attempt v \<noteq> attemptID \<or> ev_dialog v \<noteq> dialogID \<or> ev_epoch v \<noteq> Epoch s then None
         else if room = 0 \<or> MaximumWireBytes - 4096 < bytes + raw_size raw then Some ([], True)
         else map_option (\<lambda>(items, hasMore). ((raw, v) # items, hasMore))
           (event_scan s attemptID dialogID (room - 1) (bytes + raw_size raw) rows))"

definition attempt_event_rows :: "database \<Rightarrow> string \<Rightarrow> int \<Rightarrow> event_row list" where
  "attempt_event_rows db attemptID after = sort_key e_seq
     (filter (\<lambda>x. e_node_id x = NodeID (node_state db) \<and> e_attempt_id x = Some attemptID \<and> after < e_seq x) (events db))"

text \<open>
  The outer \<open>None\<close> is the run-time panic of indexing the last item of an empty page, when even the
  first row is over the byte budget.
\<close>

definition AttemptEvents :: "node_env \<Rightarrow> read_io \<Rightarrow> TrustContext \<Rightarrow> string \<Rightarrow> int \<Rightarrow> int \<Rightarrow> database \<Rightarrow> Result option" where
  "AttemptEvents n e trust attemptID after limit0 db = (case authorizeRead n e trust of Some denied \<Rightarrow> Some denied
     | None \<Rightarrow> (case normalizedLimit limit0 of (limit, valid) \<Rightarrow>
         if \<not> valid \<or> after < 0 \<or> MaximumSafeInteger < after then Some (Invalid e ''event query is invalid'')
         else if \<not> ri_store e then Some (read_error e 503 ''not_durable'' ''events are unavailable'' attemptID)
         else (let s = node_state db; missing = Some (read_error e 404 ''not_found'' ''attempt was not found'' attemptID) in
           case lookup_row attempt_id attemptID (attempts db) of None \<Rightarrow> missing
           | Some a \<Rightarrow> if \<not> visible_dialog db (a_dialog_id a) then missing
             else if LastEventSeq s < after then Some (read_error e 409 ''stale'' ''event cursor is ahead of durable history'' attemptID)
             else (case event_scan s attemptID (a_dialog_id a) (nat limit) 0
                 (map e_json (take (nat (limit + 1)) (attempt_event_rows db attemptID after))) of
               None \<Rightarrow> Some (read_error e 503 ''not_durable'' ''event scope is invalid'' attemptID)
             | Some (items, hasMore) \<Rightarrow> if hasMore \<and> items = [] then None
                 else Some (wireResult e ''eventPage'' (json_Page s ''events'' [] (map fst items)
                   (if hasMore then Some (decimal_text (ev_seq (snd (last items)))) else None)
                   [(''dialogId'', JStr (a_dialog_id a)), (''attemptId'', JStr attemptID)]))))))"

section \<open>Walking a paged list\<close>

text \<open>What a client reads from an answer, and the walk that follows the cursors for at most \<open>k\<close> pages.\<close>

definition page_of :: "Result \<Rightarrow> (json list \<times> string option) option" where
  "page_of r = (if HTTPStatus r \<noteq> 200 then None else case (jfield (Body r) ''items'', jfield (Body r) ''nextCursor'') of
      (Some (JArr xs), Some JNull) \<Rightarrow> Some (xs, None)
    | (Some (JArr xs), Some (JStr c)) \<Rightarrow> Some (xs, Some c)
    | _ \<Rightarrow> None)"

fun follow :: "(string \<Rightarrow> Result) \<Rightarrow> nat \<Rightarrow> string \<Rightarrow> json list option" where
  "follow answer 0 cursor = None"
| "follow answer (Suc k) cursor = (case page_of (answer cursor) of None \<Rightarrow> None
     | Some (xs, None) \<Rightarrow> Some xs
     | Some (xs, Some nxt) \<Rightarrow> map_option (append xs) (follow answer k nxt))"

locale paged =
  fixes ready :: "'c \<Rightarrow> bool"
    and rows :: "'c \<Rightarrow> json list"
    and step :: "'c \<Rightarrow> nat \<Rightarrow> nat"
    and cursor_at :: "'c \<Rightarrow> nat \<Rightarrow> string"
    and answer :: "'c \<Rightarrow> string \<Rightarrow> Result"
  assumes first: "cursor_at c 0 = []"
    and progress: "ready c \<Longrightarrow> k < length (rows c) \<Longrightarrow> 0 < step c k"
    and page: "ready c \<Longrightarrow> k \<le> length (rows c) \<Longrightarrow> page_of (answer c (cursor_at c k)) = Some (take (step c k) (drop k (rows c)),
      if k + step c k < length (rows c) then Some (cursor_at c (k + step c k)) else None)"
begin

lemma follow_from: "ready c \<Longrightarrow> k \<le> length (rows c) \<Longrightarrow> length (rows c) - k < n \<Longrightarrow> follow (answer c) n (cursor_at c k) = Some (drop k (rows c))"
proof (induction n arbitrary: k)
  case (Suc n)
  let ?j = "k + step c k"
  show ?case
  proof (cases "?j < length (rows c)")
    case True
    then have "follow (answer c) n (cursor_at c ?j) = Some (drop ?j (rows c))"
      using Suc progress [of c k] by (intro Suc.IH) simp_all
    moreover have "take (step c k) (drop k (rows c)) @ drop ?j (rows c) = drop k (rows c)"
      by (metis add.commute append_take_drop_id drop_drop)
    ultimately show ?thesis using True page [OF Suc.prems(1,2)] by simp
  next
    case False
    then show ?thesis using page [OF Suc.prems(1,2)] by simp
  qed
qed simp

lemma walk: "ready c \<Longrightarrow> length (rows c) < n \<Longrightarrow> follow (answer c) n [] = Some (rows c)"
  using follow_from [of c 0 n] first [of c] by simp

end

section \<open>Offset endpoints\<close>

definition offset_cursor :: "durableState \<Rightarrow> string \<Rightarrow> nat \<Rightarrow> pageCursor" where
  "offset_cursor s scope k = \<lparr>cu_epoch = Epoch s, cu_state = StateVersion s, cu_offset = int k, cu_scope = scope\<rparr>"

definition cursor_text :: "durableState \<Rightarrow> string \<Rightarrow> nat \<Rightarrow> string" where
  "cursor_text s scope k = (if k = 0 then [] else encodeCursor (offset_cursor s scope k))"

definition response_ok :: "string \<Rightarrow> json \<Rightarrow> bool" where
  "response_ok wireType v \<longleftrightarrow> int (length (go_marshal v)) \<le> MaximumWireBytes \<and> Validate wireType v"

text \<open>Every page of the list fits the wire contract, and so does its cursor.\<close>

definition pages_fit :: "string \<Rightarrow> durableState \<Rightarrow> string \<Rightarrow> int \<Rightarrow> json list \<Rightarrow> (json list \<Rightarrow> string option \<Rightarrow> json) \<Rightarrow> bool" where
  "pages_fit wireType s scope limit items document \<longleftrightarrow> list_all (\<lambda>k. cursor_ok (offset_cursor s scope k) \<and>
     response_ok wireType (case offset_page s scope limit (int k) items of (xs, nxt) \<Rightarrow> document xs nxt)) [0..<Suc (length items)]"

lemma decode_offset: "cursor_ok (offset_cursor s scope k) \<Longrightarrow> decodeCursor (cursor_text s scope k) scope s = Inr (int k)"
  using cursor_decoded [of "offset_cursor s scope k" scope s]
  by (auto simp: cursor_text_def decodeCursor_def [of "[]"] offset_cursor_def)

lemma offset_page_eq: "1 \<le> limit \<Longrightarrow> offset_page s scope limit (int k) rows =
    (take (nat limit) (drop k rows), if k + nat limit < length rows then Some (cursor_text s scope (k + nat limit)) else None)"
  by (auto simp: offset_page_def sql_window_def Let_def cursor_text_def offset_cursor_def nat_add_distrib min_def)

lemma offset_page_map: "offset_page s scope limit offset (map f rows) = map_prod (map f) id (offset_page s scope limit offset rows)"
  by (simp add: offset_page_def sql_window_def Let_def take_map drop_map)

lemma page_of_response: "response_ok ty v \<Longrightarrow> jfield v ''items'' = Some (JArr xs) \<Longrightarrow> jfield v ''nextCursor'' = Some (json_cursor nxt) \<Longrightarrow>
    page_of (wireResult e ty v) = Some (xs, nxt)"
  by (cases nxt) (simp_all add: page_of_def wireResult_def response_ok_def json_cursor_def)

locale offset_endpoint =
  fixes valid :: "'c \<Rightarrow> bool"
    and wire_type :: string
    and io_of :: "'c \<Rightarrow> read_io"
    and state_of :: "'c \<Rightarrow> durableState"
    and scope_of :: "'c \<Rightarrow> string"
    and limit_of :: "'c \<Rightarrow> int"
    and items_of :: "'c \<Rightarrow> json list"
    and document :: "'c \<Rightarrow> json list \<Rightarrow> string option \<Rightarrow> json"
    and endpoint :: "'c \<Rightarrow> string \<Rightarrow> Result"
  assumes limit_range: "valid c \<Longrightarrow> 1 \<le> limit_of c"
    and read_items: "jfield (document c xs nxt) ''items'' = Some (JArr xs)"
    and read_cursor: "jfield (document c xs nxt) ''nextCursor'' = Some (json_cursor nxt)"
    and serves: "valid c \<Longrightarrow> decodeCursor cur (scope_of c) (state_of c) = Inr off \<Longrightarrow> endpoint c cur = wireResult (io_of c) wire_type
      (case offset_page (state_of c) (scope_of c) (limit_of c) off (items_of c) of (xs, nxt) \<Rightarrow> document c xs nxt)"

sublocale offset_endpoint \<subseteq> paged
  "\<lambda>c. valid c \<and> pages_fit wire_type (state_of c) (scope_of c) (limit_of c) (items_of c) (document c)"
  items_of "\<lambda>c k. nat (limit_of c)" "\<lambda>c. cursor_text (state_of c) (scope_of c)" endpoint
proof unfold_locales
  fix c :: 'c and k
  assume r: "valid c \<and> pages_fit wire_type (state_of c) (scope_of c) (limit_of c) (items_of c) (document c)" and k: "k \<le> length (items_of c)"
  let ?p = "offset_page (state_of c) (scope_of c) (limit_of c) (int k) (items_of c)"
  have "k \<in> set [0..<Suc (length (items_of c))]" using k by (simp add: less_Suc_eq_le del: upt_Suc)
  then have ok: "cursor_ok (offset_cursor (state_of c) (scope_of c) k)" "response_ok wire_type (document c (fst ?p) (snd ?p))"
    using r by (auto simp: pages_fit_def list_all_iff case_prod_beta' simp del: upt_Suc)
  have "endpoint c (cursor_text (state_of c) (scope_of c) k) = wireResult (io_of c) wire_type (document c (fst ?p) (snd ?p))"
    using serves [OF _ decode_offset [OF ok(1)]] r by (simp add: case_prod_beta')
  then show "page_of (endpoint c (cursor_text (state_of c) (scope_of c) k)) = Some (take (nat (limit_of c)) (drop k (items_of c)),
      if k + nat (limit_of c) < length (items_of c) then Some (cursor_text (state_of c) (scope_of c) (k + nat (limit_of c))) else None)"
    using page_of_response [OF ok(2) read_items read_cursor] limit_range r by (simp add: offset_page_eq)
qed (use limit_range in \<open>force simp: cursor_text_def\<close>)+

record query =
  qy_env :: node_env
  qy_io :: read_io
  qy_trust :: TrustContext
  qy_limit :: int
  qy_db :: database

text \<open>The query passes the checks that come before the read.\<close>

definition query_ok :: "query \<Rightarrow> bool" where
  "query_ok q \<longleftrightarrow> authorizeRead (qy_env q) (qy_io q) (qy_trust q) = None \<and> ri_store (qy_io q) \<and> 1 \<le> qy_limit q \<and> qy_limit q \<le> MaximumPageSize"

definition dialogs_document :: "query \<Rightarrow> json list \<Rightarrow> string option \<Rightarrow> json" where
  "dialogs_document q xs nxt = json_Page (node_state (qy_db q)) ''dialogs'' [] xs nxt []"

interpretation dialog_pages: offset_endpoint query_ok "''dialogPage''" qy_io "\<lambda>q. node_state (qy_db q)" "\<lambda>_. ''dialogs''" qy_limit
  "\<lambda>q. map json_DialogSummary (dialog_rows (qy_db q))" dialogs_document
  "\<lambda>q cursor. Dialogs (qy_env q) (qy_io q) (qy_trust q) cursor (qy_limit q) (qy_db q)"
  by unfold_locales
     (simp_all add: query_ok_def dialogs_document_def json_Page_def json_pins_def Dialogs_def normalizedLimit_def offset_page_map case_prod_beta' Let_def)

definition requests_document :: "query \<times> string \<times> string \<Rightarrow> json list \<Rightarrow> string option \<Rightarrow> json" where
  "requests_document q xs nxt = json_Page (node_state (qy_db (fst q))) ''requests'' [] xs nxt []"

interpretation request_pages: offset_endpoint "\<lambda>(q, d, f). query_ok q \<and> f \<in> set request_filters" "''requestPage''" "\<lambda>q. qy_io (fst q)"
  "\<lambda>q. node_state (qy_db (fst q))" "\<lambda>(q, d, f). requests_scope d f" "\<lambda>q. qy_limit (fst q)"
  "\<lambda>(q, d, f). map json_Request (request_rows (qy_db q) d f)" requests_document
  "\<lambda>(q, d, f) cursor. requests_page (qy_env q) (qy_io q) (qy_trust q) d f cursor (qy_limit q) (qy_db q)"
  by unfold_locales
     (auto simp: query_ok_def requests_document_def json_Page_def json_pins_def requests_page_def normalizedLimit_def offset_page_map case_prod_beta' Let_def)

definition attempts_document :: "query \<times> request_row \<Rightarrow> json list \<Rightarrow> string option \<Rightarrow> json" where
  "attempts_document q xs nxt = json_Page (node_state (qy_db (fst q))) ''attempts''
     [(''dialogId'', JStr (r_dialog_id (snd q))), (''requestId'', JStr (request_id (snd q)))] xs nxt []"

interpretation attempt_pages: offset_endpoint
  "\<lambda>(q, r). query_ok q \<and> lookup_row request_id (request_id r) (requests (qy_db q)) = Some r \<and> visible_dialog (qy_db q) (r_dialog_id r)"
  "''attemptPage''" "\<lambda>q. qy_io (fst q)" "\<lambda>q. node_state (qy_db (fst q))" "\<lambda>(q, r). ''attempts:'' @ request_id r" "\<lambda>q. qy_limit (fst q)"
  "\<lambda>(q, r). map json_Attempt (attempt_rows (qy_db q) (request_id r))" attempts_document
  "\<lambda>(q, r) cursor. Attempts (qy_env q) (qy_io q) (qy_trust q) (request_id r) cursor (qy_limit q) (qy_db q)"
  by unfold_locales
     (auto simp: query_ok_def attempts_document_def json_Page_def json_pins_def Attempts_def normalizedLimit_def offset_page_map case_prod_beta' Let_def)

section \<open>The history as a paged list\<close>

text \<open>How many items a page takes: at most the limit, and only while they fit the byte budget.\<close>

fun fit_count :: "nat \<Rightarrow> int \<Rightarrow> json list \<Rightarrow> nat" where
  "fit_count room bytes [] = 0"
| "fit_count room bytes (x # xs) = (if room = 0 \<or> MaximumWireBytes - 4096 < bytes + raw_size x then 0
     else Suc (fit_count (room - 1) (bytes + raw_size x) xs))"

lemma fit_count_room: "fit_count room bytes xs \<le> room"
proof (induction xs arbitrary: room bytes)
  case (Cons x xs)
  then show ?case by (cases room) simp_all
qed simp

lemma fit_count_take: "fit_count room bytes (take (Suc room) xs) = fit_count room bytes xs"
proof (induction xs arbitrary: room bytes)
  case (Cons x xs)
  then show ?case by (cases room) simp_all
qed simp

lemma fit_count_pos: "0 < room \<Longrightarrow> raw_size x \<le> MaximumWireBytes - 4096 \<Longrightarrow> 0 < fit_count room 0 (x # xs)"
  by simp

definition message_item :: "string \<Rightarrow> message_row \<Rightarrow> json" where
  "message_item d m = (case history_item d m of None \<Rightarrow> JNull | Some item \<Rightarrow> item)"

lemma history_scan_fit: "list_all (\<lambda>m. history_item d m \<noteq> None) ms \<Longrightarrow>
    history_scan d room bytes ms = (let j = fit_count room bytes (map (message_item d) ms) in
      Some (map (\<lambda>m. (m_sequence m, message_item d m)) (take j ms), j < length ms))"
  by (induction d room bytes ms rule: history_scan.induct) (auto simp: message_item_def Let_def)

definition history_document :: "query \<times> string \<Rightarrow> json list \<Rightarrow> string option \<Rightarrow> json" where
  "history_document q xs nxt = json_Page (node_state (qy_db (fst q))) ''history'' [] xs nxt [(''dialogId'', JStr (snd q))]"

definition history_items :: "query \<times> string \<Rightarrow> json list" where
  "history_items q = map (message_item (snd q)) (message_rows (qy_db (fst q)) (snd q))"

definition history_step :: "query \<times> string \<Rightarrow> nat \<Rightarrow> nat" where
  "history_step q k = fit_count (nat (qy_limit (fst q))) 0 (drop k (history_items q))"

definition history_cursor :: "query \<times> string \<Rightarrow> nat \<Rightarrow> string" where
  "history_cursor q k = cursor_text (node_state (qy_db (fst q))) (''history:'' @ snd q) k"

definition history_page :: "query \<times> string \<Rightarrow> nat \<Rightarrow> json" where
  "history_page q k = (let j = k + history_step q k in history_document q (take (history_step q k) (drop k (history_items q)))
     (if j < length (history_items q) then Some (history_cursor q j) else None))"

text \<open>The dialog is visible, every message has an item within the byte budget, and every page fits the wire contract.\<close>

definition history_ready :: "query \<times> string \<Rightarrow> bool" where
  "history_ready q \<longleftrightarrow> query_ok (fst q) \<and> visible_dialog (qy_db (fst q)) (snd q) \<and>
     list_all (\<lambda>m. history_item (snd q) m \<noteq> None \<and> raw_size (message_item (snd q) m) \<le> MaximumWireBytes - 4096) (message_rows (qy_db (fst q)) (snd q)) \<and>
     list_all (\<lambda>k. cursor_ok (offset_cursor (node_state (qy_db (fst q))) (''history:'' @ snd q) k) \<and> response_ok ''historyPage'' (history_page q k))
       [0..<Suc (length (history_items q))]"

definition history_answer :: "query \<times> string \<Rightarrow> string \<Rightarrow> Result" where
  "history_answer q cursor = History (qy_env (fst q)) (qy_io (fst q)) (qy_trust (fst q)) (snd q) cursor (qy_limit (fst q)) (qy_db (fst q))"

lemma history_readyD:
  assumes "history_ready q"
  shows "query_ok (fst q)" "visible_dialog (qy_db (fst q)) (snd q)"
    and "m \<in> set (message_rows (qy_db (fst q)) (snd q)) \<Longrightarrow> history_item (snd q) m \<noteq> None"
    and "x \<in> set (history_items q) \<Longrightarrow> raw_size x \<le> MaximumWireBytes - 4096"
    and "k \<le> length (history_items q) \<Longrightarrow> cursor_ok (offset_cursor (node_state (qy_db (fst q))) (''history:'' @ snd q) k)"
    and "k \<le> length (history_items q) \<Longrightarrow> response_ok ''historyPage'' (history_page q k)"
  using assms unfolding history_ready_def list_all_iff set_upt by (auto simp: history_items_def less_Suc_eq_le)

lemma history_progress:
  assumes "history_ready q" and "k < length (history_items q)"
  shows "0 < history_step q k"
proof -
  from assms(2) obtain x xs where x: "drop k (history_items q) = x # xs" by (cases "drop k (history_items q)") simp_all
  then have "x \<in> set (history_items q)" by (metis in_set_dropD list.set_intros(1))
  then show ?thesis using history_readyD(1) [OF assms(1)] history_readyD(4) [OF assms(1), of x] by (simp add: history_step_def x query_ok_def)
qed

lemma history_answers:
  assumes r: "history_ready q" and k: "k \<le> length (history_items q)"
  shows "history_answer q (history_cursor q k) = wireResult (qy_io (fst q)) ''historyPage'' (history_page q k)"
proof -
  let ?s = "node_state (qy_db (fst q))" and ?ms = "drop k (message_rows (qy_db (fst q)) (snd q))" and ?L = "nat (qy_limit (fst q))"
  have L: "nat (qy_limit (fst q) + 1) = Suc ?L" using history_readyD(1) [OF r] by (auto simp: query_ok_def)
  have "list_all (\<lambda>m. history_item (snd q) m \<noteq> None) (take (Suc ?L) ?ms)"
    unfolding list_all_iff by (meson history_readyD(3) [OF r] in_set_takeD in_set_dropD)
  from history_scan_fit [OF this, of ?L 0]
  have s: "history_scan (snd q) ?L 0 (take (Suc ?L) ?ms) =
      Some (map (\<lambda>m. (m_sequence m, message_item (snd q) m)) (take (history_step q k) ?ms), k + history_step q k < length (history_items q))"
    using fit_count_room [of ?L 0 "drop k (history_items q)"]
    by (auto simp: Let_def history_step_def history_items_def take_map [symmetric] fit_count_take drop_map min_def)
  have p: "k + history_step q k < length (history_items q) \<Longrightarrow> 0 < history_step q k" using history_progress [OF r, of k] by simp
  have n: "length (take (history_step q k) ?ms) = history_step q k" if "k + history_step q k < length (history_items q)"
    using that by (simp add: history_items_def)
  from p n decode_offset [OF history_readyD(5) [OF r k]] history_readyD(1,2) [OF r] show ?thesis
    by (auto simp: history_answer_def History_def query_ok_def normalizedLimit_def history_cursor_def sql_window_def L Let_def s
        history_page_def history_document_def cursor_text_def offset_cursor_def history_items_def take_map drop_map comp_def)
qed

interpretation history_pages: paged history_ready history_items history_step history_cursor history_answer
proof unfold_locales
  fix q :: "query \<times> string" and k
  assume r: "history_ready q"
  show "0 < history_step q k" if "k < length (history_items q)" using history_progress [OF r that] .
  assume k: "k \<le> length (history_items q)"
  show "page_of (history_answer q (history_cursor q k)) = Some (take (history_step q k) (drop k (history_items q)),
      if k + history_step q k < length (history_items q) then Some (history_cursor q (k + history_step q k)) else None)"
    unfolding history_answers [OF r k]
    by (rule page_of_response [OF history_readyD(6) [OF r k]]) (simp_all add: history_page_def Let_def history_document_def json_Page_def json_pins_def)
qed (simp add: history_cursor_def cursor_text_def)

section \<open>Completeness of the pages\<close>

text \<open>
  C25: the dialog pages are complete. On an unchanged database, following \<open>nextCursor\<close> from the first
  page returns every visible dialog of the node's owner exactly once, by creation time and identity,
  within one page more than there are dialogs; the hypotheses are a permitted query and pages that
  satisfy the wire contract.
\<close>

theorem dialog_pages_complete:
  assumes "query_ok q"
    and "pages_fit ''dialogPage'' (node_state (qy_db q)) ''dialogs'' (qy_limit q) (map json_DialogSummary (dialog_rows (qy_db q))) (dialogs_document q)"
  shows "follow (\<lambda>cursor. Dialogs (qy_env q) (qy_io q) (qy_trust q) cursor (qy_limit q) (qy_db q)) (Suc (length (dialog_rows (qy_db q)))) [] =
    Some (map json_DialogSummary (dialog_rows (qy_db q)))"
  using dialog_pages.walk [of q "Suc (length (dialog_rows (qy_db q)))"] assms by simp

text \<open>
  C24: the request pages are complete. Following \<open>nextCursor\<close> of \<open>Requests\<close> or \<open>RequestsForDialog\<close> on an
  unchanged database returns exactly the requests of visible dialogs that pass the dialog and state
  filters, each once, in queue order.
\<close>

theorem request_pages_complete:
  assumes "query_ok q" and "stateFilter \<in> set request_filters"
    and "pages_fit ''requestPage'' (node_state (qy_db q)) (requests_scope dialogID stateFilter) (qy_limit q)
      (map json_Request (request_rows (qy_db q) dialogID stateFilter)) (requests_document (q, dialogID, stateFilter))"
  shows "follow (\<lambda>cursor. requests_page (qy_env q) (qy_io q) (qy_trust q) dialogID stateFilter cursor (qy_limit q) (qy_db q))
      (Suc (length (request_rows (qy_db q) dialogID stateFilter))) [] = Some (map json_Request (request_rows (qy_db q) dialogID stateFilter))"
  using request_pages.walk [of "(q, dialogID, stateFilter)" "Suc (length (request_rows (qy_db q) dialogID stateFilter))"] assms by simp

text \<open>
  C23: the history pages are complete. A page of \<open>History\<close> ends at the limit or at the byte budget,
  whichever comes first; following \<open>nextCursor\<close> on an unchanged database nevertheless returns every
  message of the dialog exactly once, in sequence order, and needs at most one page per message and
  one more.
\<close>

theorem history_pages_complete:
  assumes "history_ready (q, dialogID)"
  shows "follow (\<lambda>cursor. History (qy_env q) (qy_io q) (qy_trust q) dialogID cursor (qy_limit q) (qy_db q))
      (Suc (length (message_rows (qy_db q) dialogID))) [] = Some (map (message_item dialogID) (message_rows (qy_db q) dialogID))"
proof -
  have "follow (history_answer (q, dialogID)) (Suc (length (message_rows (qy_db q) dialogID))) [] = Some (history_items (q, dialogID))"
    using history_pages.walk [OF assms] by (simp add: history_items_def del: follow.simps)
  then show ?thesis by (simp add: history_answer_def [abs_def] history_items_def del: follow.simps)
qed

definition sample_pages :: database where
  "sample_pages = sample_queued\<lparr>messages := map (\<lambda>m. m\<lparr>m_command_id := Some ''00000000-0000-4000-8000-0000000000c7''\<rparr>) (messages sample_queued)\<rparr>"

definition sample_query :: query where
  "sample_query = \<lparr>qy_env = sample_env, qy_io = sample_read, qy_trust = sample_trust, qy_limit = 1, qy_db = sample_pages\<rparr>"

definition sample_pages_ok :: bool where
  "sample_pages_ok \<longleftrightarrow> query_ok sample_query \<and>
     pages_fit ''dialogPage'' (node_state sample_pages) ''dialogs'' 1 (map json_DialogSummary (dialog_rows sample_pages)) (dialogs_document sample_query) \<and>
     pages_fit ''requestPage'' (node_state sample_pages) (requests_scope [] ''queued'') 1
       (map json_Request (request_rows sample_pages [] ''queued'')) (requests_document (sample_query, [], ''queued''))"

definition sample_counts :: "nat list" where
  "sample_counts = [length (dialog_rows sample_pages), length (request_rows sample_pages [] ''queued''), length (message_rows sample_pages sample_dialog)]"

lemma sample_pages_fact: "sample_pages_ok"
  by code_simp

lemma sample_counts_fact: "sample_counts = [1, 2, 2]"
  by code_simp

lemma sample_history_ready: "history_ready (sample_query, sample_dialog)"
  by code_simp

theorem dialog_pages_complete_witness:
  "follow (\<lambda>cursor. Dialogs sample_env sample_read sample_trust cursor 1 sample_pages) 2 [] = Some (map json_DialogSummary (dialog_rows sample_pages)) \<and>
   length (dialog_rows sample_pages) = 1"
  using dialog_pages_complete [of sample_query] sample_pages_fact sample_counts_fact
  by (simp add: sample_pages_ok_def sample_counts_def sample_query_def numeral_2_eq_2 del: follow.simps)

theorem request_pages_complete_witness:
  "follow (\<lambda>cursor. requests_page sample_env sample_read sample_trust [] ''queued'' cursor 1 sample_pages) 3 [] =
     Some (map json_Request (request_rows sample_pages [] ''queued'')) \<and> length (request_rows sample_pages [] ''queued'') = 2"
  using request_pages_complete [of sample_query "''queued''" "[]"] sample_pages_fact sample_counts_fact
  by (simp add: sample_pages_ok_def sample_counts_def sample_query_def request_filters_def numeral_3_eq_3 del: follow.simps)

theorem history_pages_complete_witness:
  "follow (\<lambda>cursor. History sample_env sample_read sample_trust sample_dialog cursor 1 sample_pages) 3 [] =
     Some (map (message_item sample_dialog) (message_rows sample_pages sample_dialog)) \<and> length (message_rows sample_pages sample_dialog) = 2"
  using history_pages_complete [OF sample_history_ready] sample_counts_fact
  by (simp add: sample_counts_def sample_query_def numeral_3_eq_3 del: follow.simps)

end
