(* ===== verification/ProviderAuth.thy ===== *)
theory ProviderAuth
  imports Wire "HOL-Library.AList"
begin

text \<open>
  Provider authentication of \<open>providerauth/manager.go\<close>: a persisted state machine that replaces, checks
  and revokes the provider's credential. An action holds \<open>actionMu\<close> for its whole duration and \<open>mu\<close> only
  in its critical sections; a slow call to the backend (probe, commit, logout) runs between two of
  them. Each critical section is one function here, and \<open>mg_lease\<close> names the action that holds
  \<open>actionMu\<close> between two sections, so that expiry, readiness and reads interleave as they do in the
  code. The backend's answers, the state of a context, the outcome of a file write and fresh identities
  are arguments; the clock is read once per critical section and an instant stands for the text
  that formats it.
\<close>

section \<open>Types\<close>

datatype auth_state = StateUnknown | StateUnauthenticated | StateAuthenticated | StateReauthenticationRequired

datatype OperationStatus = OperationPending | OperationSucceeded | OperationFailed | OperationCancelled | OperationExpired

datatype ProbeResult = ProbeAuthenticated | ProbeUnauthenticated | ProbeInvalid | ProbeUnavailable | ProbeOther string

text \<open>An operation; an instant stands for the text of a time.\<close>

record Operation =
  op_id :: string
  op_command :: string
  op_method :: string
  op_status :: OperationStatus
  op_created :: int
  op_updated :: int
  op_reason :: "string option"
  op_url :: "string option"
  op_code :: "string option"
  op_expires :: "int option"
  op_timeout :: "int option"

record Capabilities =
  ca_methods :: "string list"
  ca_check :: bool
  ca_logout :: bool

definition AuthSchemaID :: string where "AuthSchemaID = ''harness-provider-auth-v1''"

record Envelope =
  en_schema :: string
  en_node :: string
  en_revision :: int
  en_state :: auth_state
  en_checked :: "int option"
  en_reason :: "string option"
  en_capabilities :: Capabilities
  en_operation :: "Operation option"

record StartRequest =
  sr_node :: string
  sr_command :: string
  sr_method :: string
  sr_secret :: string

record CommandRequest =
  cq_node :: string
  cq_command :: string

datatype APIError = APIError nat string

definition ErrInvalidRequest :: APIError where "ErrInvalidRequest = APIError 400 ''invalid_request''"
definition ErrNotFound :: APIError where "ErrNotFound = APIError 404 ''not_found''"
definition ErrPendingOperation :: APIError where "ErrPendingOperation = APIError 409 ''pending_operation''"
definition ErrBusy :: APIError where "ErrBusy = APIError 409 ''busy''"
definition ErrIDConflict :: APIError where "ErrIDConflict = APIError 409 ''id_conflict''"
definition ErrUnsupportedMethod :: APIError where "ErrUnsupportedMethod = APIError 422 ''unsupported_method''"
definition ErrInvalidSecret :: APIError where "ErrInvalidSecret = APIError 422 ''invalid_secret''"
definition ErrProviderUnavailable :: APIError where "ErrProviderUnavailable = APIError 503 ''provider_unavailable''"

definition maxCommandReceipts :: nat where "maxCommandReceipts = 4096"
definition providerAuthTimeout :: int where "providerAuthTimeout = 30000000000"

record commandRecord =
  cr_kind :: string
  cr_operation :: string

record persistedState =
  ps_initialized :: bool
  ps_revision :: int
  ps_state :: auth_state
  ps_checked :: "int option"
  ps_reason :: "string option"
  ps_latest :: string
  ps_operations :: "(string \<times> Operation) list"
  ps_commands :: "(string \<times> commandRecord) list"

text \<open>
  A write replaces the file or not; a failure after the rename (the directory's sync) reports an
  error although the new content is in place.
\<close>

datatype write_answer = Written | NotWritten | WrittenUnsynced

datatype context_state = ContextLive | ContextDeadline | ContextCancelled

text \<open>The action that holds \<open>actionMu\<close> while the backend works.\<close>

datatype lease = CheckLease string | RefreshLease | LogoutLease string | CommitLease string

record manager =
  mg_node :: string
  mg_state :: persistedState
  mg_cancels :: "string list"
  mg_transitioning :: bool
  mg_lease :: "lease option"
  mg_disk :: "persistedState option"
  mg_writes :: "write_answer list"

section \<open>Helpers under the lock\<close>

definition persistLocked :: "manager \<Rightarrow> bool \<times> manager" where
  "persistLocked m = (case mg_writes m of [] \<Rightarrow> (False, m)
     | a # as \<Rightarrow> (a = Written, m\<lparr>mg_writes := as, mg_disk := (if a = NotWritten then mg_disk m else Some (mg_state m))\<rparr>))"

definition failClosedLocked :: "manager \<Rightarrow> manager" where
  "failClosedLocked m = m\<lparr>mg_state := (mg_state m)\<lparr>ps_state := StateUnknown, ps_reason := Some ''provider_unavailable'',
     ps_revision := ps_revision (mg_state m) + 1\<rparr>\<rparr>"

text \<open>\<open>if persist fails { failClosed; _ = persist }\<close>\<close>

definition persist_or_fail :: "manager \<Rightarrow> bool \<times> manager" where
  "persist_or_fail m = (case persistLocked m of (ok, m') \<Rightarrow> if ok then (True, m') else (False, snd (persistLocked (failClosedLocked m'))))"

definition pending :: "Operation \<Rightarrow> bool" where
  "pending x \<longleftrightarrow> op_status x = OperationPending"

definition any_pending :: "manager \<Rightarrow> bool" where
  "any_pending m \<longleftrightarrow> list_ex (\<lambda>(i, x). pending x) (ps_operations (mg_state m))"

definition settle :: "OperationStatus \<Rightarrow> string option \<Rightarrow> int \<Rightarrow> Operation \<Rightarrow> Operation" where
  "settle status reason now x = x\<lparr>op_status := status, op_reason := reason, op_updated := now\<rparr>"

definition expirable :: "int \<Rightarrow> Operation \<Rightarrow> bool" where
  "expirable now x \<longleftrightarrow> pending x \<and> (case op_timeout x of None \<Rightarrow> False | Some deadline \<Rightarrow> \<not> now < deadline)"

definition expirePendingLocked :: "int \<Rightarrow> manager \<Rightarrow> bool \<times> manager" where
  "expirePendingLocked now m = (let ops = ps_operations (mg_state m); gone = map fst (filter (\<lambda>(i, x). expirable now x) ops) in
     if gone = [] then (True, m)
     else persist_or_fail (m\<lparr>mg_cancels := filter (\<lambda>i. i \<notin> set gone) (mg_cancels m),
       mg_state := (mg_state m)\<lparr>ps_operations := map (\<lambda>(i, x). (i, if expirable now x then settle OperationExpired (Some ''expired'') now x else x)) ops,
         ps_revision := ps_revision (mg_state m) + 1\<rparr>\<rparr>))"

definition ensureCommandCapacityLocked :: "manager \<Rightarrow> APIError option" where
  "ensureCommandCapacityLocked m = (if maxCommandReceipts \<le> length (ps_commands (mg_state m)) then Some ErrBusy else None)"

definition envelopeLocked :: "string \<Rightarrow> manager \<Rightarrow> Envelope" where
  "envelopeLocked operationID m = (let s = mg_state m; i = (if operationID = [] then ps_latest s else operationID) in
     \<lparr>en_schema = AuthSchemaID, en_node = mg_node m, en_revision = ps_revision s, en_state = ps_state s, en_checked = ps_checked s, en_reason = ps_reason s,
      en_capabilities = \<lparr>ca_methods = [''secret''], ca_check = True, ca_logout = True\<rparr>, en_operation = map_of (ps_operations s) i\<rparr>)"

definition set_operation :: "string \<Rightarrow> Operation \<Rightarrow> manager \<Rightarrow> manager" where
  "set_operation i x m = m\<lparr>mg_state := (mg_state m)\<lparr>ps_operations := AList.update i x (ps_operations (mg_state m))\<rparr>\<rparr>"

definition drop_cancel :: "string \<Rightarrow> manager \<Rightarrow> manager" where
  "drop_cancel i m = m\<lparr>mg_cancels := filter (\<lambda>j. j \<noteq> i) (mg_cancels m)\<rparr>"

definition record_command :: "string \<Rightarrow> commandRecord \<Rightarrow> manager \<Rightarrow> manager" where
  "record_command c r m = m\<lparr>mg_state := (mg_state m)\<lparr>ps_commands := AList.update c r (ps_commands (mg_state m))\<rparr>\<rparr>"

definition bump_revision :: "manager \<Rightarrow> manager" where
  "bump_revision m = m\<lparr>mg_state := (mg_state m)\<lparr>ps_revision := ps_revision (mg_state m) + 1\<rparr>\<rparr>"

definition containsControl :: "string \<Rightarrow> bool" where
  "containsControl s \<longleftrightarrow> list_ex (\<lambda>c. c \<in> {CHR 0x00, CHR 0x0D, CHR 0x0A}) s"

definition validateCommand :: "CommandRequest \<Rightarrow> string \<Rightarrow> manager \<Rightarrow> APIError option" where
  "validateCommand rq kind m = (if cq_node rq \<noteq> mg_node m then Some ErrNotFound
     else if \<not> uuidPattern (cq_command rq) then Some ErrInvalidRequest
     else case map_of (ps_commands (mg_state m)) (cq_command rq) of
         Some prior \<Rightarrow> if cr_kind prior \<noteq> kind then Some ErrIDConflict else None
       | None \<Rightarrow> None)"

section \<open>Opening\<close>

definition load :: "persistedState option \<Rightarrow> (bool \<times> persistedState) option" where
  "load disk = (case disk of
      None \<Rightarrow> Some (True, \<lparr>ps_initialized = False, ps_revision = 0, ps_state = StateUnknown, ps_checked = None, ps_reason = None,
        ps_latest = [], ps_operations = [], ps_commands = []\<rparr>)
    | Some s \<Rightarrow> if \<not> ps_initialized s \<or> ps_revision s < 1 then None else Some (False, s))"

definition open_state :: "bool \<Rightarrow> bool \<Rightarrow> int \<Rightarrow> persistedState \<Rightarrow> persistedState" where
  "open_state firstRun hasCredential now s = (let ops = ps_operations s; stopped = length (filter (\<lambda>(i, x). pending x) ops) in
     s\<lparr>ps_initialized := (firstRun \<or> ps_initialized s), ps_revision := (if firstRun then 1 else ps_revision s + 1) + int stopped,
       ps_state := (if hasCredential then StateUnknown else StateUnauthenticated), ps_reason := None, ps_checked := None,
       ps_operations := map (\<lambda>(i, x). (i, if pending x then settle OperationFailed (Some ''interrupted_by_restart'') now x else x)) ops\<rparr>)"

definition Open :: "string \<Rightarrow> bool option \<Rightarrow> int \<Rightarrow> write_answer list \<Rightarrow> persistedState option \<Rightarrow> manager option" where
  "Open nodeID bootstrap now writes disk = (if \<not> uuidPattern nodeID then None
     else case load disk of None \<Rightarrow> None
     | Some (firstRun, s) \<Rightarrow> (case bootstrap of None \<Rightarrow> None
         | Some hasCredential \<Rightarrow> (case persistLocked \<lparr>mg_node = nodeID, mg_state = open_state firstRun hasCredential now s, mg_cancels = [],
               mg_transitioning = False, mg_lease = None, mg_disk = disk, mg_writes = writes\<rparr> of
             (ok, m) \<Rightarrow> if ok then Some m else None)))"

section \<open>Reads\<close>

definition ProviderAuthReady :: "int \<Rightarrow> manager \<Rightarrow> bool \<times> manager" where
  "ProviderAuthReady now m = (case expirePendingLocked now m of (ok, m') \<Rightarrow>
     (ok \<and> ps_state (mg_state m') = StateAuthenticated \<and> \<not> mg_transitioning m' \<and> \<not> any_pending m', m'))"

definition AuthSnapshot :: "string \<Rightarrow> int \<Rightarrow> manager \<Rightarrow> (APIError + Envelope) \<times> manager" where
  "AuthSnapshot nodeID now m = (if nodeID \<noteq> mg_node m then (Inl ErrNotFound, m)
     else case expirePendingLocked now m of (ok, m') \<Rightarrow>
       if \<not> ok then (Inl ErrProviderUnavailable, m') else (Inr (envelopeLocked [] m'), m'))"

definition AuthOperation :: "string \<Rightarrow> string \<Rightarrow> int \<Rightarrow> manager \<Rightarrow> (APIError + Envelope) \<times> manager" where
  "AuthOperation nodeID operationID now m = (if nodeID \<noteq> mg_node m then (Inl ErrNotFound, m)
     else if \<not> uuidPattern operationID then (Inl ErrInvalidRequest, m)
     else case expirePendingLocked now m of (ok, m') \<Rightarrow>
       if \<not> ok then (Inl ErrProviderUnavailable, m')
       else if map_of (ps_operations (mg_state m')) operationID = None then (Inl ErrNotFound, m')
       else (Inr (envelopeLocked operationID m'), m'))"

section \<open>Replacing the credential\<close>

definition new_operation :: "string \<Rightarrow> string \<Rightarrow> int \<Rightarrow> Operation" where
  "new_operation i command now = \<lparr>op_id = i, op_command = command, op_method = ''secret'', op_status = OperationPending, op_created = now,
     op_updated = now, op_reason = None, op_url = None, op_code = None, op_expires = None, op_timeout = Some (now + providerAuthTimeout)\<rparr>"

text \<open>The entry of a new operation and its receipt; when it cannot be persisted both are removed again.\<close>

definition start_operation :: "string \<Rightarrow> string \<Rightarrow> int \<Rightarrow> manager \<Rightarrow> (APIError + Envelope) \<times> manager" where
  "start_operation i command now m =
     (let m1 = record_command command \<lparr>cr_kind = ''start:secret'', cr_operation = i\<rparr> (set_operation i (new_operation i command now) m);
          m2 = bump_revision (m1\<lparr>mg_state := (mg_state m1)\<lparr>ps_latest := i\<rparr>\<rparr>) in
      case persistLocked m2 of (ok, m3) \<Rightarrow>
        if ok then (let m4 = m3\<lparr>mg_cancels := i # mg_cancels m3\<rparr> in (Inr (envelopeLocked i m4), m4))
        else (Inl ErrProviderUnavailable, m3\<lparr>mg_state := (mg_state m3)\<lparr>ps_operations := AList.delete i (ps_operations (mg_state m3)),
          ps_commands := AList.delete command (ps_commands (mg_state m3))\<rparr>\<rparr>))"

definition AuthStart :: "StartRequest \<Rightarrow> bool \<Rightarrow> int \<Rightarrow> string option \<Rightarrow> manager \<Rightarrow> (APIError + Envelope) \<times> manager" where
  "AuthStart rq busy now fresh m = (if sr_node rq \<noteq> mg_node m then (Inl ErrNotFound, m)
     else if \<not> uuidPattern (sr_command rq) then (Inl ErrInvalidRequest, m)
     else if sr_method rq \<noteq> ''secret'' then (Inl ErrUnsupportedMethod, m)
     else if sr_secret rq = [] \<or> 16 * 1024 < length (sr_secret rq) \<or> containsControl (sr_secret rq) then (Inl ErrInvalidSecret, m)
     else case expirePendingLocked now m of (ok, m') \<Rightarrow>
       if \<not> ok then (Inl ErrProviderUnavailable, m')
       else (case map_of (ps_commands (mg_state m')) (sr_command rq) of
           Some prior \<Rightarrow> if cr_kind prior \<noteq> ''start:secret'' then (Inl ErrIDConflict, m') else (Inr (envelopeLocked (cr_operation prior) m'), m')
         | None \<Rightarrow> if busy then (Inl ErrBusy, m')
             else if any_pending m' then (Inl ErrPendingOperation, m')
             else (case ensureCommandCapacityLocked m' of Some e \<Rightarrow> (Inl e, m')
               | None \<Rightarrow> (case fresh of None \<Rightarrow> (Inl ErrProviderUnavailable, m')
                   | Some i \<Rightarrow> start_operation i (sr_command rq) now m'))))"

text \<open>The result that the goroutine \<open>replace\<close> hands on, and whether it comes with a prepared replacement.\<close>

definition replace_result :: "ProbeResult \<Rightarrow> bool \<Rightarrow> ProbeResult \<times> bool" where
  "replace_result r prepared = (case r of
      ProbeAuthenticated \<Rightarrow> if prepared then (ProbeAuthenticated, True) else (ProbeUnavailable, False)
    | ProbeOther _ \<Rightarrow> (ProbeUnavailable, False)
    | _ \<Rightarrow> (r, False))"

definition terminalize :: "string \<Rightarrow> Operation \<Rightarrow> OperationStatus \<Rightarrow> string \<Rightarrow> int \<Rightarrow> manager \<Rightarrow> manager" where
  "terminalize i x status reason now m =
     snd (persist_or_fail (bump_revision (drop_cancel i (set_operation i (settle status (Some reason) now x) m))))"

text \<open>
  \<open>finishReplacement\<close> up to the call of \<open>Commit\<close>, and from its return. The first returns whether the
  credential is to be committed now; the second whether the replacement has to be rolled back.
\<close>

definition finish_begin :: "context_state \<Rightarrow> bool \<Rightarrow> int \<Rightarrow> string \<Rightarrow> ProbeResult \<Rightarrow> bool \<Rightarrow> manager \<Rightarrow> bool \<times> manager" where
  "finish_begin ctx gate now i result prepared m = (let busy = (result = ProbeAuthenticated \<and> prepared \<and> gate) in
     case expirePendingLocked now m of (ok, m') \<Rightarrow>
       if \<not> ok then (False, m')
       else (case map_of (ps_operations (mg_state m')) i of None \<Rightarrow> (False, m')
         | Some x \<Rightarrow> if \<not> pending x then (False, m')
             else if ctx = ContextDeadline then (False, terminalize i x OperationExpired ''expired'' now m')
             else if ctx = ContextCancelled then (False, terminalize i x OperationCancelled ''cancelled'' now m')
             else if result \<in> {ProbeInvalid, ProbeUnauthenticated} then (False, terminalize i x OperationFailed ''invalid_secret'' now m')
             else if result = ProbeUnavailable \<or> busy then (False, terminalize i x OperationFailed ''provider_unavailable'' now m')
             else (True, m'\<lparr>mg_transitioning := True, mg_lease := Some (CommitLease i)\<rparr>)))"

definition commit_operation :: "string \<Rightarrow> Operation \<Rightarrow> int \<Rightarrow> manager \<Rightarrow> bool \<times> manager" where
  "commit_operation i x now m =
     (let m1 = set_operation i (settle OperationSucceeded None now x) m;
          m2 = bump_revision (drop_cancel i (m1\<lparr>mg_state := (mg_state m1)\<lparr>ps_state := StateAuthenticated, ps_reason := None, ps_checked := Some now\<rparr>\<rparr>)) in
      case persistLocked m2 of (ok, m3) \<Rightarrow>
        if ok then (False, m3)
        else (True, snd (persistLocked (failClosedLocked (set_operation i (settle OperationFailed (Some ''provider_unavailable'') now x) m3)))))"

definition finish_end :: "context_state \<Rightarrow> bool \<Rightarrow> int \<Rightarrow> string \<Rightarrow> manager \<Rightarrow> bool \<times> manager" where
  "finish_end ctx committed now i m0 = (let m = m0\<lparr>mg_transitioning := False, mg_lease := None\<rparr> in
     case expirePendingLocked now m of (ok, m') \<Rightarrow>
       (case map_of (ps_operations (mg_state m')) i of None \<Rightarrow> (True, m')
        | Some x \<Rightarrow> if ok \<and> pending x \<and> ctx = ContextLive \<and> committed then commit_operation i x now m'
            else (True, if \<not> pending x then m'
              else if ctx = ContextDeadline then terminalize i x OperationExpired ''expired'' now m'
              else if ctx = ContextCancelled then terminalize i x OperationCancelled ''cancelled'' now m'
              else terminalize i x OperationFailed ''provider_unavailable'' now m')))"

definition recordReplacementCleanupFailure :: "int \<Rightarrow> string \<Rightarrow> manager \<Rightarrow> manager" where
  "recordReplacementCleanupFailure now i m =
     (let m1 = (case map_of (ps_operations (mg_state m)) i of
          Some x \<Rightarrow> if pending x then set_operation i (settle OperationFailed (Some ''provider_unavailable'') now x) m else m
        | None \<Rightarrow> m) in snd (persistLocked (failClosedLocked m1)))"

definition expireOperation :: "int \<Rightarrow> string \<Rightarrow> manager \<Rightarrow> manager" where
  "expireOperation now i m = (case map_of (ps_operations (mg_state m)) i of None \<Rightarrow> m
     | Some x \<Rightarrow> if \<not> pending x then m else snd (expirePendingLocked now m))"

section \<open>Check, refresh, cancel and logout\<close>

text \<open>The state a probe leads to.\<close>

definition apply_probe :: "ProbeResult \<Rightarrow> int \<Rightarrow> manager \<Rightarrow> manager" where
  "apply_probe r now m = (let set_state = (\<lambda>s reason. m\<lparr>mg_state := (mg_state m)\<lparr>ps_state := s, ps_reason := reason, ps_checked := Some now\<rparr>\<rparr>) in
     case r of ProbeAuthenticated \<Rightarrow> set_state StateAuthenticated None
     | ProbeUnauthenticated \<Rightarrow> set_state StateUnauthenticated None
     | ProbeInvalid \<Rightarrow> set_state StateReauthenticationRequired (Some ''credential_rejected'')
     | _ \<Rightarrow> set_state StateUnknown (Some ''provider_unavailable''))"

text \<open>The section before the probe: an answer, or \<open>None\<close> and the lease when the backend is to be asked.\<close>

definition check_begin :: "CommandRequest \<Rightarrow> int \<Rightarrow> manager \<Rightarrow> (APIError + Envelope) option \<times> manager" where
  "check_begin rq now m = (case validateCommand rq ''check'' m of Some e \<Rightarrow> (Some (Inl e), m)
     | None \<Rightarrow> (case expirePendingLocked now m of (ok, m') \<Rightarrow>
         if \<not> ok then (Some (Inl ErrProviderUnavailable), m')
         else (case map_of (ps_commands (mg_state m')) (cq_command rq) of
             Some prior \<Rightarrow> (Some (if cr_kind prior \<noteq> ''check'' then Inl ErrIDConflict else Inr (envelopeLocked [] m')), m')
           | None \<Rightarrow> if any_pending m' then (Some (Inl ErrPendingOperation), m')
               else (case ensureCommandCapacityLocked m' of Some e \<Rightarrow> (Some (Inl e), m')
                 | None \<Rightarrow> (None, m'\<lparr>mg_lease := Some (CheckLease (cq_command rq))\<rparr>)))))"

definition check_end :: "ProbeResult \<Rightarrow> int \<Rightarrow> string \<Rightarrow> manager \<Rightarrow> (APIError + Envelope) \<times> manager" where
  "check_end r now command m0 = (case expirePendingLocked now (m0\<lparr>mg_lease := None\<rparr>) of (ok, m) \<Rightarrow>
     if \<not> ok then (Inl ErrProviderUnavailable, m)
     else (case persist_or_fail (apply_probe r now (bump_revision (record_command command \<lparr>cr_kind = ''check'', cr_operation = []\<rparr> m))) of
         (saved, m') \<Rightarrow> if saved then (Inr (envelopeLocked [] m'), m') else (Inl ErrProviderUnavailable, m')))"

definition refresh_begin :: "int \<Rightarrow> manager \<Rightarrow> bool option \<times> manager" where
  "refresh_begin now m = (case expirePendingLocked now m of (ok, m') \<Rightarrow>
     if \<not> ok then (Some False, m') else if any_pending m' then (Some True, m') else (None, m'\<lparr>mg_lease := Some RefreshLease\<rparr>))"

definition refresh_end :: "ProbeResult \<Rightarrow> int \<Rightarrow> manager \<Rightarrow> bool \<times> manager" where
  "refresh_end r now m0 = (case expirePendingLocked now (m0\<lparr>mg_lease := None\<rparr>) of (ok, m) \<Rightarrow>
     if \<not> ok then (False, m) else persist_or_fail (apply_probe r now (bump_revision m)))"

definition cancel_kind :: "string \<Rightarrow> string" where "cancel_kind operationID = ''cancel:'' @ operationID"

definition AuthCancel :: "string \<Rightarrow> CommandRequest \<Rightarrow> int \<Rightarrow> manager \<Rightarrow> (APIError + Envelope) \<times> manager" where
  "AuthCancel operationID rq now m = (case validateCommand rq (cancel_kind operationID) m of Some e \<Rightarrow> (Inl e, m)
     | None \<Rightarrow> (case expirePendingLocked now m of (ok, m') \<Rightarrow>
         if \<not> ok then (Inl ErrProviderUnavailable, m')
         else (case map_of (ps_operations (mg_state m')) operationID of None \<Rightarrow> (Inl ErrNotFound, m')
           | Some x \<Rightarrow> (case map_of (ps_commands (mg_state m')) (cq_command rq) of
               Some prior \<Rightarrow> if cr_kind prior \<noteq> cancel_kind operationID then (Inl ErrIDConflict, m') else (Inr (envelopeLocked operationID m'), m')
             | None \<Rightarrow> (case ensureCommandCapacityLocked m' of Some e \<Rightarrow> (Inl e, m')
                 | None \<Rightarrow> (let m1 = record_command (cq_command rq) \<lparr>cr_kind = cancel_kind operationID, cr_operation = operationID\<rparr> m';
                       m2 = (if pending x then drop_cancel operationID (set_operation operationID (settle OperationCancelled (Some ''cancelled'') now x) m1) else m1)
                     in case persist_or_fail (bump_revision m2) of (saved, m3) \<Rightarrow>
                       if saved then (Inr (envelopeLocked operationID m3), m3) else (Inl ErrProviderUnavailable, m3)))))))"

definition logout_begin :: "CommandRequest \<Rightarrow> bool \<Rightarrow> int \<Rightarrow> manager \<Rightarrow> (APIError + Envelope) option \<times> manager" where
  "logout_begin rq busy now m = (case validateCommand rq ''logout'' m of Some e \<Rightarrow> (Some (Inl e), m)
     | None \<Rightarrow> (case expirePendingLocked now m of (ok, m') \<Rightarrow>
         if \<not> ok then (Some (Inl ErrProviderUnavailable), m')
         else (case map_of (ps_commands (mg_state m')) (cq_command rq) of
             Some prior \<Rightarrow> (Some (if cr_kind prior \<noteq> ''logout'' then Inl ErrIDConflict else Inr (envelopeLocked [] m')), m')
           | None \<Rightarrow> if busy then (Some (Inl ErrBusy), m')
               else if any_pending m' then (Some (Inl ErrPendingOperation), m')
               else (case ensureCommandCapacityLocked m' of Some e \<Rightarrow> (Some (Inl e), m')
                 | None \<Rightarrow> (None, m'\<lparr>mg_transitioning := True, mg_lease := Some (LogoutLease (cq_command rq))\<rparr>)))))"

definition logout_end :: "bool \<Rightarrow> int \<Rightarrow> string \<Rightarrow> manager \<Rightarrow> (APIError + Envelope) \<times> manager" where
  "logout_end loggedOut now command m0 = (let m = m0\<lparr>mg_transitioning := False, mg_lease := None\<rparr> in
     if \<not> loggedOut then (Inl ErrProviderUnavailable, snd (persistLocked (failClosedLocked m)))
     else (let m1 = record_command command \<lparr>cr_kind = ''logout'', cr_operation = []\<rparr> m;
               m2 = m1\<lparr>mg_state := (mg_state m1)\<lparr>ps_state := StateUnauthenticated, ps_reason := None, ps_checked := Some now\<rparr>\<rparr>
       in case persist_or_fail (bump_revision m2) of (saved, m3) \<Rightarrow>
         if saved then (Inr (envelopeLocked [] m3), m3) else (Inl ErrProviderUnavailable, m3)))"

section \<open>The transition system\<close>

text \<open>
  One rule per critical section. A section of an action that starts needs \<open>actionMu\<close> to be free, the
  second section of an action belongs to the lease; expiry, readiness, reads and the report of a
  failed cleanup take only \<open>mu\<close>. A fresh operation identity is one that is not in use.
\<close>

inductive auth_step :: "manager \<Rightarrow> manager \<Rightarrow> bool" where
  auth_ready: "auth_step m (snd (ProviderAuthReady now m))"
| auth_snapshot: "auth_step m (snd (AuthSnapshot n now m))"
| auth_operation: "auth_step m (snd (AuthOperation n i now m))"
| auth_expire: "auth_step m (expireOperation now i m)"
| auth_cleanup: "auth_step m (recordReplacementCleanupFailure now i m)"
| auth_start: "mg_lease m = None \<Longrightarrow> (\<And>i. fresh = Some i \<Longrightarrow> i \<notin> fst ` set (ps_operations (mg_state m))) \<Longrightarrow>
    auth_step m (snd (AuthStart rq busy now fresh m))"
| auth_cancel: "mg_lease m = None \<Longrightarrow> auth_step m (snd (AuthCancel i cq now m))"
| auth_check: "mg_lease m = None \<Longrightarrow> auth_step m (snd (check_begin cq now m))"
| auth_checked: "mg_lease m = Some (CheckLease c) \<Longrightarrow> auth_step m (snd (check_end r now c m))"
| auth_refresh: "mg_lease m = None \<Longrightarrow> auth_step m (snd (refresh_begin now m))"
| auth_refreshed: "mg_lease m = Some RefreshLease \<Longrightarrow> auth_step m (snd (refresh_end r now m))"
| auth_logout: "mg_lease m = None \<Longrightarrow> auth_step m (snd (logout_begin cq busy now m))"
| auth_logged_out: "mg_lease m = Some (LogoutLease c) \<Longrightarrow> auth_step m (snd (logout_end done_ok now c m))"
| auth_finish: "mg_lease m = None \<Longrightarrow> replace_result r prepared = (r', p) \<Longrightarrow> auth_step m (snd (finish_begin ctx gate now i r' p m))"
| auth_committed: "mg_lease m = Some (CommitLease i) \<Longrightarrow> auth_step m (snd (finish_end ctx committed now i m))"

text \<open>Runs, with a restart from whatever the file holds.\<close>

inductive auth_reachable :: "manager \<Rightarrow> bool" where
  auth_first: "Open node bootstrap now writes None = Some m \<Longrightarrow> auth_reachable m"
| auth_next: "auth_reachable m \<Longrightarrow> auth_step m m' \<Longrightarrow> auth_reachable m'"
| auth_restart: "auth_reachable m \<Longrightarrow> Open node bootstrap now writes (mg_disk m) = Some m' \<Longrightarrow> auth_reachable m'"

section \<open>Quiet changes\<close>

text \<open>
  Most of the code only settles pending operations and moves the overall state: the receipts, the
  identities of the operations and everything already settled stay.
\<close>

definition settles :: "string \<times> Operation \<Rightarrow> string \<times> Operation \<Rightarrow> bool" where
  "settles p q \<longleftrightarrow> fst q = fst p \<and> (snd q = snd p \<or> (pending (snd p) \<and> \<not> pending (snd q) \<and> op_command (snd q) = op_command (snd p)))"

definition quiet :: "persistedState \<Rightarrow> persistedState \<Rightarrow> bool" where
  "quiet s s' \<longleftrightarrow> ps_commands s' = ps_commands s \<and> ps_initialized s' = ps_initialized s \<and> ps_revision s \<le> ps_revision s' \<and>
     list_all2 settles (ps_operations s) (ps_operations s')"

definition quiet_step :: "manager \<Rightarrow> manager \<Rightarrow> bool" where
  "quiet_step m m' \<longleftrightarrow> mg_node m' = mg_node m \<and> quiet (mg_state m) (mg_state m') \<and> mg_lease m' = mg_lease m \<and> mg_transitioning m' = mg_transitioning m \<and>
     (mg_disk m' = mg_disk m \<or> (\<exists>d. mg_disk m' = Some d \<and> quiet (mg_state m) d))"

lemma settles_refl [simp]: "settles p p"
  by (simp add: settles_def)

lemma settles_all [simp]: "list_all2 settles xs xs"
  by (simp add: list_all2_refl)

lemma settles_trans: "settles p q \<Longrightarrow> settles q r \<Longrightarrow> settles p r"
  by (auto simp: settles_def)

lemma quiet_refl [simp]: "quiet s s"
  by (simp add: quiet_def)

lemma quiet_trans:
  assumes "quiet s t" and "quiet t u"
  shows "quiet s u"
proof -
  have "list_all2 settles (ps_operations s) (ps_operations u)"
    using assms by (auto simp: quiet_def intro: list_all2_trans [of settles settles settles, OF settles_trans])
  then show ?thesis using assms by (simp add: quiet_def)
qed

lemma quiet_step_refl [simp]: "quiet_step m m"
  by (simp add: quiet_step_def)

lemma quiet_step_trans: "quiet_step m n \<Longrightarrow> quiet_step n k \<Longrightarrow> quiet_step m k"
  unfolding quiet_step_def by (auto intro: quiet_trans)

lemma quiet_persist [simp]: "quiet_step m (snd (persistLocked m))"
  by (auto simp: quiet_step_def persistLocked_def split: list.split)

lemma quiet_fail [simp]: "quiet_step m (failClosedLocked m)"
  by (simp add: quiet_step_def quiet_def failClosedLocked_def)

lemma quiet_fail_persist: "quiet_step m (snd (persistLocked (failClosedLocked m)))"
  by (rule quiet_step_trans [OF quiet_fail quiet_persist])

lemma quiet_persist_or_fail [simp]: "quiet_step m (snd (persist_or_fail m))"
  using quiet_step_trans [OF quiet_persist quiet_fail_persist, of m] by (simp add: persist_or_fail_def case_prod_beta')

lemma quiet_bump [simp]: "quiet_step m (bump_revision m)"
  by (simp add: quiet_step_def quiet_def bump_revision_def)

lemma quiet_drop [simp]: "quiet_step m (drop_cancel i m)"
  by (simp add: quiet_step_def drop_cancel_def)

lemma quiet_probe [simp]: "quiet_step m (apply_probe r now m)"
  by (simp add: quiet_step_def quiet_def apply_probe_def Let_def split: ProbeResult.split)

lemma update_settles: "map_of ops i = Some x \<Longrightarrow> settles (i, x) (i, y) \<Longrightarrow> list_all2 settles ops (AList.update i y ops)"
  by (induction ops) (auto simp: settles_def)

lemma quiet_set: "map_of (ps_operations (mg_state m)) i = Some x \<Longrightarrow> pending x \<Longrightarrow> st \<noteq> OperationPending \<Longrightarrow>
    quiet_step m (set_operation i (settle st reason now x) m)"
  by (auto simp: quiet_step_def quiet_def set_operation_def settles_def settle_def pending_def intro!: update_settles)

lemma quiet_terminalize: "map_of (ps_operations (mg_state m)) i = Some x \<Longrightarrow> pending x \<Longrightarrow> st \<noteq> OperationPending \<Longrightarrow>
    quiet_step m (terminalize i x st reason now m)"
  unfolding terminalize_def
  by (rule quiet_step_trans [OF quiet_set quiet_step_trans [OF quiet_drop quiet_step_trans [OF quiet_bump quiet_persist_or_fail]]])

lemma settles_map:
  assumes "\<And>x. Q x \<Longrightarrow> pending x" and "st \<noteq> OperationPending"
  shows "list_all2 settles ops (map (\<lambda>(i, x). (i, if Q x then settle st r now x else x)) ops)"
proof (induction ops)
  case (Cons p ops)
  have "settles p (case p of (i, x) \<Rightarrow> (i, if Q x then settle st r now x else x))"
    using assms by (cases p) (auto simp: settles_def settle_def pending_def)
  then show ?case using Cons by simp
qed simp

lemma quiet_expire [simp]: "quiet_step m (snd (expirePendingLocked now m))"
proof -
  let ?f = "\<lambda>(i, x). (i :: string, if expirable now x then settle OperationExpired (Some ''expired'') now x else x)"
  have "list_all2 settles ops (map ?f ops)" for ops
    by (rule settles_map) (simp_all add: expirable_def)
  then have q: "quiet_step m (m\<lparr>mg_cancels := c, mg_state := (mg_state m)\<lparr>ps_operations := map ?f (ps_operations (mg_state m)),
      ps_revision := ps_revision (mg_state m) + 1\<rparr>\<rparr>)" for c
    by (simp add: quiet_step_def quiet_def)
  show ?thesis unfolding expirePendingLocked_def Let_def by (auto intro: quiet_step_trans [OF q quiet_persist_or_fail])
qed

lemma quiet_cleanup: "quiet_step m (recordReplacementCleanupFailure now i m)"
  unfolding recordReplacementCleanupFailure_def Let_def
  by (rule quiet_step_trans [OF _ quiet_fail_persist]) (auto intro: quiet_set split: option.split)

lemma quiet_expireOperation: "quiet_step m (expireOperation now i m)"
  by (simp add: expireOperation_def split: option.split)

section \<open>The invariant\<close>

text \<open>
  Identities are unique, the receipts are bounded, at most one operation is pending, and every
  operation has the receipt of the command that started it. It holds of the memory and of the file.
  An action that will record a receipt after its backend call still has room for it.
\<close>

definition auth_ok :: "persistedState \<Rightarrow> bool" where
  "auth_ok s \<longleftrightarrow> distinct (map fst (ps_operations s)) \<and> distinct (map fst (ps_commands s)) \<and> length (ps_commands s) \<le> maxCommandReceipts \<and>
     length (filter (\<lambda>p. pending (snd p)) (ps_operations s)) \<le> 1 \<and>
     (\<forall>p \<in> set (ps_operations s). map_of (ps_commands s) (op_command (snd p)) = Some \<lparr>cr_kind = ''start:secret'', cr_operation = fst p\<rparr>)"

definition receipt_free :: "string \<Rightarrow> persistedState \<Rightarrow> bool" where
  "receipt_free c s \<longleftrightarrow> length (ps_commands s) < maxCommandReceipts \<and> map_of (ps_commands s) c = None"

definition lease_ok :: "manager \<Rightarrow> bool" where
  "lease_ok m = ((case mg_lease m of Some (CheckLease c) \<Rightarrow> receipt_free c (mg_state m) | Some (LogoutLease c) \<Rightarrow> receipt_free c (mg_state m) | _ \<Rightarrow> True) \<and>
     mg_transitioning m = (case mg_lease m of Some (LogoutLease c) \<Rightarrow> True | Some (CommitLease i) \<Rightarrow> True | _ \<Rightarrow> False))"

definition auth_inv :: "manager \<Rightarrow> bool" where
  "auth_inv m \<longleftrightarrow> auth_ok (mg_state m) \<and> (\<forall>d. mg_disk m = Some d \<longrightarrow> auth_ok d) \<and> lease_ok m"

lemma settles_keys: "list_all2 settles xs ys \<Longrightarrow> map fst ys = map fst xs"
  by (induction rule: list_all2_induct) (auto simp: settles_def)

lemma settles_pending: "list_all2 settles xs ys \<Longrightarrow> length (filter (\<lambda>p. pending (snd p)) ys) \<le> length (filter (\<lambda>p. pending (snd p)) xs)"
  by (induction rule: list_all2_induct) (auto simp: settles_def)

lemma settles_member: "list_all2 settles xs ys \<Longrightarrow> q \<in> set ys \<Longrightarrow> \<exists>p \<in> set xs. settles p q"
  by (induction rule: list_all2_induct) auto

lemma settles_final: "list_all2 settles xs ys \<Longrightarrow> map_of xs i = Some x \<Longrightarrow> \<not> pending x \<Longrightarrow> map_of ys i = Some x"
  by (induction rule: list_all2_induct) (auto simp: settles_def split: if_splits)

lemma auth_ok_quiet:
  assumes "auth_ok s" and "quiet s s'"
  shows "auth_ok s'"
proof -
  have ops: "list_all2 settles (ps_operations s) (ps_operations s')" and c: "ps_commands s' = ps_commands s" using assms(2) by (auto simp: quiet_def)
  have "map_of (ps_commands s) (op_command (snd q)) = Some \<lparr>cr_kind = ''start:secret'', cr_operation = fst q\<rparr>" if "q \<in> set (ps_operations s')" for q
    using settles_member [OF ops that] assms(1) by (auto simp: auth_ok_def settles_def)
  then show ?thesis using assms(1) settles_keys [OF ops] settles_pending [OF ops] by (simp add: auth_ok_def c)
qed

lemma auth_inv_quiet: "auth_inv m \<Longrightarrow> quiet_step m m' \<Longrightarrow> auth_inv m'"
  unfolding auth_inv_def quiet_step_def
  by (auto intro: auth_ok_quiet simp: lease_ok_def receipt_free_def quiet_def split: option.splits lease.splits)

lemma length_update: "length (AList.update k v al) = (if k \<in> fst ` set al then length al else Suc (length al))"
  by (induction al) auto

lemma set_update_fresh: "k \<notin> fst ` set al \<Longrightarrow> AList.update k v al = al @ [(k, v)]"
  by (induction al) auto

lemma delete_update_fresh: "k \<notin> fst ` set al \<Longrightarrow> AList.delete k (al @ [(k, v)]) = al"
  by (induction al) (auto simp: AList.delete_eq)

lemma receipt_free_fresh: "receipt_free c s \<Longrightarrow> c \<notin> fst ` set (ps_commands s)"
  by (simp add: receipt_free_def map_of_eq_None_iff)

lemma auth_ok_record:
  assumes "auth_ok s" and "receipt_free c s"
  shows "auth_ok (s\<lparr>ps_commands := AList.update c r (ps_commands s)\<rparr>)"
proof -
  have f: "c \<notin> fst ` set (ps_commands s)" using receipt_free_fresh [OF assms(2)] .
  have "op_command (snd p) \<noteq> c" if "p \<in> set (ps_operations s)" for p
    using assms that by (auto simp: auth_ok_def receipt_free_def)
  then show ?thesis using assms f
    by (auto simp: auth_ok_def receipt_free_def set_update_fresh map_add_def split: option.split)
qed

lemma auth_ok_start:
  assumes "auth_ok s" and "receipt_free c s" and "i \<notin> fst ` set (ps_operations s)" and "\<not> list_ex (\<lambda>(i, x). pending x) (ps_operations s)"
  shows "auth_ok (s\<lparr>ps_operations := AList.update i (new_operation i c now) (ps_operations s),
    ps_commands := AList.update c \<lparr>cr_kind = ''start:secret'', cr_operation = i\<rparr> (ps_commands s), ps_latest := i, ps_revision := v\<rparr>)"
proof -
  have f: "c \<notin> fst ` set (ps_commands s)" using receipt_free_fresh [OF assms(2)] .
  have "op_command (snd p) \<noteq> c" if "p \<in> set (ps_operations s)" for p
    using assms(1,2) that by (auto simp: auth_ok_def receipt_free_def)
  moreover have "filter (\<lambda>p. pending (snd p)) (ps_operations s) = []" using assms(4) by (auto simp: list_ex_iff filter_empty_conv case_prod_beta')
  moreover have "map_of (ps_commands s) c = None" using f by (simp add: map_of_eq_None_iff)
  ultimately show ?thesis using assms(1-3) f
    by (auto simp: auth_ok_def receipt_free_def set_update_fresh new_operation_def map_add_def split: option.split)
qed

lemma capacity_free: "ensureCommandCapacityLocked m = None \<Longrightarrow> map_of (ps_commands (mg_state m)) c = None \<Longrightarrow> receipt_free c (mg_state m)"
  by (simp add: ensureCommandCapacityLocked_def receipt_free_def split: if_splits)

lemma record_inv: "auth_inv m \<Longrightarrow> receipt_free c (mg_state m) \<Longrightarrow> mg_lease m = None \<Longrightarrow> auth_inv (record_command c r m)"
  by (simp add: auth_inv_def record_command_def auth_ok_record lease_ok_def)

lemma expire_inv: "auth_inv m \<Longrightarrow> expirePendingLocked now m = (ok, m') \<Longrightarrow>
    auth_inv m' \<and> mg_lease m' = mg_lease m \<and> quiet (mg_state m) (mg_state m')"
  using quiet_expire [of m now] auth_inv_quiet [OF _ quiet_expire, of m now] by (simp add: quiet_step_def)

lemma unlease_inv: "auth_inv m \<Longrightarrow> auth_inv (m\<lparr>mg_transitioning := False, mg_lease := None\<rparr>)"
  by (simp add: auth_inv_def lease_ok_def)

lemma start_inv:
  assumes "auth_inv m" and "mg_lease m = None" and "\<And>i. fresh = Some i \<Longrightarrow> i \<notin> fst ` set (ps_operations (mg_state m))"
  shows "auth_inv (snd (AuthStart rq busy now fresh m))"
proof -
  obtain ok m' where e: "expirePendingLocked now m = (ok, m')" by (cases "expirePendingLocked now m") auto
  note i = expire_inv [OF assms(1) e]
  have s: "auth_inv (snd (start_operation i (sr_command rq) now m'))"
    if "fresh = Some i" "receipt_free (sr_command rq) (mg_state m')" "\<not> any_pending m'" for i
  proof -
    have f: "i \<notin> fst ` set (ps_operations (mg_state m'))"
      using assms(3) [OF that(1)] expire_inv [OF assms(1) e] settles_keys [of "ps_operations (mg_state m)" "ps_operations (mg_state m')"]
      by (metis list.set_map quiet_def)
    have c: "sr_command rq \<notin> fst ` set (ps_commands (mg_state m'))" using receipt_free_fresh [OF that(2)] .
    have ok2: "auth_ok ((mg_state m')\<lparr>ps_operations := AList.update i (new_operation i (sr_command rq) now) (ps_operations (mg_state m')),
        ps_commands := AList.update (sr_command rq) \<lparr>cr_kind = ''start:secret'', cr_operation = i\<rparr> (ps_commands (mg_state m')), ps_latest := i,
        ps_revision := ps_revision (mg_state m') + 1\<rparr>)"
      using auth_ok_start [OF _ that(2) f] i that(3) by (simp add: auth_inv_def any_pending_def)
    have ok3: "auth_ok ((mg_state m')\<lparr>ps_latest := i, ps_revision := ps_revision (mg_state m') + 1\<rparr>)"
      using i by (simp add: auth_inv_def auth_ok_def)
    show ?thesis using i assms(2) ok2 ok3 c f
      by (auto simp: start_operation_def Let_def persistLocked_def record_command_def set_operation_def bump_revision_def auth_inv_def lease_ok_def
          set_update_fresh delete_update_fresh split: list.split)
  qed
  show ?thesis using assms(1) i s capacity_free [of m' "sr_command rq"]
    by (auto simp: AuthStart_def e split: option.split)
qed

lemma cancel_inv:
  assumes "auth_inv m" and "mg_lease m = None"
  shows "auth_inv (snd (AuthCancel i cq now m))"
proof -
  obtain ok m' where e: "expirePendingLocked now m = (ok, m')" by (cases "expirePendingLocked now m") auto
  note j = expire_inv [OF assms(1) e]
  have q: "auth_inv (snd (persist_or_fail (bump_revision n)))" if "auth_inv n" for n
    using auth_inv_quiet [OF that quiet_step_trans [OF quiet_bump quiet_persist_or_fail]] .
  have d: "auth_inv (drop_cancel i (set_operation i (settle OperationCancelled r now x) n))"
    if "auth_inv n" "map_of (ps_operations (mg_state n)) i = Some x" "pending x" for n x r
    using auth_inv_quiet [OF that(1) quiet_step_trans [OF quiet_set [OF that(2,3)] quiet_drop]] by simp
  have r: "auth_inv (record_command (cq_command cq) k m')" if "receipt_free (cq_command cq) (mg_state m')" for k
    using record_inv [OF _ that] j assms(2) by simp
  have ops: "ps_operations (mg_state (record_command c k m')) = ps_operations (mg_state m')" for c k by (simp add: record_command_def)
  show ?thesis
    using assms(1) j q d r ops capacity_free [of m' "cq_command cq"]
    by (auto simp: AuthCancel_def e Let_def case_prod_beta' split: option.split)
qed

lemma take_lease:
  assumes "auth_inv m" and "mg_lease m = None"
  shows "auth_inv (m\<lparr>mg_lease := Some RefreshLease\<rparr>)"
    and "receipt_free c (mg_state m) \<Longrightarrow> auth_inv (m\<lparr>mg_lease := Some (CheckLease c)\<rparr>)"
    and "receipt_free c (mg_state m) \<Longrightarrow> auth_inv (m\<lparr>mg_transitioning := True, mg_lease := Some (LogoutLease c)\<rparr>)"
    and "auth_inv (m\<lparr>mg_transitioning := True, mg_lease := Some (CommitLease i)\<rparr>)"
  using assms by (simp_all add: auth_inv_def lease_ok_def)

lemma check_inv:
  assumes "auth_inv m" and "mg_lease m = None"
  shows "auth_inv (snd (check_begin cq now m))"
proof -
  obtain ok m' where e: "expirePendingLocked now m = (ok, m')" by (cases "expirePendingLocked now m") auto
  note j = expire_inv [OF assms(1) e]
  have "receipt_free (cq_command cq) (mg_state m') \<Longrightarrow> auth_inv (m'\<lparr>mg_lease := Some (CheckLease (cq_command cq))\<rparr>)"
    using take_lease(2) [of m'] j assms(2) by simp
  with capacity_free [of m' "cq_command cq"] j assms(1) show ?thesis
    by (auto simp: check_begin_def e split: option.split)
qed

lemma logout_inv:
  assumes "auth_inv m" and "mg_lease m = None"
  shows "auth_inv (snd (logout_begin cq busy now m))"
proof -
  obtain ok m' where e: "expirePendingLocked now m = (ok, m')" by (cases "expirePendingLocked now m") auto
  note j = expire_inv [OF assms(1) e]
  have "receipt_free (cq_command cq) (mg_state m') \<Longrightarrow> auth_inv (m'\<lparr>mg_transitioning := True, mg_lease := Some (LogoutLease (cq_command cq))\<rparr>)"
    using take_lease(3) [of m'] j assms(2) by simp
  with capacity_free [of m' "cq_command cq"] j assms(1) show ?thesis
    by (auto simp: logout_begin_def e split: option.split)
qed

lemma refresh_inv:
  assumes "auth_inv m" and "mg_lease m = None"
  shows "auth_inv (snd (refresh_begin now m))"
proof -
  obtain ok m' where e: "expirePendingLocked now m = (ok, m')" by (cases "expirePendingLocked now m") auto
  note j = expire_inv [OF assms(1) e]
  from j take_lease(1) [of m'] assms(2) show ?thesis by (simp add: refresh_begin_def e)
qed

lemma persisted_inv: "auth_inv m \<Longrightarrow> auth_inv (snd (persist_or_fail m))"
  by (rule auth_inv_quiet [OF _ quiet_persist_or_fail])

lemma probed_inv: "auth_inv m \<Longrightarrow> auth_inv (snd (persist_or_fail (apply_probe r now (bump_revision m))))"
  by (rule auth_inv_quiet [OF _ quiet_step_trans [OF quiet_bump quiet_step_trans [OF quiet_probe quiet_persist_or_fail]]])

lemma checked_inv:
  assumes "auth_inv m" and "mg_lease m = Some (CheckLease c)"
  shows "auth_inv (snd (check_end r now c m))"
proof -
  let ?m = "m\<lparr>mg_lease := None\<rparr>"
  obtain ok m' where e: "expirePendingLocked now ?m = (ok, m')" by (cases "expirePendingLocked now ?m") auto
  have i: "auth_inv ?m" and f: "receipt_free c (mg_state m)" using assms by (auto simp: auth_inv_def lease_ok_def)
  note j = expire_inv [OF i e]
  have "receipt_free c (mg_state m')" using j f by (simp add: receipt_free_def quiet_def)
  from probed_inv [OF record_inv [OF _ this]] j show ?thesis
    by (auto simp: check_end_def e bump_revision_def record_command_def case_prod_beta' split: prod.split)
qed

lemma logged_out_inv:
  assumes "auth_inv m" and "mg_lease m = Some (LogoutLease c)"
  shows "auth_inv (snd (logout_end b now c m))"
proof -
  let ?m = "m\<lparr>mg_transitioning := False, mg_lease := None\<rparr>"
  have i: "auth_inv ?m" and f: "receipt_free c (mg_state ?m)" using assms by (auto simp: auth_inv_def lease_ok_def)
  have "quiet_step n (n\<lparr>mg_state := (mg_state n)\<lparr>ps_state := a, ps_reason := x, ps_checked := y\<rparr>\<rparr>)" for n a x y
    by (simp add: quiet_step_def quiet_def)
  from auth_inv_quiet [OF record_inv [OF i f] quiet_step_trans [OF this quiet_step_trans [OF quiet_bump quiet_persist_or_fail]]]
  show ?thesis using auth_inv_quiet [OF i quiet_fail_persist] by (simp add: logout_end_def Let_def case_prod_beta')
qed

lemma refreshed_inv:
  assumes "auth_inv m" and "mg_lease m = Some RefreshLease"
  shows "auth_inv (snd (refresh_end r now m))"
proof -
  let ?m = "m\<lparr>mg_lease := None\<rparr>"
  have i: "auth_inv ?m" using assms by (simp add: auth_inv_def lease_ok_def)
  obtain ok m' where e: "expirePendingLocked now ?m = (ok, m')" by (cases "expirePendingLocked now ?m") auto
  from expire_inv [OF i e] probed_inv [of m' r now] show ?thesis by (simp add: refresh_end_def e)
qed

lemma finish_inv: "auth_inv m \<Longrightarrow> mg_lease m = None \<Longrightarrow> auth_inv (snd (finish_begin ctx gate now i r p m))"
proof -
  assume a: "auth_inv m" "mg_lease m = None"
  obtain ok m' where e: "expirePendingLocked now m = (ok, m')" by (cases "expirePendingLocked now m") auto
  note j = expire_inv [OF a(1) e]
  have t: "auth_inv (terminalize i x st reason now m')"
    if "map_of (ps_operations (mg_state m')) i = Some x" "pending x" "st \<noteq> OperationPending" for x st reason
    using auth_inv_quiet [OF _ quiet_terminalize [OF that]] j by simp
  have "auth_inv (m'\<lparr>mg_transitioning := True, mg_lease := Some (CommitLease i)\<rparr>)" using take_lease(4) [of m'] j a(2) by simp
  then show ?thesis using j t by (auto simp: finish_begin_def e Let_def split: option.split)
qed

lemma update_twice: "AList.update i y (AList.update i x ops) = AList.update i y ops"
  by (induction ops) auto

lemma auth_commit_quiet:
  assumes "map_of (ps_operations (mg_state m)) i = Some x" and "pending x"
  shows "quiet_step m (snd (commit_operation i x now m))"
proof -
  let ?m1 = "set_operation i (settle OperationSucceeded None now x) m"
  let ?m2 = "bump_revision (drop_cancel i (?m1\<lparr>mg_state := (mg_state ?m1)\<lparr>ps_state := StateAuthenticated, ps_reason := None, ps_checked := Some now\<rparr>\<rparr>))"
  have "quiet_step ?m1 (?m1\<lparr>mg_state := (mg_state ?m1)\<lparr>ps_state := StateAuthenticated, ps_reason := None, ps_checked := Some now\<rparr>\<rparr>)"
    by (simp add: quiet_step_def quiet_def)
  then have q2: "quiet_step m (snd (persistLocked ?m2))"
    using quiet_step_trans [OF quiet_set [OF assms, of OperationSucceeded None now] quiet_step_trans [OF _ quiet_step_trans [OF quiet_drop
      quiet_step_trans [OF quiet_bump quiet_persist]]]] by simp
  let ?m3 = "snd (persistLocked ?m2)"
  have "mg_state ?m3 = mg_state ?m2" by (simp add: persistLocked_def split: list.split)
  then have "quiet_step m (set_operation i (settle OperationFailed (Some ''provider_unavailable'') now x) ?m3)"
    using quiet_set [OF assms, of OperationFailed "Some ''provider_unavailable''" now] q2
    by (auto simp: quiet_step_def quiet_def set_operation_def bump_revision_def drop_cancel_def update_twice)
  from q2 quiet_step_trans [OF this quiet_fail_persist] show ?thesis
    by (simp add: commit_operation_def Let_def case_prod_beta')
qed

lemma committed_inv:
  assumes "auth_inv m"
  shows "auth_inv (snd (finish_end ctx b now i m))"
proof -
  let ?m = "m\<lparr>mg_transitioning := False, mg_lease := None\<rparr>"
  obtain ok m' where e: "expirePendingLocked now ?m = (ok, m')" by (cases "expirePendingLocked now ?m") auto
  note j = expire_inv [OF unlease_inv [OF assms] e]
  have t: "auth_inv (terminalize i x st reason now m')"
    if "map_of (ps_operations (mg_state m')) i = Some x" "pending x" "st \<noteq> OperationPending" for x st reason
    using auth_inv_quiet [OF _ quiet_terminalize [OF that]] j by simp
  have c: "auth_inv (snd (commit_operation i x now m'))" if "map_of (ps_operations (mg_state m')) i = Some x" "pending x" for x
    using auth_inv_quiet [OF _ auth_commit_quiet [OF that]] j by simp
  show ?thesis using j t c by (auto simp: finish_end_def e Let_def split: option.split)
qed

lemma open_inv:
  assumes "Open node bootstrap now writes disk = Some m" and "\<And>d. disk = Some d \<Longrightarrow> auth_ok d"
  shows "auth_inv m"
proof -
  obtain firstRun s has where l: "load disk = Some (firstRun, s)" and b: "bootstrap = Some has"
    using assms(1) by (auto simp: Open_def split: if_splits option.splits)
  let ?m = "\<lparr>mg_node = node, mg_state = open_state firstRun has now s, mg_cancels = [], mg_transitioning = False, mg_lease = None,
    mg_disk = disk, mg_writes = writes\<rparr>"
  have s: "auth_ok s" using l assms(2) by (auto simp: load_def auth_ok_def split: option.splits if_splits)
  have "list_all2 settles ops (map (\<lambda>(i, x). (i, if pending x then settle OperationFailed r now x else x)) ops)" for ops r
    by (rule settles_map) simp_all
  then have "quiet s ((open_state firstRun has now s)\<lparr>ps_initialized := ps_initialized s, ps_revision := ps_revision s\<rparr>)"
    by (simp add: quiet_def open_state_def Let_def)
  from auth_ok_quiet [OF s this] have "auth_ok (open_state firstRun has now s)" by (simp add: auth_ok_def)
  then have "auth_inv ?m" using assms(2) by (simp add: auth_inv_def lease_ok_def)
  from auth_inv_quiet [OF this quiet_persist] show ?thesis
    using assms(1) l b by (auto simp: Open_def case_prod_beta' split: if_splits)
qed

section \<open>Invariants of the manager\<close>

locale auth_invariant =
  fixes I :: "manager \<Rightarrow> bool"
  assumes opens: "Open node bootstrap now writes None = Some m \<Longrightarrow> I m"
    and reopens: "I m \<Longrightarrow> Open node bootstrap now writes (mg_disk m) = Some m' \<Longrightarrow> I m'"
    and steps: "I m \<Longrightarrow> auth_step m m' \<Longrightarrow> I m'"
begin

lemma reachable_holds: "auth_reachable m \<Longrightarrow> I m"
  by (induction rule: auth_reachable.induct) (auto intro: opens reopens steps)

end

lemma auth_step_inv: "auth_step m m' \<Longrightarrow> auth_inv m \<Longrightarrow> auth_inv m'"
proof (induction rule: auth_step.induct)
  case (auth_ready m now)
  then show ?case using auth_inv_quiet [OF _ quiet_expire] by (simp add: ProviderAuthReady_def case_prod_beta')
next
  case (auth_snapshot m n now)
  then show ?case using auth_inv_quiet [OF _ quiet_expire] by (simp add: AuthSnapshot_def case_prod_beta')
next
  case (auth_operation m n i now)
  then show ?case using auth_inv_quiet [OF _ quiet_expire] by (simp add: AuthOperation_def case_prod_beta')
qed (auto intro: start_inv cancel_inv check_inv checked_inv refresh_inv refreshed_inv logout_inv logged_out_inv finish_inv committed_inv
      auth_inv_quiet [OF _ quiet_expireOperation] auth_inv_quiet [OF _ quiet_cleanup])

interpretation auth_bounds: auth_invariant auth_inv
proof unfold_locales
  show "auth_inv m" if "Open node bootstrap now writes None = Some m" for node bootstrap now writes m
    using open_inv [OF that] by simp
  show "auth_inv m'" if "auth_inv m" "Open node bootstrap now writes (mg_disk m) = Some m'" for m node bootstrap now writes m'
    using open_inv [OF that(2)] that(1) by (simp add: auth_inv_def)
qed (rule auth_step_inv)

text \<open>The state that admits work is on disk before anyone can see it.\<close>

definition auth_durable :: "manager \<Rightarrow> bool" where
  "auth_durable m \<longleftrightarrow> (ps_state (mg_state m) = StateAuthenticated \<longrightarrow> (\<exists>d. mg_disk m = Some d \<and> ps_state d = StateAuthenticated))"

lemma durable_fail [simp]: "auth_durable (snd (persistLocked (failClosedLocked m)))"
  by (simp add: auth_durable_def persistLocked_def failClosedLocked_def split: list.split)

lemma durable_persist_or_fail [simp]: "auth_durable (snd (persist_or_fail m))"
proof (cases "fst (persistLocked m)")
  case True
  then show ?thesis by (auto simp: persist_or_fail_def case_prod_beta' auth_durable_def persistLocked_def split: list.splits)
next
  case False
  then show ?thesis by (simp add: persist_or_fail_def case_prod_beta')
qed

lemma durable_lease [simp]:
  "auth_durable (m\<lparr>mg_lease := x\<rparr>) = auth_durable m" "auth_durable (m\<lparr>mg_transitioning := b\<rparr>) = auth_durable m"
  "auth_durable (m\<lparr>mg_transitioning := b, mg_lease := x\<rparr>) = auth_durable m"
  by (simp_all add: auth_durable_def)

lemma durable_expire [simp]: "auth_durable m \<Longrightarrow> auth_durable (snd (expirePendingLocked now m))"
  by (simp add: expirePendingLocked_def Let_def)

lemma durable_terminalize [simp]: "auth_durable (terminalize i x st reason now m)"
  by (simp add: terminalize_def)

lemma durable_start [simp]: "auth_durable m \<Longrightarrow> auth_durable (snd (start_operation i c now m))"
  by (auto simp: start_operation_def Let_def auth_durable_def persistLocked_def record_command_def set_operation_def bump_revision_def split: list.split)

lemma durable_commit [simp]: "auth_durable (snd (commit_operation i x now m))"
  by (auto simp: commit_operation_def Let_def case_prod_beta') (auto simp: auth_durable_def persistLocked_def bump_revision_def drop_cancel_def split: list.splits)

lemma auth_step_durable: "auth_step m m' \<Longrightarrow> auth_durable m \<Longrightarrow> auth_durable m'"
  by (induction rule: auth_step.induct)
     (auto simp: ProviderAuthReady_def AuthSnapshot_def AuthOperation_def expireOperation_def recordReplacementCleanupFailure_def AuthStart_def
       AuthCancel_def check_begin_def check_end_def refresh_begin_def refresh_end_def logout_begin_def logout_end_def finish_begin_def finish_end_def
       Let_def case_prod_beta' split: option.split)

lemma open_durable: "Open node bootstrap now writes disk = Some m \<Longrightarrow> ps_state (mg_state m) \<noteq> StateAuthenticated \<and> \<not> any_pending m \<and> mg_lease m = None"
  by (auto simp: Open_def persistLocked_def open_state_def Let_def any_pending_def list_ex_iff settle_def pending_def
      split: if_splits option.splits list.splits)

lemma open_auth_durable: "Open node bootstrap now writes disk = Some m \<Longrightarrow> auth_durable m"
  using open_durable by (simp add: auth_durable_def)

interpretation auth_persisted: auth_invariant auth_durable
  by unfold_locales (rule open_auth_durable, assumption, rule open_auth_durable, assumption, rule auth_step_durable)

text \<open>Runs without a restart, and what they never take back: receipts and settled operations.\<close>

definition auth_steps :: "manager \<Rightarrow> manager \<Rightarrow> bool" where
  "auth_steps = auth_step\<^sup>*\<^sup>*"

definition auth_keeps :: "manager \<Rightarrow> manager \<Rightarrow> bool" where
  "auth_keeps m m' \<longleftrightarrow> mg_node m' = mg_node m \<and>
     (\<forall>c r. map_of (ps_commands (mg_state m)) c = Some r \<longrightarrow> map_of (ps_commands (mg_state m')) c = Some r) \<and>
     (\<forall>i x. map_of (ps_operations (mg_state m)) i = Some x \<longrightarrow> \<not> pending x \<longrightarrow> map_of (ps_operations (mg_state m')) i = Some x)"

lemma keeps_quiet: "quiet_step m m' \<Longrightarrow> auth_keeps m m'"
  by (auto simp: quiet_step_def quiet_def auth_keeps_def intro: settles_final)

lemma keeps_refl [simp]: "auth_keeps m m"
  by (simp add: auth_keeps_def)

lemma keeps_trans: "auth_keeps m n \<Longrightarrow> auth_keeps n k \<Longrightarrow> auth_keeps m k"
  by (simp add: auth_keeps_def)

lemma keeps_lease [simp]:
  "auth_keeps m (n\<lparr>mg_lease := x\<rparr>) = auth_keeps m n" "auth_keeps m (n\<lparr>mg_transitioning := b, mg_lease := x\<rparr>) = auth_keeps m n"
  "auth_keeps (m\<lparr>mg_lease := x\<rparr>) n = auth_keeps m n" "auth_keeps (m\<lparr>mg_transitioning := b, mg_lease := x\<rparr>) n = auth_keeps m n"
  "auth_keeps (m\<lparr>mg_transitioning := b\<rparr>) n = auth_keeps m n" "auth_keeps m (n\<lparr>mg_transitioning := b\<rparr>) = auth_keeps m n"
  by (simp_all add: auth_keeps_def)

lemma keeps_expire [simp]: "auth_keeps m (snd (expirePendingLocked now m))"
  by (rule keeps_quiet [OF quiet_expire])

lemma keeps_record: "receipt_free c (mg_state m) \<Longrightarrow> auth_keeps m (record_command c r m)"
  by (auto simp: auth_keeps_def record_command_def receipt_free_def set_update_fresh map_of_eq_None_iff map_add_def split: option.split)

lemma keeps_start: "receipt_free c (mg_state m) \<Longrightarrow> i \<notin> fst ` set (ps_operations (mg_state m)) \<Longrightarrow> auth_keeps m (snd (start_operation i c now m))"
  by (auto simp: start_operation_def Let_def persistLocked_def record_command_def set_operation_def bump_revision_def auth_keeps_def
      receipt_free_def set_update_fresh delete_update_fresh map_of_eq_None_iff map_add_def split: list.split option.split)

lemma start_keeps:
  assumes "auth_inv m" and "\<And>i. fresh = Some i \<Longrightarrow> i \<notin> fst ` set (ps_operations (mg_state m))"
  shows "auth_keeps m (snd (AuthStart rq busy now fresh m))"
proof -
  obtain ok m' where e: "expirePendingLocked now m = (ok, m')" by (cases "expirePendingLocked now m") auto
  have k: "auth_keeps m m'" using keeps_expire [of m now] by (simp add: e)
  have "i \<notin> fst ` set (ps_operations (mg_state m'))" if "fresh = Some i" for i
    using assms(2) [OF that] expire_inv [OF assms(1) e] settles_keys by (metis list.set_map quiet_def)
  then have "auth_keeps m (snd (start_operation i (sr_command rq) now m'))" if "fresh = Some i" "receipt_free (sr_command rq) (mg_state m')" for i
    using keeps_trans [OF k keeps_start [OF that(2)]] that(1) by blast
  then show ?thesis using k capacity_free [of m' "sr_command rq"] by (auto simp: AuthStart_def e split: option.split)
qed

lemma cancel_keeps: "auth_keeps m (snd (AuthCancel i cq now m))"
proof -
  obtain ok m' where e: "expirePendingLocked now m = (ok, m')" by (cases "expirePendingLocked now m") auto
  have k: "auth_keeps m m'" using keeps_expire [of m now] by (simp add: e)
  have p: "auth_keeps n (snd (persist_or_fail (bump_revision n)))" for n
    by (rule keeps_quiet [OF quiet_step_trans [OF quiet_bump quiet_persist_or_fail]])
  have d: "auth_keeps n (drop_cancel i (set_operation i (settle OperationCancelled r now x) n))"
    if "map_of (ps_operations (mg_state n)) i = Some x" "pending x" for n x r
    using keeps_quiet [OF quiet_step_trans [OF quiet_set [OF that] quiet_drop]] by simp
  have ops: "ps_operations (mg_state (record_command c r m')) = ps_operations (mg_state m')" for c r by (simp add: record_command_def)
  have r: "auth_keeps m (record_command (cq_command cq) r m')" if "receipt_free (cq_command cq) (mg_state m')" for r
    by (rule keeps_trans [OF k keeps_record [OF that]])
  show ?thesis using k r capacity_free [of m' "cq_command cq"] ops
    by (auto simp: AuthCancel_def e Let_def case_prod_beta' split: option.split intro: keeps_trans [OF _ p] keeps_trans [OF keeps_trans [OF _ d] p])
qed

lemma checked_keeps:
  assumes "auth_inv m" and "mg_lease m = Some (CheckLease c)"
  shows "auth_keeps m (snd (check_end r now c m))"
proof -
  let ?m = "m\<lparr>mg_lease := None\<rparr>"
  obtain ok m' where e: "expirePendingLocked now ?m = (ok, m')" by (cases "expirePendingLocked now ?m") auto
  have k: "auth_keeps m m'" using keeps_expire [of ?m now] by (simp add: e)
  have "auth_inv ?m" "receipt_free c (mg_state m)" using assms by (auto simp: auth_inv_def lease_ok_def)
  then have "receipt_free c (mg_state m')" using expire_inv [OF _ e] by (simp add: receipt_free_def quiet_def)
  from keeps_trans [OF keeps_record [OF this] keeps_quiet [OF quiet_step_trans [OF quiet_bump quiet_step_trans [OF quiet_probe quiet_persist_or_fail]]]] k
  show ?thesis by (auto simp: check_end_def e case_prod_beta' intro: keeps_trans)
qed

lemma logged_out_keeps:
  assumes "auth_inv m" and "mg_lease m = Some (LogoutLease c)"
  shows "auth_keeps m (snd (logout_end b now c m))"
proof -
  let ?m = "m\<lparr>mg_transitioning := False, mg_lease := None\<rparr>"
  have f: "receipt_free c (mg_state ?m)" using assms by (auto simp: auth_inv_def lease_ok_def)
  have "quiet_step n (n\<lparr>mg_state := (mg_state n)\<lparr>ps_state := a, ps_reason := x, ps_checked := y\<rparr>\<rparr>)" for n a x y
    by (simp add: quiet_step_def quiet_def)
  from keeps_trans [OF keeps_record [OF f] keeps_quiet [OF quiet_step_trans [OF this quiet_step_trans [OF quiet_bump quiet_persist_or_fail]]]]
  show ?thesis using keeps_quiet [OF quiet_fail_persist, of ?m] by (simp add: logout_end_def Let_def case_prod_beta')
qed

lemma refreshed_keeps: "auth_keeps m (snd (refresh_end r now m))"
proof -
  let ?m = "m\<lparr>mg_lease := None\<rparr>"
  have "auth_keeps m (snd (expirePendingLocked now ?m))" using keeps_expire [of ?m now] by (simp only: keeps_lease)
  from this keeps_trans [OF this keeps_quiet [OF quiet_step_trans [OF quiet_bump quiet_step_trans [OF quiet_probe quiet_persist_or_fail]]]]
  show ?thesis by (simp add: refresh_end_def case_prod_beta')
qed

lemma finish_keeps: "auth_keeps m (snd (finish_begin ctx gate now i r' p m))"
proof -
  obtain ok m' where e: "expirePendingLocked now m = (ok, m')" by (cases "expirePendingLocked now m") auto
  have k: "auth_keeps m m'" using keeps_expire [of m now] by (simp add: e)
  have "auth_keeps m (terminalize i x st reason now m')"
    if "map_of (ps_operations (mg_state m')) i = Some x" "pending x" "st \<noteq> OperationPending" for x st reason
    by (rule keeps_trans [OF k keeps_quiet [OF quiet_terminalize [OF that]]])
  with k show ?thesis by (auto simp: finish_begin_def e Let_def split: option.split)
qed

lemma committed_keeps: "auth_keeps m (snd (finish_end ctx b now i m))"
proof -
  let ?m = "m\<lparr>mg_transitioning := False, mg_lease := None\<rparr>"
  obtain ok m' where e: "expirePendingLocked now ?m = (ok, m')" by (cases "expirePendingLocked now ?m") auto
  have k: "auth_keeps m m'" using keeps_expire [of ?m now] by (simp add: e)
  have "auth_keeps m (terminalize i x st reason now m')"
    if "map_of (ps_operations (mg_state m')) i = Some x" "pending x" "st \<noteq> OperationPending" for x st reason
    by (rule keeps_trans [OF k keeps_quiet [OF quiet_terminalize [OF that]]])
  moreover have "auth_keeps m (snd (commit_operation i x now m'))" if "map_of (ps_operations (mg_state m')) i = Some x" "pending x" for x
    by (rule keeps_trans [OF k keeps_quiet [OF auth_commit_quiet [OF that]]])
  ultimately show ?thesis using k by (auto simp: finish_end_def e Let_def split: option.split)
qed

lemma begin_keeps:
  "auth_keeps m (snd (ProviderAuthReady now m))" "auth_keeps m (snd (AuthSnapshot n now m))" "auth_keeps m (snd (AuthOperation n i now m))"
  "auth_keeps m (snd (check_begin cq now m))" "auth_keeps m (snd (refresh_begin now m))" "auth_keeps m (snd (logout_begin cq busy now m))"
  by (simp_all add: ProviderAuthReady_def AuthSnapshot_def AuthOperation_def check_begin_def refresh_begin_def logout_begin_def case_prod_beta'
      split: option.split)

lemma auth_step_keeps: "auth_step m m' \<Longrightarrow> auth_inv m \<Longrightarrow> auth_keeps m m'"
  by (induction rule: auth_step.induct)
     (auto intro: begin_keeps start_keeps cancel_keeps checked_keeps logged_out_keeps refreshed_keeps finish_keeps committed_keeps
       keeps_quiet [OF quiet_expireOperation] keeps_quiet [OF quiet_cleanup])

lemma auth_steps_keep: "auth_steps m m' \<Longrightarrow> auth_inv m \<Longrightarrow> auth_inv m' \<and> auth_keeps m m'"
  unfolding auth_steps_def
  by (induction rule: rtranclp_induct) (auto intro: auth_step_inv keeps_trans auth_step_keeps)

section \<open>Properties\<close>

text \<open>
  C31: readiness of the provider is sound. Whenever the manager reports that the provider is ready, in
  any reachable state and after any restart, the credential was accepted by a probe or a commit whose
  result is on disk, no replacement is pending, and no commit or logout of the credential is under way.
\<close>

theorem provider_ready_sound:
  assumes "auth_reachable m" and "ProviderAuthReady now m = (True, m')"
  shows "(\<exists>d. mg_disk m' = Some d \<and> ps_state d = StateAuthenticated) \<and> \<not> any_pending m' \<and>
    (\<forall>c. mg_lease m' \<noteq> Some (LogoutLease c) \<and> mg_lease m' \<noteq> Some (CommitLease c))"
proof -
  have s: "auth_step m m'" using auth_ready [of m now] assms(2) by simp
  have "auth_durable m'" by (rule auth_step_durable [OF s auth_persisted.reachable_holds [OF assms(1)]])
  moreover have "lease_ok m'" using auth_step_inv [OF s auth_bounds.reachable_holds [OF assms(1)]] by (simp add: auth_inv_def)
  moreover have "ps_state (mg_state m') = StateAuthenticated" "\<not> mg_transitioning m'" "\<not> any_pending m'"
    using assms(2) by (auto simp: ProviderAuthReady_def case_prod_beta')
  ultimately show ?thesis by (auto simp: auth_durable_def lease_ok_def)
qed

text \<open>
  C34: the books of the manager are bounded and consistent. In every reachable state there are at most
  4096 receipts, at most one operation is pending, identities are unique, and every operation has the
  receipt of the command that started it; the file never holds more than 4096 receipts either.
\<close>

theorem auth_receipts_bounded:
  assumes "auth_reachable m"
  shows "length (ps_commands (mg_state m)) \<le> maxCommandReceipts \<and> length (filter (\<lambda>p. pending (snd p)) (ps_operations (mg_state m))) \<le> 1 \<and>
    distinct (map fst (ps_operations (mg_state m))) \<and> distinct (map fst (ps_commands (mg_state m))) \<and>
    (\<forall>i x. map_of (ps_operations (mg_state m)) i = Some x \<longrightarrow>
       map_of (ps_commands (mg_state m)) (op_command x) = Some \<lparr>cr_kind = ''start:secret'', cr_operation = i\<rparr>) \<and>
    (\<forall>d. mg_disk m = Some d \<longrightarrow> length (ps_commands d) \<le> maxCommandReceipts)"
  using auth_bounds.reachable_holds [OF assms] by (auto simp: auth_inv_def auth_ok_def dest: map_of_SomeD)

text \<open>
  C32: within one run of the process, a settled operation is final and a receipt is never forgotten.
  Whatever sections run, in whatever order, until the next restart: an operation that succeeded,
  failed, expired or was cancelled keeps its status, its reason and its time, and a command that
  has a receipt keeps it. A restart continues from the file, which lacks what could not be written.
\<close>

theorem auth_operation_final:
  assumes "auth_reachable m" and "auth_steps m m'"
  shows "(map_of (ps_operations (mg_state m)) i = Some x \<longrightarrow> op_status x \<noteq> OperationPending \<longrightarrow> map_of (ps_operations (mg_state m')) i = Some x) \<and>
    (map_of (ps_commands (mg_state m)) c = Some r \<longrightarrow> map_of (ps_commands (mg_state m')) c = Some r)"
  using auth_steps_keep [OF assms(2) auth_bounds.reachable_holds [OF assms(1)]] by (auto simp: auth_keeps_def pending_def)

lemma expire_answer: "fst (expirePendingLocked now m) \<longleftrightarrow>
    (\<forall>p \<in> set (ps_operations (mg_state m)). \<not> expirable now (snd p)) \<or> (\<exists>rest. mg_writes m = Written # rest)"
  by (auto 4 4 simp: expirePendingLocked_def Let_def filter_empty_conv persist_or_fail_def persistLocked_def Bex_def split: list.split prod.split)

lemma expire_nothing: "\<forall>p \<in> set (ps_operations (mg_state m)). \<not> expirable now (snd p) \<Longrightarrow> expirePendingLocked now m = (True, m)"
  by (auto simp: expirePendingLocked_def Let_def filter_empty_conv)

text \<open>
  C33: within one run of the process, a login command is idempotent. Once a start command has its
  receipt, repeating it later, with any secret that passes the syntax check and whether or not the
  node is busy, starts nothing and is answered with the operation of the first time. The one
  exception is an operation whose deadline has passed and whose expiry cannot be saved: then, and
  only then, the answer is that the provider is unavailable. With nothing to expire the manager is
  left exactly as it was; in any case the receipts and the identities of the operations are.
\<close>

theorem auth_start_idempotent:
  assumes "auth_reachable m" and "auth_steps m m'"
    and "map_of (ps_commands (mg_state m)) (sr_command rq) = Some \<lparr>cr_kind = ''start:secret'', cr_operation = i\<rparr>"
    and "sr_node rq = mg_node m" and "uuidPattern (sr_command rq)" and "sr_method rq = ''secret''"
    and "sr_secret rq \<noteq> []" and "length (sr_secret rq) \<le> 16 * 1024" and "\<not> containsControl (sr_secret rq)"
  shows "\<exists>m''. AuthStart rq busy now fresh m' =
      (if (\<forall>p \<in> set (ps_operations (mg_state m')). \<not> expirable now (snd p)) \<or> (\<exists>rest. mg_writes m' = Written # rest)
       then Inr (envelopeLocked i m'') else Inl ErrProviderUnavailable, m'') \<and>
    ((\<forall>p \<in> set (ps_operations (mg_state m')). \<not> expirable now (snd p)) \<longrightarrow> m'' = m') \<and>
    ps_commands (mg_state m'') = ps_commands (mg_state m') \<and> map fst (ps_operations (mg_state m'')) = map fst (ps_operations (mg_state m'))"
proof -
  have k: "auth_inv m'" "auth_keeps m m'" using auth_steps_keep [OF assms(2) auth_bounds.reachable_holds [OF assms(1)]] by auto
  obtain ok m'' where e: "expirePendingLocked now m' = (ok, m'')" by (cases "expirePendingLocked now m'") auto
  have q: "quiet (mg_state m') (mg_state m'')" using expire_inv [OF k(1) e] by simp
  have c: "map_of (ps_commands (mg_state m'')) (sr_command rq) = Some \<lparr>cr_kind = ''start:secret'', cr_operation = i\<rparr>" "mg_node m' = sr_node rq"
    using k(2) assms(3,4) q by (simp_all add: auth_keeps_def quiet_def)
  have "AuthStart rq busy now fresh m' = (if ok then Inr (envelopeLocked i m'') else Inl ErrProviderUnavailable, m'')"
    using assms(5-9) c by (simp add: AuthStart_def e)
  moreover have "ok \<longleftrightarrow> (\<forall>p \<in> set (ps_operations (mg_state m')). \<not> expirable now (snd p)) \<or> (\<exists>rest. mg_writes m' = Written # rest)"
    using expire_answer [of now m'] e by simp
  moreover have "(\<forall>p \<in> set (ps_operations (mg_state m')). \<not> expirable now (snd p)) \<longrightarrow> m'' = m'" using expire_nothing e by auto
  moreover have "ps_commands (mg_state m'') = ps_commands (mg_state m')" "map fst (ps_operations (mg_state m'')) = map fst (ps_operations (mg_state m'))"
    using q settles_keys by (simp_all add: quiet_def)
  ultimately show ?thesis by (intro exI [of _ m'']) simp
qed

text \<open>
  C35: a start fails closed. Whatever the file holds, a manager that opens is not ready, has no pending
  operation and holds no lease: every operation that was pending is failed as interrupted, so that a
  persisted credential is never proof and only a later probe or commit opens the provider.
\<close>

theorem auth_open_fails_closed:
  assumes "Open node bootstrap now writes disk = Some m"
  shows "ps_state (mg_state m) \<in> {StateUnknown, StateUnauthenticated} \<and> \<not> any_pending m \<and> mg_lease m = None \<and> \<not> fst (ProviderAuthReady later m) \<and>
    mg_disk m = Some (mg_state m) \<and>
    (\<forall>d i x. disk = Some d \<longrightarrow> map_of (ps_operations d) i = Some x \<longrightarrow> op_status x = OperationPending \<longrightarrow>
       (\<exists>y. map_of (ps_operations (mg_state m)) i = Some y \<and> op_status y = OperationFailed \<and> op_reason y = Some ''interrupted_by_restart''))"
proof -
  obtain firstRun s has where l: "load disk = Some (firstRun, s)" and b: "bootstrap = Some has"
    and m: "mg_state m = open_state firstRun has now s" "mg_disk m = Some (mg_state m)"
    using assms by (auto simp: Open_def persistLocked_def split: if_splits option.splits list.splits)
  have "\<not> any_pending m" using open_durable [OF assms] by simp
  then have "expirePendingLocked later m = (True, m)"
    by (auto simp: expirePendingLocked_def Let_def any_pending_def list_ex_iff filter_empty_conv expirable_def)
  then show ?thesis using open_durable [OF assms] m l
    by (auto simp: ProviderAuthReady_def open_state_def Let_def load_def settle_def pending_def map_of_map split: if_splits option.splits)
qed

text \<open>A login from a fresh volume: start, probe, commit.\<close>

definition sample_login :: StartRequest where
  "sample_login = \<lparr>sr_node = ''00000000-0000-4000-8000-000000000001'', sr_command = ''00000000-0000-4000-8000-0000000000c1'', sr_method = ''secret'',
     sr_secret = ''key''\<rparr>"

definition sample_open :: "manager option" where
  "sample_open = Open ''00000000-0000-4000-8000-000000000001'' (Some False) 0 (replicate 4 Written) None"

definition sample_started :: "manager \<Rightarrow> manager" where
  "sample_started m = snd (AuthStart sample_login False 1 (Some ''a1'') m)"

definition sample_probed :: "manager \<Rightarrow> manager" where
  "sample_probed m = snd (finish_begin ContextLive False 2 ''a1'' ProbeAuthenticated True (sample_started m))"

definition sample_committed :: "manager \<Rightarrow> manager" where
  "sample_committed m = snd (finish_end ContextLive True 3 ''a1'' (sample_probed m))"

definition sample_login_ok :: "manager \<Rightarrow> bool" where
  "sample_login_ok m \<longleftrightarrow> mg_lease m = None \<and> ps_operations (mg_state m) = [] \<and> mg_node m = sr_node sample_login \<and> mg_lease (sample_started m) = None \<and>
     mg_lease (sample_probed m) = Some (CommitLease ''a1'') \<and> fst (ProviderAuthReady 4 (sample_committed m)) \<and>
     map_of (ps_commands (mg_state (sample_started m))) (sr_command sample_login) = Some \<lparr>cr_kind = ''start:secret'', cr_operation = ''a1''\<rparr> \<and>
     uuidPattern (sr_command sample_login) \<and> list_all (\<lambda>p. \<not> expirable 5 (snd p)) (ps_operations (mg_state (sample_committed m)))"

lemma sample_login_fact: "case sample_open of None \<Rightarrow> False | Some m \<Rightarrow> sample_login_ok m"
  by code_simp

lemma sample_login_run:
  obtains m where "Open ''00000000-0000-4000-8000-000000000001'' (Some False) 0 (replicate 4 Written) None = Some m" "sample_login_ok m"
    "auth_reachable (sample_started m)" "auth_steps (sample_started m) (sample_committed m)" "auth_reachable (sample_committed m)"
proof -
  obtain m where m: "sample_open = Some m" "sample_login_ok m" using sample_login_fact by (auto split: option.splits)
  then have r: "auth_reachable m" by (auto simp: sample_open_def intro: auth_first)
  have s: "auth_step m (sample_started m)" using m(2) unfolding sample_started_def by (intro auth_start) (simp_all add: sample_login_ok_def)
  have p: "auth_step (sample_started m) (sample_probed m)"
    using m(2) unfolding sample_probed_def by (intro auth_finish [of _ ProbeAuthenticated True]) (simp_all add: sample_login_ok_def replace_result_def)
  have c: "auth_step (sample_probed m) (sample_committed m)"
    using m(2) unfolding sample_committed_def by (intro auth_committed) (simp add: sample_login_ok_def)
  have "auth_steps (sample_started m) (sample_committed m)"
    unfolding auth_steps_def using p c by (meson converse_rtranclp_into_rtranclp rtranclp.rtrancl_refl)
  moreover have rs: "auth_reachable (sample_started m)" by (rule auth_next [OF r s])
  moreover have "auth_reachable (sample_committed m)" by (rule auth_next [OF auth_next [OF rs p] c])
  ultimately show ?thesis using that [of m] m by (simp add: sample_open_def)
qed

theorem provider_ready_sound_witness:
  "\<exists>m m' d. auth_reachable m \<and> ProviderAuthReady 4 m = (True, m') \<and> mg_disk m' = Some d \<and> ps_state d = StateAuthenticated"
proof -
  obtain m where m: "sample_login_ok m" "auth_reachable (sample_committed m)" by (rule sample_login_run)
  obtain m' where "ProviderAuthReady 4 (sample_committed m) = (True, m')"
    using m(1) by (cases "ProviderAuthReady 4 (sample_committed m)") (auto simp: sample_login_ok_def)
  from provider_ready_sound [OF m(2) this] this m(2) show ?thesis by blast
qed

theorem auth_receipts_bounded_witness:
  "\<exists>m. auth_reachable m \<and> ps_commands (mg_state m) \<noteq> [] \<and> length (ps_commands (mg_state m)) \<le> maxCommandReceipts"
proof -
  obtain m where m: "sample_login_ok m" "auth_reachable (sample_started m)" by (rule sample_login_run)
  then have "ps_commands (mg_state (sample_started m)) \<noteq> []" by (auto simp: sample_login_ok_def)
  with auth_receipts_bounded [OF m(2)] m(2) show ?thesis by blast
qed

theorem auth_operation_final_witness:
  "\<exists>m m' c r. auth_reachable m \<and> auth_steps m m' \<and> map_of (ps_commands (mg_state m)) c = Some r \<and> map_of (ps_commands (mg_state m')) c = Some r"
proof -
  obtain m where m: "sample_login_ok m" "auth_reachable (sample_started m)" "auth_steps (sample_started m) (sample_committed m)" by (rule sample_login_run)
  have "map_of (ps_commands (mg_state (sample_started m))) (sr_command sample_login) = Some \<lparr>cr_kind = ''start:secret'', cr_operation = ''a1''\<rparr>"
    using m(1) by (simp add: sample_login_ok_def)
  with auth_operation_final [OF m(2,3)] m(2,3) show ?thesis by blast
qed

theorem auth_start_idempotent_witness:
  "\<exists>m m'. auth_reachable m \<and> auth_steps m m' \<and> AuthStart sample_login True 5 None m' = (Inr (envelopeLocked ''a1'' m'), m')"
proof -
  obtain m where m: "sample_login_ok m" "auth_reachable (sample_started m)" "auth_steps (sample_started m) (sample_committed m)"
    "Open ''00000000-0000-4000-8000-000000000001'' (Some False) 0 (replicate 4 Written) None = Some m" by (rule sample_login_run)
  have k: "auth_inv m" using auth_bounds.reachable_holds [OF auth_first [OF m(4)]] .
  have n: "sr_node sample_login = mg_node (sample_started m)"
    using start_keeps [OF k, of "Some ''a1''" sample_login False 1] m(1) by (simp add: sample_started_def auth_keeps_def sample_login_ok_def)
  have z: "\<forall>p \<in> set (ps_operations (mg_state (sample_committed m))). \<not> expirable 5 (snd p)"
    using m(1) by (auto simp: sample_login_ok_def list_all_iff)
  from auth_start_idempotent [OF m(2,3) _ n, of "''a1''" True 5 None] m(1-3) z show ?thesis
    by (auto simp: sample_login_ok_def sample_login_def containsControl_def)
qed

theorem auth_open_fails_closed_witness:
  "\<exists>m. Open ''00000000-0000-4000-8000-000000000001'' (Some False) 0 (replicate 4 Written) None = Some m \<and> \<not> fst (ProviderAuthReady 9 m)"
proof -
  obtain m where m: "Open ''00000000-0000-4000-8000-000000000001'' (Some False) 0 (replicate 4 Written) None = Some m" by (rule sample_login_run)
  with auth_open_fails_closed [OF m, of 9] show ?thesis by blast
qed

end
