(* ===== verification/Settings.thy ===== *)
theory Settings
  imports LogicalDelete ProviderAuth
begin

text \<open>
  Node settings of \<open>nodesettings\<close>: a draft and an applied snapshot with revisions and the apply
  operations, kept in one file. Every method is one critical section under \<open>mu\<close>; \<open>executeApply\<close> is a
  job that runs its sections one after the other (two checks against the catalogue, draining,
  restart, verification, completion or roll back) while other methods run between them. The start
  gate, the catalogue, the answer of the applier, the outcome of a file write, clock texts and fresh
  identities are arguments, and so is \<open>url.Parse\<close>. The settings part of \<open>Managed.config\<close>
  (\<open>adapters/cursor/managed.go\<close>), from which every worker is built, is part of the state. A worker that
  provider authentication has prepared and not yet installed keeps the configuration it was built
  from and is not modelled. The file holds a value, with the length of its encoding.
\<close>

section \<open>Types\<close>

definition MCPDocumentSchemaID :: string where "MCPDocumentSchemaID = ''harness-mcp-document-v2''"
definition SettingsSchemaID :: string where "SettingsSchemaID = ''harness-node-settings-v2''"
definition ModelCatalogSchemaID :: string where "ModelCatalogSchemaID = ''harness-model-catalog-v2''"
definition maximumServers :: nat where "maximumServers = 50"
definition nativeMCPTimeoutMetadataMS :: int where "nativeMCPTimeoutMetadataMS = 30000"

text \<open>
  The documents of the interface. Members that no code of the package sets are left out: the path of
  an error, the observations of an envelope, \<open>toolCalling\<close> and \<open>nextCursor\<close> of the catalogue.
\<close>

record Inference =
  if_model :: "string option"
  if_speed :: "string option"
  if_effort :: "string option"

record MCPAuth =
  au_kind :: string
  au_configured :: bool
  au_action :: string
  au_secret :: string

record MCPServer =
  sv_id :: string
  sv_name :: string
  sv_enabled :: bool
  sv_transport :: string
  sv_url :: string
  sv_timeout :: int
  sv_auth :: MCPAuth

text \<open>A slice that may be \<open>nil\<close> is an option where the code asks for it.\<close>

record MCPDocument =
  md_schema :: string
  md_servers :: "MCPServer list option"

record settings_snapshot =
  ss_inference :: Inference
  ss_document :: MCPDocument
  ss_servers :: "MCPServer list option"

record privateMCP =
  pm_id :: string
  pm_name :: string
  pm_enabled :: bool
  pm_transport :: string
  pm_url :: string
  pm_timeout :: int
  pm_token :: string

record privateSnapshot =
  pv_servers :: "privateMCP list"
  pv_inference :: Inference

record apply_operation =
  ao_id :: string
  ao_command :: string
  ao_target :: int
  ao_previous :: int
  ao_status :: string
  ao_phase :: string
  ao_reason :: string
  ao_created :: string
  ao_updated :: string

record operationRecord =
  or_operation :: apply_operation
  or_expected :: int
  or_target_revision :: int
  or_target :: privateSnapshot

record diskState =
  dk_draft_revision :: int
  dk_applied_revision :: int
  dk_draft :: privateSnapshot
  dk_applied :: privateSnapshot
  dk_operations :: "(string \<times> operationRecord) list"

record RuntimeMCPServer =
  rm_id :: string
  rm_transport :: string
  rm_url :: string
  rm_token :: string

record RuntimeConfig =
  rc_model :: string
  rc_params :: "(string \<times> string) list"
  rc_servers :: "RuntimeMCPServer list"

record settings_capabilities =
  sc_provider :: string
  sc_catalog :: string
  sc_model_default :: string
  sc_speed_default :: string
  sc_reasoning_default :: string
  sc_mcp_check :: string
  sc_mcp_timeout :: string
  sc_restart :: string
  sc_mcp_schema :: string
  sc_transports :: "string list"

record settings_envelope =
  se_schema :: string
  se_node :: string
  se_draft_revision :: int
  se_applied_revision :: int
  se_draft :: settings_snapshot
  se_applied :: settings_snapshot
  se_capabilities :: settings_capabilities
  se_operation :: "apply_operation option"

record PutRequest =
  pr_expected :: int
  pr_draft :: settings_snapshot

record apply_request =
  ar_command :: string
  ar_expected :: int
  ar_target :: int

text \<open>The catalogue as the native runtime lists it.\<close>

record NativeParameter =
  np_id :: string
  np_values :: "string list"

record NativeVariant =
  nv_params :: "string \<rightharpoonup> string"
  nv_default :: bool

record NativeModel =
  nm_id :: string
  nm_name :: string
  nm_parameters :: "NativeParameter list"
  nm_variants :: "NativeVariant list"

datatype settings_error = SettingsError nat string

definition invalid_settings :: settings_error where "invalid_settings = SettingsError 400 ''invalid_request''"
definition settings_not_found :: settings_error where "settings_not_found = SettingsError 404 ''not_found''"
definition settings_unavailable :: settings_error where "settings_unavailable = SettingsError 503 ''settings_unavailable''"
definition settings_conflict :: "string \<Rightarrow> settings_error" where "settings_conflict code = SettingsError 409 code"

text \<open>What \<open>net/url\<close> says of a URL: its scheme, its host, whether it has a user, and its fragment.\<close>

record parsed_url =
  pu_scheme :: string
  pu_host :: string
  pu_user :: bool
  pu_fragment :: string

type_synonym url_parser = "string \<Rightarrow> parsed_url option"

section \<open>Validation\<close>

text \<open>\<open>^[a-zA-Z0-9][a-zA-Z0-9._-]{0,63}$\<close> and the pattern of a version 4 UUID.\<close>

definition is_alnum :: "char \<Rightarrow> bool" where
  "is_alnum c \<longleftrightarrow> is_lower c \<or> is_upper c \<or> is_digit c"

fun identifierPattern :: "string \<Rightarrow> bool" where
  "identifierPattern [] = False"
| "identifierPattern (c # s) \<longleftrightarrow> is_alnum c \<and> length s \<le> 63 \<and> list_all (\<lambda>d. is_alnum d \<or> d \<in> set ''._-'') s"

definition uuid4Pattern :: "string \<Rightarrow> bool" where
  "uuid4Pattern = matches (replicate 8 is_hex @ [lit CHR ''-''] @ replicate 4 is_hex @
     [lit CHR ''-'', lit CHR ''4''] @ replicate 3 is_hex @
     [lit CHR ''-'', \<lambda>c. c \<in> set ''89ab''] @ replicate 3 is_hex @
     [lit CHR ''-''] @ replicate 12 is_hex)"

text \<open>
  \<open>strings.TrimSpace(s) == s\<close> for a UTF-8 text: it neither starts nor ends with the encoding of a rune
  with the property White Space.
\<close>

definition white_space :: "string list" where
  "white_space = [[CHR 0x09], [CHR 0x0A], [CHR 0x0B], [CHR 0x0C], [CHR 0x0D], [CHR 0x20], [CHR 0xC2, CHR 0x85], [CHR 0xC2, CHR 0xA0],
     [CHR 0xE1, CHR 0x9A, CHR 0x80], [CHR 0xE2, CHR 0x80, CHR 0xA8], [CHR 0xE2, CHR 0x80, CHR 0xA9], [CHR 0xE2, CHR 0x80, CHR 0xAF],
     [CHR 0xE2, CHR 0x81, CHR 0x9F], [CHR 0xE3, CHR 0x80, CHR 0x80]] @
     map (\<lambda>n. [CHR 0xE2, CHR 0x80, char_of (n :: nat)]) [0x80..<0x8B]"

definition trimmed :: "string \<Rightarrow> bool" where
  "trimmed s \<longleftrightarrow> list_all (\<lambda>w. take (length w) s \<noteq> w \<and> drop (length s - length w) s \<noteq> w) white_space"

definition validText :: "string \<Rightarrow> nat \<Rightarrow> bool" where
  "validText s maximum \<longleftrightarrow> s \<noteq> [] \<and> length s \<le> maximum \<and> trimmed s \<and> CHR 0x00 \<notin> set s"

text \<open>A pointer that is \<open>nil\<close> or points to a good value.\<close>

fun if_given :: "('a \<Rightarrow> bool) \<Rightarrow> 'a option \<Rightarrow> bool" where
  "if_given P None = True"
| "if_given P (Some x) = P x"

definition validTransport :: "string \<Rightarrow> bool" where
  "validTransport t \<longleftrightarrow> t \<in> {''streamable_http'', ''sse''}"

definition validURL :: "url_parser \<Rightarrow> string \<Rightarrow> bool" where
  "validURL u s = (case u s of None \<Rightarrow> False
     | Some p \<Rightarrow> pu_scheme p \<in> {''http'', ''https''} \<and> pu_host p \<noteq> [] \<and> \<not> pu_user p \<and> pu_fragment p = [])"

definition validOperationStatus :: "string \<Rightarrow> bool" where
  "validOperationStatus s \<longleftrightarrow> s \<in> {''pending'', ''succeeded'', ''failed'', ''cancelled''}"

definition validOperationPhase :: "string \<Rightarrow> bool" where
  "validOperationPhase s \<longleftrightarrow> s \<in> {''preflight'', ''draining'', ''restarting'', ''verifying'', ''complete''}"

definition validSpeed :: "string \<Rightarrow> bool" where
  "validSpeed s \<longleftrightarrow> s \<in> {''off'', ''on'', ''false'', ''true''}"

definition validPrivateMCP :: "url_parser \<Rightarrow> privateMCP \<Rightarrow> bool" where
  "validPrivateMCP u x \<longleftrightarrow> identifierPattern (pm_id x) \<and> validText (pm_name x) 200 \<and> validTransport (pm_transport x) \<and>
     100 \<le> pm_timeout x \<and> pm_timeout x \<le> 120000 \<and> length (pm_token x) \<le> 16384 \<and>
     list_all (\<lambda>c. c \<notin> {CHR 0x0D, CHR 0x0A, CHR 0x00}) (pm_token x) \<and> validURL u (pm_url x)"

definition validPrivateSnapshot :: "url_parser \<Rightarrow> privateSnapshot \<Rightarrow> bool" where
  "validPrivateSnapshot u s \<longleftrightarrow> if_given (\<lambda>t. validText t 200) (if_model (pv_inference s)) \<and> length (pv_servers s) \<le> maximumServers \<and>
     if_given validSpeed (if_speed (pv_inference s)) \<and> if_given (\<lambda>t. validText t 100) (if_effort (pv_inference s)) \<and>
     distinct (map pm_id (pv_servers s)) \<and> list_all (validPrivateMCP u) (pv_servers s)"

definition validOperation :: "url_parser \<Rightarrow> string \<times> operationRecord \<Rightarrow> bool" where
  "validOperation u = (\<lambda>(commandID, r). let x = or_operation r in
     identifierPattern commandID \<and> ao_command x = commandID \<and> uuid4Pattern (ao_id x) \<and> 1 \<le> or_expected r \<and> 1 \<le> or_target_revision r \<and>
     ao_target x = or_target_revision r \<and> validPrivateSnapshot u (or_target r) \<and> 1 \<le> ao_previous x \<and>
     validOperationStatus (ao_status x) \<and> validOperationPhase (ao_phase x) \<and> (ao_reason x = [] \<or> identifierPattern (ao_reason x)) \<and>
     ao_created x \<noteq> [] \<and> ao_updated x \<noteq> [] \<and> parse_time (ao_created x) \<and> parse_time (ao_updated x))"

definition maximumOperations :: nat where "maximumOperations = 4096"

definition validDiskState :: "url_parser \<Rightarrow> diskState \<Rightarrow> bool" where
  "validDiskState u s \<longleftrightarrow> 1 \<le> dk_draft_revision s \<and> 1 \<le> dk_applied_revision s \<and> dk_applied_revision s \<le> dk_draft_revision s \<and>
     if_model (pv_inference (dk_applied s)) \<noteq> None \<and> length (dk_operations s) \<le> maximumOperations \<and>
     validPrivateSnapshot u (dk_draft s) \<and> validPrivateSnapshot u (dk_applied s) \<and> list_all (validOperation u) (dk_operations s)"

definition migrateInference :: "Inference \<Rightarrow> Inference" where
  "migrateInference i = (case if_speed i of None \<Rightarrow> i
     | Some v \<Rightarrow> if v = ''false'' then i\<lparr>if_speed := Some ''off''\<rparr> else if v = ''true'' then i\<lparr>if_speed := Some ''on''\<rparr> else i)"

definition nativeSpeed :: "string \<Rightarrow> string" where
  "nativeSpeed v = (if v = ''off'' then ''false'' else if v = ''on'' then ''true'' else v)"

definition runtimeConfig :: "privateSnapshot \<Rightarrow> RuntimeConfig" where
  "runtimeConfig s = \<lparr>rc_model = (case if_model (pv_inference s) of None \<Rightarrow> [] | Some v \<Rightarrow> v),
     rc_params = (case if_speed (pv_inference s) of None \<Rightarrow> [] | Some v \<Rightarrow> [(''fast'', nativeSpeed v)]) @
       (case if_effort (pv_inference s) of None \<Rightarrow> [] | Some v \<Rightarrow> [(''reasoning_effort'', v)]),
     rc_servers = map (\<lambda>x. \<lparr>rm_id = pm_id x, rm_transport = pm_transport x, rm_url = pm_url x, rm_token = pm_token x\<rparr>)
       (filter pm_enabled (pv_servers s))\<rparr>"

text \<open>
  The token of one server of a draft: removed, kept from the draft before, or replaced. \<open>None\<close> is the
  rejection of the draft.
\<close>

definition draft_secret :: "string \<Rightarrow> MCPAuth \<Rightarrow> string option" where
  "draft_secret secret a = (if au_kind a = ''none'' then (if au_secret a \<noteq> [] \<or> au_action a \<noteq> ''remove'' then None else Some [])
     else if au_kind a = ''bearer'' then
       (if au_action a = ''keep'' then (if secret = [] \<or> au_secret a \<noteq> [] then None else Some secret)
        else if au_action a = ''replace'' then
          (if \<not> validText (au_secret a) 16384 \<or> CHR 0x0D \<in> set (au_secret a) \<or> CHR 0x0A \<in> set (au_secret a) then None else Some (au_secret a))
        else None)
     else None)"

definition draft_server :: "url_parser \<Rightarrow> (string \<rightharpoonup> privateMCP) \<Rightarrow> string list \<Rightarrow> MCPServer \<Rightarrow> privateMCP option" where
  "draft_server u prior seen x = (if sv_id x \<in> set seen \<or> \<not> identifierPattern (sv_id x) \<or> \<not> validText (sv_name x) 200 \<or>
       \<not> validTransport (sv_transport x) \<or> sv_timeout x < 100 \<or> 120000 < sv_timeout x then None
     else if \<not> validURL u (sv_url x) then None
     else map_option (\<lambda>secret. \<lparr>pm_id = sv_id x, pm_name = sv_name x, pm_enabled = sv_enabled x, pm_transport = sv_transport x,
         pm_url = sv_url x, pm_timeout = sv_timeout x, pm_token = secret\<rparr>)
       (draft_secret (case prior (sv_id x) of None \<Rightarrow> [] | Some p \<Rightarrow> pm_token p) (sv_auth x)))"

fun draft_servers :: "url_parser \<Rightarrow> (string \<rightharpoonup> privateMCP) \<Rightarrow> string list \<Rightarrow> MCPServer list \<Rightarrow> privateMCP list option" where
  "draft_servers u prior seen [] = Some []"
| "draft_servers u prior seen (x # xs) = (case draft_server u prior seen x of None \<Rightarrow> None
     | Some p \<Rightarrow> map_option ((#) p) (draft_servers u prior (sv_id x # seen) xs))"

text \<open>The servers of a request: those of the document, or of the first version's field.\<close>

definition requested_servers :: "settings_snapshot \<Rightarrow> MCPServer list option" where
  "requested_servers r = (let d = ss_document r in
     if md_schema d \<noteq> [] \<or> md_servers d \<noteq> None
     then (if md_schema d \<noteq> MCPDocumentSchemaID \<or> ss_servers r \<noteq> None then None else md_servers d)
     else Some (case ss_servers r of None \<Rightarrow> [] | Some xs \<Rightarrow> xs))"

definition validateDraft :: "url_parser \<Rightarrow> settings_snapshot \<Rightarrow> privateSnapshot \<Rightarrow> settings_error + privateSnapshot" where
  "validateDraft u r previous = (case requested_servers r of None \<Rightarrow> Inl invalid_settings
     | Some servers \<Rightarrow> (let i = ss_inference r in
         if \<not> if_given (\<lambda>t. validText t 200) (if_model i) \<or> maximumServers < length servers \<or>
           \<not> if_given (\<lambda>t. validText t 100) (if_speed i) \<or> \<not> if_given (\<lambda>t. validText t 100) (if_effort i) then Inl invalid_settings
         else if \<not> if_given validSpeed (if_speed i) then Inl invalid_settings
         else (case draft_servers u (map_of (rev (map (\<lambda>p. (pm_id p, p)) (pv_servers previous)))) [] servers of
             None \<Rightarrow> Inl invalid_settings
           | Some xs \<Rightarrow> Inr \<lparr>pv_servers = sort_key pm_id xs, pv_inference = migrateInference i\<rparr>)))"

definition publicServer :: "privateMCP \<Rightarrow> MCPServer" where
  "publicServer x = \<lparr>sv_id = pm_id x, sv_name = pm_name x, sv_enabled = pm_enabled x, sv_transport = pm_transport x, sv_url = pm_url x,
     sv_timeout = pm_timeout x, sv_auth = \<lparr>au_kind = (if pm_token x \<noteq> [] then ''bearer'' else ''none''),
       au_configured = (pm_token x \<noteq> []), au_action = [], au_secret = []\<rparr>\<rparr>"

definition publicSnapshot :: "privateSnapshot \<Rightarrow> settings_snapshot" where
  "publicSnapshot s = \<lparr>ss_inference = pv_inference s,
     ss_document = \<lparr>md_schema = MCPDocumentSchemaID, md_servers = Some (map publicServer (pv_servers s))\<rparr>, ss_servers = None\<rparr>"

text \<open>
  \<open>MCPAuth.UnmarshalJSON\<close>: the secret action a client leaves out follows from the kind, and the
  flag \<open>bearerTokenConfigured\<close> (absent, or a value) is not taken over.
\<close>

definition read_auth :: "string \<Rightarrow> string \<Rightarrow> string \<Rightarrow> bool option \<Rightarrow> MCPAuth" where
  "read_auth kind action secret configured = \<lparr>au_kind = kind, au_configured = False,
     au_action = (if action = [] then (if kind = ''none'' then ''remove'' else if kind = ''bearer'' \<and> configured = Some True then ''keep'' else action) else action),
     au_secret = secret\<rparr>"

text \<open>A server as a client gets it and sends it back.\<close>

definition resend_auth :: "MCPAuth \<Rightarrow> MCPAuth" where
  "resend_auth a = read_auth (au_kind a) (au_action a) (au_secret a) (Some (au_configured a))"

definition resend :: "settings_snapshot \<Rightarrow> settings_snapshot" where
  "resend s = s\<lparr>ss_document := (ss_document s)\<lparr>md_servers := map_option (map (\<lambda>x. x\<lparr>sv_auth := resend_auth (sv_auth x)\<rparr>)) (md_servers (ss_document s))\<rparr>\<rparr>"

section \<open>The catalogue\<close>

definition semantic_keys :: "string list" where "semantic_keys = [''fast'', ''reasoning_effort'']"

text \<open>The parameters a configuration leads to: those of the first default variant, then its own.\<close>

definition effective_params :: "RuntimeConfig \<Rightarrow> NativeModel \<Rightarrow> string \<rightharpoonup> string" where
  "effective_params c n = (case find nv_default (nm_variants n) of None \<Rightarrow> Map.empty | Some v \<Rightarrow> nv_params v |` set semantic_keys) ++ map_of (rc_params c)"

definition variant_matches :: "(string \<rightharpoonup> string) \<Rightarrow> NativeVariant \<Rightarrow> bool" where
  "variant_matches effective v \<longleftrightarrow>
     length (filter (\<lambda>k. nv_params v k \<noteq> None) semantic_keys) = length (filter (\<lambda>k. effective k \<noteq> None) semantic_keys) \<and>
     list_all (\<lambda>k. case effective k of None \<Rightarrow> True | Some t \<Rightarrow> (case nv_params v k of None \<Rightarrow> [] | Some t' \<Rightarrow> t') = t) semantic_keys"

definition check_model :: "RuntimeConfig \<Rightarrow> NativeModel \<Rightarrow> string option" where
  "check_model c n = (if rc_params c = [] \<and> (list_ex nv_default (nm_variants n) \<or> nm_variants n = []) then None
     else if \<not> list_all (\<lambda>(k, v). list_ex (\<lambda>p. np_id p = k \<and> v \<in> set (np_values p)) (nm_parameters n)) (rc_params c) then Some ''model_parameter_unsupported''
     else if list_ex (variant_matches (effective_params c n)) (nm_variants n) then None
     else Some ''model_parameters_incompatible'')"

text \<open>The reason why a target cannot run; the catalogue is \<open>None\<close> when there is no source or it fails.\<close>

definition validateRuntime :: "NativeModel list option \<Rightarrow> privateSnapshot \<Rightarrow> string option" where
  "validateRuntime models target = (if if_model (pv_inference target) = None then Some ''model_default_unsupported''
     else if list_ex (\<lambda>x. pm_enabled x \<and> pm_timeout x \<noteq> nativeMCPTimeoutMetadataMS) (pv_servers target) then Some ''mcp_timeout_unsupported''
     else (case models of None \<Rightarrow> Some ''catalog_unavailable''
       | Some ms \<Rightarrow> (let c = runtimeConfig target in case find (\<lambda>n. nm_id n = rc_model c) ms of
             None \<Rightarrow> Some ''model_unavailable'' | Some n \<Rightarrow> check_model c n)))"

record mode =
  mo_id :: string
  mo_default :: bool

record Combination =
  co_speed :: "string option"
  co_effort :: "string option"
  co_default :: bool

record catalog_model =
  cm_id :: string
  cm_name :: string
  cm_efforts :: "mode list"
  cm_speeds :: "mode list"
  cm_combinations :: "Combination list"

record Catalog =
  ct_schema :: string
  ct_node :: string
  ct_revision :: string
  ct_version :: string
  ct_fetched :: string
  ct_state :: string
  ct_models :: "catalog_model list"
  ct_reason :: string

definition public_speed :: "string \<Rightarrow> string" where
  "public_speed v = (if v = ''false'' then ''off'' else if v = ''true'' then ''on'' else v)"

definition combination_of :: "NativeVariant \<Rightarrow> Combination" where
  "combination_of v = \<lparr>co_speed = map_option public_speed (nv_params v ''fast''), co_effort = nv_params v ''reasoning_effort'', co_default = nv_default v\<rparr>"

fun parameter_modes :: "NativeParameter \<Rightarrow> string list \<Rightarrow> NativeVariant list \<Rightarrow> mode list" where
  "parameter_modes p seen [] = []"
| "parameter_modes p seen (v # vs) = (case nv_params v (np_id p) of None \<Rightarrow> parameter_modes p seen vs
     | Some t \<Rightarrow> if t \<in> set seen \<or> t \<notin> set (np_values p) then parameter_modes p seen vs
         else \<lparr>mo_id = (if np_id p = ''fast'' then public_speed t else t), mo_default = nv_default v\<rparr> # parameter_modes p (t # seen) vs)"

definition catalog_entry :: "NativeModel \<Rightarrow> catalog_model" where
  "catalog_entry n = (let modes = (\<lambda>k. concat (map (\<lambda>p. parameter_modes p [] (nm_variants n)) (filter (\<lambda>p. np_id p = k) (nm_parameters n)))) in
     \<lparr>cm_id = nm_id n, cm_name = nm_name n, cm_efforts = modes ''reasoning_effort'', cm_speeds = modes ''fast'',
      cm_combinations = map combination_of (nm_variants n)\<rparr>)"

section \<open>The manager\<close>

datatype settings_file = NoFile | Unreadable | Undecodable | Decoded diskState

text \<open>How far the goroutine \<open>executeApply\<close> has come; the flag is what the gate last said about being busy.\<close>

datatype apply_stage = Queued | Checking | Waiting | Gated bool | Draining bool | Restarting | ChildUp | Verifying | RollingBack

record apply_job =
  jb_record :: operationRecord
  jb_previous :: privateSnapshot
  jb_stage :: apply_stage

text \<open>
  \<open>sm_gate\<close> is the job that holds the start gate, \<open>sm_worker\<close> the settings that \<open>Managed.config\<close> holds and
  \<open>Prepare\<close> and \<open>RestartSettings\<close> build workers from, \<open>sm_adrift\<close> that the roll back of an apply could not
  restore them.
\<close>

record settings_manager =
  sm_node :: string
  sm_version :: string
  sm_source :: bool
  sm_bound :: bool
  sm_state :: diskState
  sm_jobs :: "(string \<times> apply_job) list"
  sm_gate :: "string option"
  sm_worker :: RuntimeConfig
  sm_adrift :: bool
  sm_file :: settings_file
  sm_writes :: "write_answer list"

definition settings_persist :: "settings_manager \<Rightarrow> bool \<times> settings_manager" where
  "settings_persist m = (case sm_writes m of [] \<Rightarrow> (False, m)
     | a # as \<Rightarrow> (a = Written, m\<lparr>sm_writes := as, sm_file := (if a = NotWritten then sm_file m else Decoded (sm_state m))\<rparr>))"

definition migrate_snapshot :: "privateSnapshot \<Rightarrow> privateSnapshot" where
  "migrate_snapshot s = s\<lparr>pv_inference := migrateInference (pv_inference s)\<rparr>"

definition interrupt :: "string \<Rightarrow> operationRecord \<Rightarrow> operationRecord" where
  "interrupt clk r = (if ao_status (or_operation r) = ''pending''
     then r\<lparr>or_operation := (or_operation r)\<lparr>ao_status := ''failed'', ao_reason := ''apply_interrupted'', ao_updated := clk\<rparr>\<rparr> else r)"

definition reopened :: "string \<Rightarrow> diskState \<Rightarrow> diskState" where
  "reopened clk s = s\<lparr>dk_draft := migrate_snapshot (dk_draft s), dk_applied := migrate_snapshot (dk_applied s),
     dk_operations := map (\<lambda>(c, r). (c, interrupt clk (r\<lparr>or_target := migrate_snapshot (or_target r)\<rparr>))) (dk_operations s)\<rparr>"

definition initial_snapshot :: "string \<Rightarrow> privateSnapshot" where
  "initial_snapshot model = \<lparr>pv_servers = [], pv_inference = \<lparr>if_model = Some model, if_speed = None, if_effort = None\<rparr>\<rparr>"

definition initial_state :: "string \<Rightarrow> diskState" where
  "initial_state model = \<lparr>dk_draft_revision = 1, dk_applied_revision = 1, dk_draft = initial_snapshot model, dk_applied = initial_snapshot model, dk_operations = []\<rparr>"

text \<open>
  The state to open with, from the file and its length. The process then builds the child from the
  applied snapshot.
\<close>

definition settings_load :: "url_parser \<Rightarrow> string \<Rightarrow> string \<Rightarrow> nat \<Rightarrow> settings_file \<Rightarrow> diskState option" where
  "settings_load u initialModel clk len f = (case f of Unreadable \<Rightarrow> None | Undecodable \<Rightarrow> None | NoFile \<Rightarrow> Some (initial_state initialModel)
     | Decoded s \<Rightarrow> if 2 ^ 20 < len \<or> \<not> validDiskState u s then None else Some (reopened clk s))"

definition SettingsOpen :: "url_parser \<Rightarrow> string \<Rightarrow> string \<Rightarrow> string \<Rightarrow> bool \<Rightarrow> string \<Rightarrow> write_answer list \<Rightarrow> nat \<Rightarrow> settings_file \<Rightarrow> settings_manager option" where
  "SettingsOpen u nodeID version initialModel source clk writes len f = (if nodeID = [] \<or> initialModel = [] then None
     else case settings_load u initialModel clk len f of None \<Rightarrow> None
       | Some s \<Rightarrow> (case settings_persist \<lparr>sm_node = nodeID, sm_version = version, sm_source = source, sm_bound = False, sm_state = s, sm_jobs = [],
           sm_gate = None, sm_worker = runtimeConfig (dk_applied s), sm_adrift = False, sm_file = f, sm_writes = writes\<rparr> of
           (ok, m) \<Rightarrow> if ok then Some m else None))"

definition BindRuntime :: "settings_manager \<Rightarrow> settings_manager" where
  "BindRuntime m = m\<lparr>sm_bound := True\<rparr>"


text \<open>The operation created last; of two with the same text the one that comes first in the list.\<close>

definition latest_operation :: "(string \<times> operationRecord) list \<Rightarrow> apply_operation option" where
  "latest_operation ops = foldl (\<lambda>best x. case best of None \<Rightarrow> Some x | Some y \<Rightarrow> if ao_created y < ao_created x then Some x else best) None
     (map (\<lambda>(c, r). or_operation r) ops)"

definition settings_answer :: "apply_operation option \<Rightarrow> settings_manager \<Rightarrow> settings_envelope" where
  "settings_answer op m = (let s = sm_state m in
     \<lparr>se_schema = SettingsSchemaID, se_node = sm_node m, se_draft_revision = dk_draft_revision s, se_applied_revision = dk_applied_revision s,
      se_draft = publicSnapshot (dk_draft s), se_applied = publicSnapshot (dk_applied s),
      se_capabilities = \<lparr>sc_provider = ''cursor'', sc_catalog = (if sm_source m then ''available'' else ''unavailable''),
        sc_model_default = ''unsupported'', sc_speed_default = ''supported'', sc_reasoning_default = ''supported'', sc_mcp_check = ''supported'',
        sc_mcp_timeout = ''unsupported'', sc_restart = (if sm_bound m then ''supported'' else ''unsupported''), sc_mcp_schema = MCPDocumentSchemaID,
        sc_transports = [''streamable_http'', ''sse'']\<rparr>,
      se_operation = (case op of None \<Rightarrow> latest_operation (dk_operations s) | Some x \<Rightarrow> Some x)\<rparr>)"

definition SettingsSnapshot :: "bool \<Rightarrow> string \<Rightarrow> settings_manager \<Rightarrow> settings_error + settings_envelope" where
  "SettingsSnapshot gone nodeID m = (if gone \<or> nodeID \<noteq> sm_node m then Inl settings_not_found else Inr (settings_answer None m))"

definition SettingsOperation :: "bool \<Rightarrow> string \<Rightarrow> string \<Rightarrow> settings_manager \<Rightarrow> settings_error + settings_envelope" where
  "SettingsOperation gone nodeID operationID m = (if gone \<or> nodeID \<noteq> sm_node m \<or> operationID = [] then Inl settings_not_found
     else case find (\<lambda>(c, r). ao_id (or_operation r) = operationID) (dk_operations (sm_state m)) of
         None \<Rightarrow> Inl settings_not_found | Some (c, r) \<Rightarrow> Inr (settings_answer (Some (or_operation r)) m))"

definition ModelCatalog :: "bool \<Rightarrow> string \<Rightarrow> string \<Rightarrow> (NativeModel list \<times> string) option \<Rightarrow> settings_manager \<Rightarrow> settings_error + Catalog" where
  "ModelCatalog gone nodeID stamp source m = (if gone \<or> nodeID \<noteq> sm_node m then Inl settings_not_found
     else let base = \<lparr>ct_schema = ModelCatalogSchemaID, ct_node = nodeID, ct_revision = [], ct_version = sm_version m, ct_fetched = stamp, ct_state = ''unavailable'', ct_models = [], ct_reason = []\<rparr> in
       if \<not> sm_source m then Inr (base\<lparr>ct_reason := ''provider_auth_required''\<rparr>)
       else (case source of None \<Rightarrow> Inr (base\<lparr>ct_reason := ''catalog_unavailable''\<rparr>)
         | Some (native, revision) \<Rightarrow> Inr (base\<lparr>ct_state := ''fresh'', ct_revision := revision, ct_models := sort_key cm_id (map catalog_entry native)\<rparr>)))"

record MCPCheck =
  ck_schema :: string
  ck_node :: string
  ck_server :: string
  ck_checked :: string
  ck_state :: string
  ck_reason :: string
  ck_tools :: "int option"

text \<open>The probe's answer is the number of tools and a reason, empty when the server answered.\<close>

definition CheckMCP :: "bool \<Rightarrow> string \<Rightarrow> int \<Rightarrow> string \<Rightarrow> string \<Rightarrow> (privateMCP \<Rightarrow> int \<times> string) \<Rightarrow> settings_manager \<Rightarrow> settings_error + MCPCheck" where
  "CheckMCP gone nodeID expected serverID stamp probe m = (if gone \<or> nodeID \<noteq> sm_node m \<or> \<not> identifierPattern serverID then Inl invalid_settings
     else if expected \<noteq> dk_draft_revision (sm_state m) then Inl (settings_conflict ''revision_conflict'')
     else case find (\<lambda>x. pm_id x = serverID) (pv_servers (dk_draft (sm_state m))) of None \<Rightarrow> Inl settings_not_found
       | Some x \<Rightarrow> (case probe x of (tools, reason) \<Rightarrow>
           Inr \<lparr>ck_schema = SettingsSchemaID, ck_node = nodeID, ck_server = serverID, ck_checked = stamp, ck_state = (if reason \<noteq> [] then ''unavailable'' else ''connected''),
             ck_reason = reason, ck_tools = (if reason = [] \<and> pm_transport x = ''streamable_http'' then Some tools else None)\<rparr>))"

definition PutDraft :: "url_parser \<Rightarrow> bool \<Rightarrow> string \<Rightarrow> PutRequest \<Rightarrow> settings_manager \<Rightarrow> (settings_error + settings_envelope) \<times> settings_manager" where
  "PutDraft u gone nodeID rq m = (if gone \<or> nodeID \<noteq> sm_node m then (Inl settings_not_found, m)
     else if pr_expected rq \<noteq> dk_draft_revision (sm_state m) then (Inl (settings_conflict ''revision_conflict''), m)
     else case validateDraft u (pr_draft rq) (dk_draft (sm_state m)) of Inl e \<Rightarrow> (Inl e, m)
       | Inr d \<Rightarrow> (let s = sm_state m in
           case settings_persist (m\<lparr>sm_state := s\<lparr>dk_draft := d, dk_draft_revision := dk_draft_revision s + 1\<rparr>\<rparr>) of (ok, m') \<Rightarrow>
             if ok then (Inr (settings_answer None m'), m')
             else (Inl settings_unavailable, m'\<lparr>sm_state := (sm_state m')\<lparr>dk_draft := dk_draft s, dk_draft_revision := dk_draft_revision s\<rparr>\<rparr>)))"

section \<open>Applying a draft\<close>

definition apply_pending :: "operationRecord \<Rightarrow> bool" where
  "apply_pending r \<longleftrightarrow> ao_status (or_operation r) = ''pending''"

definition set_record :: "string \<Rightarrow> operationRecord \<Rightarrow> settings_manager \<Rightarrow> settings_manager" where
  "set_record c r m = m\<lparr>sm_state := (sm_state m)\<lparr>dk_operations := AList.update c r (dk_operations (sm_state m))\<rparr>\<rparr>"

definition new_record :: "string \<Rightarrow> string \<Rightarrow> apply_request \<Rightarrow> diskState \<Rightarrow> operationRecord" where
  "new_record fresh clk rq s = \<lparr>or_operation = \<lparr>ao_id = fresh, ao_command = ar_command rq, ao_target = dk_draft_revision s,
       ao_previous = dk_applied_revision s, ao_status = ''pending'', ao_phase = ''preflight'', ao_reason = [], ao_created = clk, ao_updated = clk\<rparr>,
     or_expected = ar_expected rq, or_target_revision = ar_target rq, or_target = dk_draft s\<rparr>"

definition SettingsApply :: "bool \<Rightarrow> string \<Rightarrow> apply_request \<Rightarrow> string \<Rightarrow> string \<Rightarrow> settings_manager \<Rightarrow> (settings_error + settings_envelope) \<times> settings_manager" where
  "SettingsApply gone nodeID rq fresh clk m = (let s = sm_state m; c = ar_command rq in
     if gone \<or> nodeID \<noteq> sm_node m \<or> \<not> identifierPattern c then (Inl invalid_settings, m)
     else case map_of (dk_operations s) c of
       Some r \<Rightarrow> if or_expected r \<noteq> ar_expected rq \<or> or_target_revision r \<noteq> ar_target rq then (Inl (settings_conflict ''command_conflict''), m)
           else (Inr (settings_answer (Some (or_operation r)) m), m)
     | None \<Rightarrow> if ar_expected rq \<noteq> dk_draft_revision s \<or> ar_target rq \<noteq> dk_draft_revision s then (Inl (settings_conflict ''revision_conflict''), m)
         else if \<not> sm_bound m then (Inl settings_unavailable, m)
         else if list_ex (\<lambda>(c', r). apply_pending r) (dk_operations s) then (Inl (settings_conflict ''apply_in_progress''), m)
         else (let r = new_record fresh clk rq s in case settings_persist (set_record c r m) of (ok, m') \<Rightarrow>
             if ok then (let m'' = m'\<lparr>sm_jobs := AList.update c \<lparr>jb_record = r, jb_previous = dk_applied s, jb_stage = Queued\<rparr> (sm_jobs m')\<rparr> in
               (Inr (settings_answer (Some (or_operation r)) m''), m''))
             else (Inl settings_unavailable, m'\<lparr>sm_state := (sm_state m')\<lparr>dk_operations := AList.delete c (dk_operations (sm_state m'))\<rparr>\<rparr>)))"

text \<open>Go's zero record for a command that is not in the map.\<close>

definition zero_record :: operationRecord where
  "zero_record = \<lparr>or_operation = \<lparr>ao_id = [], ao_command = [], ao_target = 0, ao_previous = 0, ao_status = [], ao_phase = [], ao_reason = [],
       ao_created = [], ao_updated = []\<rparr>, or_expected = 0, or_target_revision = 0,
     or_target = \<lparr>pv_servers = [], pv_inference = \<lparr>if_model = None, if_speed = None, if_effort = None\<rparr>\<rparr>\<rparr>"

definition record_of :: "string \<Rightarrow> settings_manager \<Rightarrow> operationRecord" where
  "record_of c m = (case map_of (dk_operations (sm_state m)) c of None \<Rightarrow> zero_record | Some r \<Rightarrow> r)"

definition mark :: "string \<Rightarrow> string \<Rightarrow> string \<Rightarrow> string \<Rightarrow> operationRecord \<Rightarrow> operationRecord" where
  "mark status phase reason clk r = r\<lparr>or_operation := (or_operation r)\<lparr>ao_status := status, ao_phase := phase, ao_reason := reason, ao_updated := clk\<rparr>\<rparr>"

definition updateOperation :: "string \<Rightarrow> string \<Rightarrow> string \<Rightarrow> string \<Rightarrow> privateSnapshot option \<Rightarrow> string \<Rightarrow> settings_manager \<Rightarrow> bool \<times> settings_manager" where
  "updateOperation c status phase reason applied clk m = (let old = record_of c m; r = mark status phase reason clk old; m1 = set_record c r m;
       m2 = (case applied of None \<Rightarrow> m1 | Some p \<Rightarrow> m1\<lparr>sm_state := (sm_state m1)\<lparr>dk_applied := p, dk_applied_revision := or_target_revision r\<rparr>\<rparr>) in
     case settings_persist m2 of (ok, m3) \<Rightarrow> if ok then (True, m3)
       else (False, set_record c (mark ''failed'' phase ''settings_unavailable'' clk old)
         (m3\<lparr>sm_state := (sm_state m3)\<lparr>dk_applied := dk_applied (sm_state m), dk_applied_revision := dk_applied_revision (sm_state m)\<rparr>\<rparr>)))"

section \<open>The job of an apply\<close>

definition job_at :: "string \<Rightarrow> settings_manager \<Rightarrow> apply_stage option" where
  "job_at c m = map_option jb_stage (map_of (sm_jobs m) c)"

definition job_target :: "string \<Rightarrow> settings_manager \<Rightarrow> privateSnapshot" where
  "job_target c m = (case map_of (sm_jobs m) c of None \<Rightarrow> or_target zero_record | Some j \<Rightarrow> or_target (jb_record j))"

definition job_previous :: "string \<Rightarrow> settings_manager \<Rightarrow> privateSnapshot" where
  "job_previous c m = (case map_of (sm_jobs m) c of None \<Rightarrow> or_target zero_record | Some j \<Rightarrow> jb_previous j)"

definition move_job :: "string \<Rightarrow> apply_stage \<Rightarrow> settings_manager \<Rightarrow> settings_manager" where
  "move_job c stg m = m\<lparr>sm_jobs := AList.map_entry c (\<lambda>j. j\<lparr>jb_stage := stg\<rparr>) (sm_jobs m)\<rparr>"

text \<open>The job returns; its deferred \<open>release\<close> frees the gate.\<close>

definition end_job :: "string \<Rightarrow> settings_manager \<Rightarrow> settings_manager" where
  "end_job c m = m\<lparr>sm_jobs := AList.delete c (sm_jobs m), sm_gate := (if sm_gate m = Some c then None else sm_gate m)\<rparr>"

definition job_fails :: "string \<Rightarrow> string \<Rightarrow> string \<Rightarrow> string \<Rightarrow> settings_manager \<Rightarrow> settings_manager" where
  "job_fails c phase reason clk m = end_job c (snd (updateOperation c ''failed'' phase reason None clk m))"

definition job_goes_on :: "string \<Rightarrow> string \<Rightarrow> apply_stage \<Rightarrow> string \<Rightarrow> settings_manager \<Rightarrow> settings_manager" where
  "job_goes_on c phase stg clk m = (case updateOperation c ''pending'' phase [] None clk m of (ok, m') \<Rightarrow> if ok then move_job c stg m' else end_job c m')"

text \<open>
  \<open>RestartSettings\<close> of \<open>adapters/cursor/managed.go\<close>: what it answers (done, failed, failed without a worker)
  and the settings \<open>Managed.config\<close> holds afterwards. The environment: whether there is a worker to
  replace, whether the context is live, the models the new worker lists (\<open>None\<close> when it cannot be built
  or asked), and whether the old worker can be built again.
\<close>

datatype restart_answer = Restarted | NotRestarted | RollbackFailed

record worker_env =
  we_present :: bool
  we_live :: bool
  we_models :: "string list option"
  we_restored :: bool

definition RestartSettings :: "worker_env \<Rightarrow> RuntimeConfig \<Rightarrow> RuntimeConfig \<Rightarrow> restart_answer \<times> RuntimeConfig" where
  "RestartSettings e settings config = (if \<not> we_present e then (NotRestarted, config)
     else if we_live e \<and> (case we_models e of None \<Rightarrow> False | Some ids \<Rightarrow> rc_model settings \<in> set ids) then (Restarted, settings)
     else if we_restored e then (NotRestarted, config) else (RollbackFailed, config))"

lemma restart_config: "RestartSettings e settings config = (a, w) \<Longrightarrow> w = (if a = Restarted then settings else config)"
  by (auto simp: RestartSettings_def split: if_splits)

definition execute_begin :: "string \<Rightarrow> settings_manager \<Rightarrow> settings_manager" where
  "execute_begin c m = m\<lparr>sm_jobs := AList.update c \<lparr>jb_record = record_of c m, jb_previous = dk_applied (sm_state m), jb_stage = Checking\<rparr> (sm_jobs m)\<rparr>"

definition execute_check :: "string \<Rightarrow> NativeModel list option \<Rightarrow> string \<Rightarrow> settings_manager \<Rightarrow> settings_manager" where
  "execute_check c models clk m = (case validateRuntime models (job_target c m) of
      Some reason \<Rightarrow> job_fails c ''preflight'' reason clk m | None \<Rightarrow> move_job c Waiting m)"

definition execute_gate :: "string \<Rightarrow> bool \<Rightarrow> settings_manager \<Rightarrow> settings_manager" where
  "execute_gate c busy m = (move_job c (Gated busy) m)\<lparr>sm_gate := Some c\<rparr>"

definition execute_drain :: "string \<Rightarrow> bool \<Rightarrow> NativeModel list option \<Rightarrow> string \<Rightarrow> settings_manager \<Rightarrow> settings_manager" where
  "execute_drain c busy models clk m = (case validateRuntime models (job_target c m) of
      Some reason \<Rightarrow> job_fails c ''preflight'' reason clk m | None \<Rightarrow> job_goes_on c ''draining'' (Draining busy) clk m)"

text \<open>One turn of the loop that waits until the node is idle: the deadline, or the next look.\<close>

definition execute_wait :: "string \<Rightarrow> bool option \<Rightarrow> string \<Rightarrow> settings_manager \<Rightarrow> settings_manager" where
  "execute_wait c probe clk m = (case probe of None \<Rightarrow> job_fails c ''draining'' ''drain_timeout'' clk m | Some busy \<Rightarrow> move_job c (Draining busy) m)"

definition execute_restart :: "string \<Rightarrow> string \<Rightarrow> settings_manager \<Rightarrow> settings_manager" where
  "execute_restart c clk m = job_goes_on c ''restarting'' Restarting clk m"

definition execute_restarted :: "string \<Rightarrow> worker_env \<Rightarrow> string \<Rightarrow> settings_manager \<Rightarrow> settings_manager" where
  "execute_restarted c e clk m = (case RestartSettings e (runtimeConfig (job_target c m)) (sm_worker m) of (a, w) \<Rightarrow> (case a of
      Restarted \<Rightarrow> (move_job c ChildUp m)\<lparr>sm_worker := w\<rparr>
    | NotRestarted \<Rightarrow> (job_fails c ''restarting'' ''native_restart_failed'' clk m)\<lparr>sm_worker := w\<rparr>
    | RollbackFailed \<Rightarrow> (job_fails c ''restarting'' ''rollback_failed'' clk m)\<lparr>sm_worker := w\<rparr>))"

definition execute_verify :: "string \<Rightarrow> string \<Rightarrow> settings_manager \<Rightarrow> settings_manager" where
  "execute_verify c clk m = (case updateOperation c ''pending'' ''verifying'' [] None clk m of (ok, m') \<Rightarrow>
     move_job c (if ok then Verifying else RollingBack) m')"

definition execute_complete :: "string \<Rightarrow> string \<Rightarrow> settings_manager \<Rightarrow> settings_manager" where
  "execute_complete c clk m = (case updateOperation c ''succeeded'' ''complete'' [] (Some (job_target c m)) clk m of (ok, m') \<Rightarrow>
     if ok then (end_job c m')\<lparr>sm_adrift := False\<rparr> else move_job c RollingBack m')"

definition execute_rollback :: "string \<Rightarrow> worker_env \<Rightarrow> string \<Rightarrow> settings_manager \<Rightarrow> settings_manager" where
  "execute_rollback c e clk m = (case RestartSettings e (runtimeConfig (job_previous c m)) (sm_worker m) of (a, w) \<Rightarrow>
     (let m' = job_fails c ''verifying'' (if a = Restarted then ''settings_unavailable'' else ''rollback_failed'') clk m in
      m'\<lparr>sm_worker := w, sm_adrift := (a \<noteq> Restarted)\<rparr>))"

text \<open>
  The transition system. Clock texts parse, as the texts of \<open>time.Format\<close> do, and a fresh identity is
  a version 4 UUID.
\<close>

definition clock_text :: "string \<Rightarrow> bool" where
  "clock_text t \<longleftrightarrow> t \<noteq> [] \<and> parse_time t"

inductive settings_step :: "url_parser \<Rightarrow> settings_manager \<Rightarrow> settings_manager \<Rightarrow> bool" for u where
  settings_bind: "settings_step u m (BindRuntime m)"
| settings_put: "settings_step u m (snd (PutDraft u gone node rq m))"
| settings_apply: "clock_text clk \<Longrightarrow> uuid4Pattern fresh \<Longrightarrow> settings_step u m (snd (SettingsApply gone node aq fresh clk m))"
| settings_begin: "job_at c m = Some Queued \<Longrightarrow> settings_step u m (execute_begin c m)"
| settings_check: "job_at c m = Some Checking \<Longrightarrow> clock_text clk \<Longrightarrow> settings_step u m (execute_check c models clk m)"
| settings_gate: "job_at c m = Some Waiting \<Longrightarrow> sm_gate m = None \<Longrightarrow> settings_step u m (execute_gate c busy m)"
| settings_drain: "job_at c m = Some (Gated busy) \<Longrightarrow> clock_text clk \<Longrightarrow> settings_step u m (execute_drain c busy models clk m)"
| settings_wait: "job_at c m = Some (Draining True) \<Longrightarrow> clock_text clk \<Longrightarrow> settings_step u m (execute_wait c probe clk m)"
| settings_restart: "job_at c m = Some (Draining False) \<Longrightarrow> clock_text clk \<Longrightarrow> settings_step u m (execute_restart c clk m)"
| settings_restarted: "job_at c m = Some Restarting \<Longrightarrow> clock_text clk \<Longrightarrow> settings_step u m (execute_restarted c e clk m)"
| settings_verify: "job_at c m = Some ChildUp \<Longrightarrow> clock_text clk \<Longrightarrow> settings_step u m (execute_verify c clk m)"
| settings_complete: "job_at c m = Some Verifying \<Longrightarrow> clock_text clk \<Longrightarrow> settings_step u m (execute_complete c clk m)"
| settings_rollback: "job_at c m = Some RollingBack \<Longrightarrow> clock_text clk \<Longrightarrow> settings_step u m (execute_rollback c e clk m)"

text \<open>The states a node reaches that was first started with the given initial model.\<close>

inductive settings_reachable :: "url_parser \<Rightarrow> string \<Rightarrow> settings_manager \<Rightarrow> bool" for u model where
  settings_first: "clock_text clk \<Longrightarrow> SettingsOpen u node version model source clk writes len NoFile = Some m \<Longrightarrow> settings_reachable u model m"
| settings_next: "settings_reachable u model m \<Longrightarrow> settings_step u m m' \<Longrightarrow> settings_reachable u model m'"
| settings_reopen: "settings_reachable u model m \<Longrightarrow> clock_text clk \<Longrightarrow>
    SettingsOpen u node version later source clk writes len (sm_file m) = Some m' \<Longrightarrow> settings_reachable u model m'"


section \<open>What every state keeps\<close>

definition normal_snapshot :: "url_parser \<Rightarrow> privateSnapshot \<Rightarrow> bool" where
  "normal_snapshot u s \<longleftrightarrow> validPrivateSnapshot u s \<and> sorted (map pm_id (pv_servers s)) \<and>
     if_speed (pv_inference s) \<in> {None, Some ''off'', Some ''on''}"

definition record_ok :: "url_parser \<Rightarrow> int \<Rightarrow> string \<Rightarrow> operationRecord \<Rightarrow> bool" where
  "record_ok u d c r \<longleftrightarrow> validOperation u (c, r) \<and> normal_snapshot u (or_target r) \<and> or_target_revision r \<le> d"

definition books_ok :: "url_parser \<Rightarrow> diskState \<Rightarrow> bool" where
  "books_ok u s \<longleftrightarrow> 1 \<le> dk_applied_revision s \<and> dk_applied_revision s \<le> dk_draft_revision s \<and>
     if_model (pv_inference (dk_applied s)) \<noteq> None \<and> normal_snapshot u (dk_draft s) \<and> normal_snapshot u (dk_applied s) \<and>
     distinct (map fst (dk_operations s)) \<and> (\<forall>c r. map_of (dk_operations s) c = Some r \<longrightarrow> record_ok u (dk_draft_revision s) c r) \<and>
     (\<forall>c c' r r'. map_of (dk_operations s) c = Some r \<longrightarrow> map_of (dk_operations s) c' = Some r' \<longrightarrow> apply_pending r \<longrightarrow> apply_pending r' \<longrightarrow> c = c')"

definition file_ok :: "url_parser \<Rightarrow> settings_file \<Rightarrow> bool" where
  "file_ok u f \<longleftrightarrow> (\<exists>s. f = Decoded s \<and> books_ok u s)"

definition gated :: "apply_stage \<Rightarrow> bool" where
  "gated stg \<longleftrightarrow> stg \<notin> {Queued, Checking, Waiting}"

definition replaced :: "apply_stage \<Rightarrow> bool" where
  "replaced stg \<longleftrightarrow> stg \<in> {ChildUp, Verifying, RollingBack}"

definition job_ok :: "settings_manager \<Rightarrow> string \<Rightarrow> apply_job \<Rightarrow> bool" where
  "job_ok m c j \<longleftrightarrow> (\<exists>r. map_of (dk_operations (sm_state m)) c = Some r \<and> (apply_pending r \<longleftrightarrow> jb_stage j \<noteq> RollingBack) \<and>
     (jb_stage j \<noteq> Queued \<longrightarrow> or_target (jb_record j) = or_target r \<and> jb_previous j = dk_applied (sm_state m)) \<and>
     (jb_stage j \<notin> {Queued, Checking} \<longrightarrow> if_model (pv_inference (or_target r)) \<noteq> None) \<and>
     (gated (jb_stage j) \<longleftrightarrow> sm_gate m = Some c))"

definition jobs_ok :: "settings_manager \<Rightarrow> bool" where
  "jobs_ok m \<longleftrightarrow> (\<forall>c j. map_of (sm_jobs m) c = Some j \<longrightarrow> job_ok m c j) \<and> (\<forall>c. sm_gate m = Some c \<longrightarrow> map_of (sm_jobs m) c \<noteq> None)"

definition child_ok :: "settings_manager \<Rightarrow> bool" where
  "child_ok m \<longleftrightarrow> (\<forall>c j. map_of (sm_jobs m) c = Some j \<longrightarrow> replaced (jb_stage j) \<longrightarrow> sm_worker m = runtimeConfig (or_target (jb_record j))) \<and>
     ((\<forall>c j. map_of (sm_jobs m) c = Some j \<longrightarrow> \<not> replaced (jb_stage j)) \<longrightarrow> sm_adrift m \<or> sm_worker m = runtimeConfig (dk_applied (sm_state m)))"

definition settings_inv :: "url_parser \<Rightarrow> settings_manager \<Rightarrow> bool" where
  "settings_inv u m \<longleftrightarrow> books_ok u (sm_state m) \<and> file_ok u (sm_file m) \<and> jobs_ok m \<and> child_ok m"

lemma books_okD:
  assumes "books_ok u s"
  shows "1 \<le> dk_applied_revision s" "dk_applied_revision s \<le> dk_draft_revision s" "if_model (pv_inference (dk_applied s)) \<noteq> None"
    "normal_snapshot u (dk_draft s)" "normal_snapshot u (dk_applied s)" "distinct (map fst (dk_operations s))"
    "map_of (dk_operations s) c = Some r \<Longrightarrow> record_ok u (dk_draft_revision s) c r"
    "map_of (dk_operations s) c = Some r \<Longrightarrow> map_of (dk_operations s) c' = Some r' \<Longrightarrow> apply_pending r \<Longrightarrow> apply_pending r' \<Longrightarrow> c = c'"
  using assms unfolding books_ok_def by blast+

text \<open>A record that replaces another of the same command.\<close>

lemma books_set_record:
  assumes b: "books_ok u s" and r: "record_ok u (dk_draft_revision s) c r"
    and p: "apply_pending r \<Longrightarrow> \<forall>c' r'. map_of (dk_operations s) c' = Some r' \<longrightarrow> apply_pending r' \<longrightarrow> c' = c"
  shows "books_ok u (s\<lparr>dk_operations := AList.update c r (dk_operations s)\<rparr>)"
proof -
  have k: "record_ok u (dk_draft_revision s) c' r'" if "map_of (AList.update c r (dk_operations s)) c' = Some r'" for c' r'
    using that r books_okD(7) [OF b] by (auto simp: update_conv' split: if_splits)
  have "c1 = c2" if "map_of (AList.update c r (dk_operations s)) c1 = Some r1" "map_of (AList.update c r (dk_operations s)) c2 = Some r2"
    "apply_pending r1" "apply_pending r2" for c1 c2 r1 r2
    using that p books_okD(8) [OF b] by (auto simp: update_conv' split: if_splits)
  then show ?thesis using b k unfolding books_ok_def by (simp add: distinct_update)
qed

lemma valid_mark:
  assumes "record_ok u d c r" and "validOperationStatus status" and "validOperationPhase phase" and "reason = [] \<or> identifierPattern reason" and "clock_text clk"
  shows "record_ok u d c (mark status phase reason clk r)"
  using assms by (simp add: record_ok_def validOperation_def mark_def clock_text_def Let_def)

lemma pending_mark [simp]: "apply_pending (mark status phase reason clk r) \<longleftrightarrow> status = ''pending''"
  by (simp add: apply_pending_def mark_def)

lemma mark_keeps [simp]:
  "or_target (mark status phase reason clk r) = or_target r" "or_target_revision (mark status phase reason clk r) = or_target_revision r"
  by (simp_all add: mark_def)

lemma books_mark:
  assumes b: "books_ok u s" and r: "map_of (dk_operations s) c = Some r" and "validOperationStatus status" and "validOperationPhase phase"
    and "reason = [] \<or> identifierPattern reason" and "clock_text clk" and p: "status = ''pending'' \<Longrightarrow> apply_pending r"
  shows "books_ok u (s\<lparr>dk_operations := AList.update c (mark status phase reason clk r) (dk_operations s)\<rparr>)"
proof (rule books_set_record [OF b])
  show "record_ok u (dk_draft_revision s) c (mark status phase reason clk r)"
    using valid_mark [OF books_okD(7) [OF b r]] assms(3-6) by simp
  show "\<forall>c' r'. map_of (dk_operations s) c' = Some r' \<longrightarrow> apply_pending r' \<longrightarrow> c' = c" if "apply_pending (mark status phase reason clk r)"
    using books_okD(8) [OF b _ r] p that by auto
qed

section \<open>A draft that is accepted is normal\<close>

lemma migrate_speed:
  assumes "if_given validSpeed (if_speed i)"
  shows "if_speed (migrateInference i) \<in> {None, Some ''off'', Some ''on''}"
  using assms by (auto simp: migrateInference_def validSpeed_def split: option.splits)

lemma migrate_same [simp]: "if_model (migrateInference i) = if_model i" "if_effort (migrateInference i) = if_effort i"
  by (simp_all add: migrateInference_def split: option.split)

lemma migrate_normal: "if_speed i \<in> {None, Some ''off'', Some ''on''} \<Longrightarrow> migrateInference i = i"
  by (auto simp: migrateInference_def)

lemma valid_speed_normal: "if_speed i \<in> {None, Some ''off'', Some ''on''} \<Longrightarrow> if_given validSpeed (if_speed i)"
  by (auto simp: validSpeed_def)

lemma draft_secret_valid:
  assumes "draft_secret secret a = Some t" and "length secret \<le> 16384 \<and> list_all (\<lambda>c. c \<notin> {CHR 0x0D, CHR 0x0A, CHR 0x00}) secret"
  shows "length t \<le> 16384 \<and> list_all (\<lambda>c. c \<notin> {CHR 0x0D, CHR 0x0A, CHR 0x00}) t"
  using assms by (auto simp: draft_secret_def validText_def list_all_iff split: if_splits)

lemma draft_server_valid:
  assumes "draft_server u prior seen x = Some p" and "\<And>c q. prior c = Some q \<Longrightarrow> validPrivateMCP u q"
  shows "validPrivateMCP u p \<and> pm_id p = sv_id x \<and> sv_id x \<notin> set seen"
proof -
  have "length (case prior (sv_id x) of None \<Rightarrow> [] | Some q \<Rightarrow> pm_token q) \<le> 16384 \<and>
      list_all (\<lambda>c. c \<notin> {CHR 0x0D, CHR 0x0A, CHR 0x00}) (case prior (sv_id x) of None \<Rightarrow> [] | Some q \<Rightarrow> pm_token q)"
    using assms(2) [of "sv_id x"] by (auto simp: validPrivateMCP_def split: option.split)
  from draft_secret_valid [OF _ this] show ?thesis
    using assms(1) by (auto simp: draft_server_def validPrivateMCP_def split: if_splits)
qed

lemma draft_servers_valid:
  assumes "draft_servers u prior seen xs = Some ps" and "\<And>c q. prior c = Some q \<Longrightarrow> validPrivateMCP u q"
  shows "list_all (validPrivateMCP u) ps \<and> distinct (map pm_id ps) \<and> set (map pm_id ps) \<inter> set seen = {} \<and> length ps = length xs"
  using assms(1)
proof (induction xs arbitrary: seen ps)
  case (Cons x xs)
  obtain p qs where p: "draft_server u prior seen x = Some p" and q: "draft_servers u prior (sv_id x # seen) xs = Some qs" and ps: "ps = p # qs"
    using Cons.prems by (auto split: option.splits)
  show ?case using draft_server_valid [OF p assms(2)] Cons.IH [OF q] ps by auto
qed simp

lemma sort_key_list_all: "list_all P (sort_key f xs) = list_all P xs"
  by (simp add: list_all_iff)

lemma distinct_map_sort_key: "distinct (map g (sort_key f xs)) = distinct (map g xs)"
  by (rule mset_eq_imp_distinct_iff) simp

lemma prior_valid:
  assumes "list_all (validPrivateMCP u) ps" and "map_of (rev (map (\<lambda>p. (pm_id p, p)) ps)) c = Some q"
  shows "validPrivateMCP u q"
  using map_of_SomeD [OF assms(2)] assms(1) by (auto simp: list_all_iff)

lemma validateDraft_normal:
  assumes "validateDraft u r previous = Inr d" and "validPrivateSnapshot u previous"
  shows "normal_snapshot u d"
proof -
  obtain servers ps where ps: "draft_servers u (map_of (rev (map (\<lambda>p. (pm_id p, p)) (pv_servers previous)))) [] servers = Some ps"
    and len: "length servers \<le> maximumServers" and sp: "if_given validSpeed (if_speed (ss_inference r))"
    and t: "if_given (\<lambda>t. validText t 200) (if_model (ss_inference r))" "if_given (\<lambda>t. validText t 100) (if_effort (ss_inference r))"
    and d: "d = \<lparr>pv_servers = sort_key pm_id ps, pv_inference = migrateInference (ss_inference r)\<rparr>"
    using assms(1) by (auto simp: validateDraft_def Let_def split: option.splits if_splits)
  have "list_all (validPrivateMCP u) (pv_servers previous)" using assms(2) by (simp add: validPrivateSnapshot_def)
  then have "list_all (validPrivateMCP u) ps \<and> distinct (map pm_id ps) \<and> length ps = length servers"
    using draft_servers_valid [OF ps] prior_valid by blast
  then show ?thesis using t len migrate_speed [OF sp] valid_speed_normal [OF migrate_speed [OF sp]]
    by (simp add: d normal_snapshot_def validPrivateSnapshot_def sort_key_list_all distinct_map_sort_key)
qed

section \<open>Sections of the manager\<close>

lemma settings_persist_file:
  assumes "settings_persist m = (ok, m')"
  obtains f w where "m' = m\<lparr>sm_file := f, sm_writes := w\<rparr>" "f = sm_file m \<or> f = Decoded (sm_state m)" "ok \<longrightarrow> f = Decoded (sm_state m)"
proof (cases "sm_writes m")
  case Nil
  then have "m' = m\<lparr>sm_file := sm_file m, sm_writes := sm_writes m\<rparr>" "\<not> ok" using assms by (simp_all add: settings_persist_def)
  then show ?thesis using that by blast
next
  case (Cons a as)
  then have "m' = m\<lparr>sm_file := (if a = NotWritten then sm_file m else Decoded (sm_state m)), sm_writes := as\<rparr>" "ok \<longrightarrow> a \<noteq> NotWritten"
    using assms by (auto simp: settings_persist_def)
  then show ?thesis using that by (metis (full_types))
qed

text \<open>The state after an update of a record that reached the file, and after one that did not.\<close>

definition with_record :: "string \<Rightarrow> operationRecord \<Rightarrow> diskState \<Rightarrow> diskState" where
  "with_record c r s = s\<lparr>dk_operations := AList.update c r (dk_operations s)\<rparr>"

definition with_applied :: "privateSnapshot option \<Rightarrow> int \<Rightarrow> diskState \<Rightarrow> diskState" where
  "with_applied p n s = (case p of None \<Rightarrow> s | Some x \<Rightarrow> s\<lparr>dk_applied := x, dk_applied_revision := n\<rparr>)"

lemma updateOperation_effect:
  assumes "updateOperation c status phase reason applied clk m = (ok, m')" and "map_of (dk_operations (sm_state m)) c = Some r"
  obtains f w where "m' = m\<lparr>sm_state := (if ok then with_applied applied (or_target_revision r) (with_record c (mark status phase reason clk r) (sm_state m))
       else with_record c (mark ''failed'' phase ''settings_unavailable'' clk r) (sm_state m)), sm_file := f, sm_writes := w\<rparr>"
    "f = sm_file m \<or> f = Decoded (with_applied applied (or_target_revision r) (with_record c (mark status phase reason clk r) (sm_state m)))"
proof -
  let ?s = "with_applied applied (or_target_revision r) (with_record c (mark status phase reason clk r) (sm_state m))"
  obtain ok' m3 where p: "settings_persist (m\<lparr>sm_state := ?s\<rparr>) = (ok', m3)" by (cases "settings_persist (m\<lparr>sm_state := ?s\<rparr>)") auto
  obtain f w where f: "m3 = m\<lparr>sm_state := ?s, sm_file := f, sm_writes := w\<rparr>" "f = sm_file m \<or> f = Decoded ?s"
    by (rule settings_persist_file [OF p]) simp
  show thesis
  proof (rule that)
    show "f = sm_file m \<or> f = Decoded ?s" by (rule f(2))
    show "m' = m\<lparr>sm_state := (if ok then ?s else with_record c (mark ''failed'' phase ''settings_unavailable'' clk r) (sm_state m)), sm_file := f, sm_writes := w\<rparr>"
      using assms p f(1)
      by (cases applied) (auto simp: updateOperation_def record_of_def Let_def set_record_def with_applied_def with_record_def update_last split: if_splits)
  qed
qed

lemma with_none [simp]: "with_applied None n s = s"
  by (simp add: with_applied_def)

lemma with_record_simps [simp]:
  "dk_operations (with_record c r s) = AList.update c r (dk_operations s)" "dk_applied (with_record c r s) = dk_applied s"
  "dk_draft (with_record c r s) = dk_draft s" "dk_draft_revision (with_record c r s) = dk_draft_revision s"
  "dk_applied_revision (with_record c r s) = dk_applied_revision s"
  by (simp_all add: with_record_def)

lemma books_with_mark:
  assumes "books_ok u s" and "map_of (dk_operations s) c = Some r" and "validOperationStatus status" and "validOperationPhase phase"
    and "reason = [] \<or> identifierPattern reason" and "clock_text clk" and "status = ''pending'' \<Longrightarrow> apply_pending r"
  shows "books_ok u (with_record c (mark status phase reason clk r) s)"
  using books_mark [OF assms] by (simp add: with_record_def)

declare identifierPattern.simps(2) [simp del]

lemma code_identifiers [simp]:
  "identifierPattern ''settings_unavailable''" "identifierPattern ''drain_timeout''" "identifierPattern ''native_restart_failed''"
  "identifierPattern ''rollback_failed''" "identifierPattern ''apply_interrupted''" "identifierPattern ''model_default_unsupported''"
  "identifierPattern ''mcp_timeout_unsupported''" "identifierPattern ''catalog_unavailable''" "identifierPattern ''model_unavailable''"
  "identifierPattern ''model_parameter_unsupported''" "identifierPattern ''model_parameters_incompatible''"
  by code_simp+

lemma validateRuntime_reason: "validateRuntime models target = Some reason \<Longrightarrow> identifierPattern reason"
  by (auto simp: validateRuntime_def check_model_def Let_def split: option.splits if_splits)

lemma validateRuntime_model: "validateRuntime models target = None \<Longrightarrow> if_model (pv_inference target) \<noteq> None"
  by (simp add: validateRuntime_def split: if_splits)

lemma failed_status [simp]: "validOperationStatus ''failed''" "validOperationStatus ''pending''" "validOperationStatus ''succeeded''"
  by (simp_all add: validOperationStatus_def)

text \<open>Two managers that agree on everything but one record and the file.\<close>

definition same_but :: "string \<Rightarrow> settings_manager \<Rightarrow> settings_manager \<Rightarrow> bool" where
  "same_but c m m' \<longleftrightarrow> sm_jobs m' = sm_jobs m \<and> sm_gate m' = sm_gate m \<and> sm_worker m' = sm_worker m \<and> sm_adrift m' = sm_adrift m \<and>
     dk_applied (sm_state m') = dk_applied (sm_state m) \<and>
     (\<forall>c'. c' \<noteq> c \<longrightarrow> map_of (dk_operations (sm_state m')) c' = map_of (dk_operations (sm_state m)) c')"

lemma update_keeps:
  assumes b: "books_ok u (sm_state m)" "file_ok u (sm_file m)" and e: "updateOperation c status phase reason None clk m = (ok, m')"
    and r: "map_of (dk_operations (sm_state m)) c = Some r" and v: "validOperationStatus status" "validOperationPhase phase"
    and q: "reason = [] \<or> identifierPattern reason" "clock_text clk" "status = ''pending'' \<Longrightarrow> apply_pending r"
  shows "books_ok u (sm_state m') \<and> file_ok u (sm_file m') \<and> same_but c m m' \<and>
    (\<exists>r'. map_of (dk_operations (sm_state m')) c = Some r' \<and> or_target r' = or_target r \<and> (apply_pending r' \<longleftrightarrow> ok \<and> status = ''pending''))"
proof -
  obtain f w where m': "m' = m\<lparr>sm_state := (if ok then with_applied None (or_target_revision r) (with_record c (mark status phase reason clk r) (sm_state m))
       else with_record c (mark ''failed'' phase ''settings_unavailable'' clk r) (sm_state m)), sm_file := f, sm_writes := w\<rparr>"
    and f: "f = sm_file m \<or> f = Decoded (with_applied None (or_target_revision r) (with_record c (mark status phase reason clk r) (sm_state m)))"
    by (rule updateOperation_effect [OF e r])
  note n = books_with_mark [OF b(1) r v q]
  have n': "books_ok u (with_record c (mark ''failed'' phase ''settings_unavailable'' clk r) (sm_state m))"
    by (rule books_with_mark [OF b(1) r _ v(2) _ q(2)]) simp_all
  have "file_ok u f" using f n b(2) unfolding with_none by (auto simp: file_ok_def)
  then show ?thesis using n n' by (simp add: m' same_but_def update_conv')
qed

lemma job_ok_frame:
  assumes "job_ok m c j" and "map_of (dk_operations (sm_state m')) c = map_of (dk_operations (sm_state m)) c"
    and "dk_applied (sm_state m') = dk_applied (sm_state m)" and "sm_gate m' = Some c \<longleftrightarrow> sm_gate m = Some c"
  shows "job_ok m' c j"
  using assms by (simp add: job_ok_def)

lemma jobs_end:
  assumes "jobs_ok m" and "same_but c m m'"
  shows "jobs_ok (end_job c m')"
  unfolding jobs_ok_def
proof (intro conjI allI impI)
  fix c' j assume j: "map_of (sm_jobs (end_job c m')) c' = Some j"
  then have c: "c' \<noteq> c" "map_of (sm_jobs m) c' = Some j" using assms(2) by (auto simp: end_job_def same_but_def delete_conv' split: if_splits)
  then have "job_ok m c' j" using assms(1) by (simp add: jobs_ok_def)
  then show "job_ok (end_job c m') c' j" by (rule job_ok_frame) (use assms(2) c(1) in \<open>auto simp: end_job_def same_but_def\<close>)
next
  fix c' assume "sm_gate (end_job c m') = Some c'"
  then show "map_of (sm_jobs (end_job c m')) c' \<noteq> None" using assms by (auto simp: end_job_def same_but_def jobs_ok_def delete_conv' split: if_splits)
qed

lemma map_of_move: "map_of (sm_jobs (move_job c stg m)) c' =
    (if c' = c then map_option (\<lambda>j. j\<lparr>jb_stage := stg\<rparr>) (map_of (sm_jobs m) c) else map_of (sm_jobs m) c')"
  by (simp add: move_job_def map_of_map_entry split: option.split)

lemma jobs_move:
  assumes o: "jobs_ok m" and s: "same_but c m m'" and j: "map_of (sm_jobs m) c = Some j"
    and r: "map_of (dk_operations (sm_state m)) c = Some r" "map_of (dk_operations (sm_state m')) c = Some r'" "or_target r' = or_target r"
    and p: "apply_pending r' \<longleftrightarrow> stg \<noteq> RollingBack" and q: "jb_stage j \<noteq> Queued" "stg \<noteq> Queued"
    and t: "stg \<noteq> Checking \<Longrightarrow> if_model (pv_inference (or_target r)) \<noteq> None" and g: "gated stg \<longleftrightarrow> gated (jb_stage j)"
  shows "jobs_ok (move_job c stg m')"
  unfolding jobs_ok_def
proof (intro conjI allI impI)
  have ok: "job_ok m c j" using o j by (simp add: jobs_ok_def)
  fix c' i assume i: "map_of (sm_jobs (move_job c stg m')) c' = Some i"
  show "job_ok (move_job c stg m') c' i"
  proof (cases "c' = c")
    case True
    then have "i = j\<lparr>jb_stage := stg\<rparr>" using i j s by (simp add: map_of_move same_but_def)
    then show ?thesis using True ok s r p q t g by (auto simp: job_ok_def move_job_def same_but_def)
  next
    case False
    then have "job_ok m c' i" using i s o by (simp add: map_of_move same_but_def jobs_ok_def)
    then show ?thesis by (rule job_ok_frame) (use s False in \<open>auto simp: move_job_def same_but_def\<close>)
  qed
next
  fix c' assume "sm_gate (move_job c stg m') = Some c'"
  then have "map_of (sm_jobs m) c' \<noteq> None" using o s by (simp add: move_job_def same_but_def jobs_ok_def)
  then show "map_of (sm_jobs (move_job c stg m')) c' \<noteq> None" using s by (auto simp: map_of_move same_but_def)
qed

lemma same_but_refl: "same_but c m m"
  by (simp add: same_but_def)

text \<open>Memory, file and jobs; the child is looked at apart.\<close>

definition core_ok :: "url_parser \<Rightarrow> settings_manager \<Rightarrow> bool" where
  "core_ok u m \<longleftrightarrow> books_ok u (sm_state m) \<and> file_ok u (sm_file m) \<and> jobs_ok m"

lemma settings_inv_core: "settings_inv u m \<longleftrightarrow> core_ok u m \<and> child_ok m"
  by (auto simp: settings_inv_def core_ok_def)

lemma phases [simp]: "validOperationPhase ''preflight''" "validOperationPhase ''draining''" "validOperationPhase ''restarting''"
  "validOperationPhase ''verifying''" "validOperationPhase ''complete''"
  by (simp_all add: validOperationPhase_def)

lemma job_record:
  assumes "core_ok u m" and "map_of (sm_jobs m) c = Some j"
  obtains r where "map_of (dk_operations (sm_state m)) c = Some r" "apply_pending r \<longleftrightarrow> jb_stage j \<noteq> RollingBack"
    "jb_stage j \<noteq> Queued \<longrightarrow> or_target (jb_record j) = or_target r \<and> jb_previous j = dk_applied (sm_state m)"
    "jb_stage j \<notin> {Queued, Checking} \<longrightarrow> if_model (pv_inference (or_target r)) \<noteq> None" "gated (jb_stage j) \<longleftrightarrow> sm_gate m = Some c"
  using assms unfolding core_ok_def jobs_ok_def job_ok_def by blast

lemma end_simps [simp]:
  "sm_state (end_job c m) = sm_state m" "sm_file (end_job c m) = sm_file m" "sm_worker (end_job c m) = sm_worker m"
  "sm_adrift (end_job c m) = sm_adrift m" "map_of (sm_jobs (end_job c m)) = (map_of (sm_jobs m))(c := None)"
  by (simp_all add: end_job_def delete_conv')

lemma move_simps [simp]:
  "sm_state (move_job c stg m) = sm_state m" "sm_file (move_job c stg m) = sm_file m" "sm_worker (move_job c stg m) = sm_worker m"
  "sm_adrift (move_job c stg m) = sm_adrift m" "sm_gate (move_job c stg m) = sm_gate m"
  by (simp_all add: move_job_def)

text \<open>What is left of the manager when a job ends: everything but the job, its record, the file and the gate.\<close>

definition ended :: "string \<Rightarrow> settings_manager \<Rightarrow> settings_manager \<Rightarrow> bool" where
  "ended c m m' \<longleftrightarrow> map_of (sm_jobs m') = (map_of (sm_jobs m))(c := None) \<and> sm_worker m' = sm_worker m \<and> sm_adrift m' = sm_adrift m \<and>
     dk_applied (sm_state m') = dk_applied (sm_state m)"

definition moved :: "string \<Rightarrow> apply_stage \<Rightarrow> settings_manager \<Rightarrow> settings_manager \<Rightarrow> bool" where
  "moved c stg m m' \<longleftrightarrow> (\<forall>c'. map_of (sm_jobs m') c' = (if c' = c then map_option (\<lambda>j. j\<lparr>jb_stage := stg\<rparr>) (map_of (sm_jobs m) c) else map_of (sm_jobs m) c')) \<and>
     sm_worker m' = sm_worker m \<and> sm_adrift m' = sm_adrift m \<and> dk_applied (sm_state m') = dk_applied (sm_state m)"

lemma ended_job: "same_but c m m' \<Longrightarrow> ended c m (end_job c m')"
  by (simp add: same_but_def ended_def)

lemma moved_job: "same_but c m m' \<Longrightarrow> moved c stg m (move_job c stg m')"
  by (simp add: same_but_def moved_def map_of_move)

lemma job_fails_core:
  assumes k: "core_ok u m" "map_of (sm_jobs m) c = Some j" and v: "validOperationPhase phase" "identifierPattern reason" "clock_text clk"
  shows "core_ok u (job_fails c phase reason clk m) \<and> ended c m (job_fails c phase reason clk m)"
proof -
  obtain r where r: "map_of (dk_operations (sm_state m)) c = Some r" by (rule job_record [OF k])
  obtain ok m' where e: "updateOperation c ''failed'' phase reason None clk m = (ok, m')" by (cases "updateOperation c ''failed'' phase reason None clk m") auto
  note s = update_keeps [where u = u, OF _ _ e r _ v(1)]
  have "books_ok u (sm_state m') \<and> file_ok u (sm_file m') \<and> same_but c m m'" using s k(1) v by (simp add: core_ok_def)
  moreover from this have "jobs_ok (end_job c m')" using jobs_end k(1) unfolding core_ok_def by blast
  ultimately show ?thesis using ended_job by (simp add: job_fails_def e core_ok_def)
qed

lemma job_updated:
  assumes k: "core_ok u m" "map_of (sm_jobs m) c = Some j" and v: "validOperationPhase phase" "clock_text clk" and p: "jb_stage j \<noteq> RollingBack"
    and e: "updateOperation c ''pending'' phase [] None clk m = (ok, m')"
    and q: "jb_stage j \<notin> {Queued, Checking}" "stg \<notin> {Queued, Checking}" "gated stg \<longleftrightarrow> gated (jb_stage j)" "ok \<longleftrightarrow> stg \<noteq> RollingBack"
  shows "core_ok u (move_job c stg m') \<and> moved c stg m (move_job c stg m')"
proof -
  obtain r where r: "map_of (dk_operations (sm_state m)) c = Some r" "apply_pending r \<longleftrightarrow> jb_stage j \<noteq> RollingBack"
    "jb_stage j \<notin> {Queued, Checking} \<longrightarrow> if_model (pv_inference (or_target r)) \<noteq> None" by (rule job_record [OF k])
  have s: "books_ok u (sm_state m') \<and> file_ok u (sm_file m') \<and> same_but c m m' \<and>
    (\<exists>r'. map_of (dk_operations (sm_state m')) c = Some r' \<and> or_target r' = or_target r \<and> (apply_pending r' \<longleftrightarrow> ok))"
    using update_keeps [where u = u, OF _ _ e r(1) _ v(1) _ v(2)] k(1) r(2) p by (simp add: core_ok_def)
  then obtain r' where r': "map_of (dk_operations (sm_state m')) c = Some r'" "or_target r' = or_target r" "apply_pending r' \<longleftrightarrow> ok" by blast
  have "jobs_ok (move_job c stg m')"
    by (rule jobs_move [OF _ _ k(2) r(1) r'(1,2)]) (use k(1) s r' r q in \<open>auto simp: core_ok_def\<close>)
  then show ?thesis using s moved_job by (simp add: core_ok_def)
qed

lemma job_goes_on_core:
  assumes k: "core_ok u m" "map_of (sm_jobs m) c = Some j" and v: "validOperationPhase phase" "clock_text clk" and p: "jb_stage j \<noteq> RollingBack"
    and q: "jb_stage j \<notin> {Queued, Checking}" "stg \<notin> {Queued, Checking, RollingBack}" "gated stg \<longleftrightarrow> gated (jb_stage j)"
  shows "core_ok u (job_goes_on c phase stg clk m) \<and>
    (moved c stg m (job_goes_on c phase stg clk m) \<or> ended c m (job_goes_on c phase stg clk m))"
proof -
  obtain ok m' where e: "updateOperation c ''pending'' phase [] None clk m = (ok, m')" by (cases "updateOperation c ''pending'' phase [] None clk m") auto
  obtain r where r: "map_of (dk_operations (sm_state m)) c = Some r" "apply_pending r \<longleftrightarrow> jb_stage j \<noteq> RollingBack" by (rule job_record [OF k])
  show ?thesis
  proof (cases ok)
    case True
    then show ?thesis using job_updated [OF k v p e q(1), of stg] q by (simp add: job_goes_on_def e)
  next
    case False
    have s: "books_ok u (sm_state m') \<and> file_ok u (sm_file m') \<and> same_but c m m'"
      using update_keeps [where u = u, OF _ _ e r(1) _ v(1) _ v(2)] k(1) r(2) p by (simp add: core_ok_def)
    moreover from this have "jobs_ok (end_job c m')" using jobs_end k(1) unfolding core_ok_def by blast
    ultimately show ?thesis using False ended_job by (simp add: job_goes_on_def e core_ok_def)
  qed
qed

text \<open>The child through the end and the moves of a job.\<close>

lemma child_ended:
  assumes "child_ok m" and "map_of (sm_jobs m) c = Some j" and "\<not> replaced (jb_stage j)" and "ended c m m'"
  shows "child_ok m'"
proof -
  have "map_of (sm_jobs m') c' = Some i \<and> replaced (jb_stage i) \<longleftrightarrow> map_of (sm_jobs m) c' = Some i \<and> replaced (jb_stage i)" for c' i
    using assms(2-4) by (auto simp: ended_def)
  then show ?thesis using assms(1,4) unfolding child_ok_def ended_def by metis
qed

lemma child_moved:
  assumes "child_ok m" and "map_of (sm_jobs m) c = Some j" and "replaced stg \<longleftrightarrow> replaced (jb_stage j)" and "moved c stg m m'"
  shows "child_ok m'"
  using assms unfolding child_ok_def moved_def by (auto split: if_splits)

lemma job_lookup: "job_at c m = Some stg \<longleftrightarrow> (\<exists>j. map_of (sm_jobs m) c = Some j \<and> jb_stage j = stg)"
  by (auto simp: job_at_def)

lemma job_target_of: "map_of (sm_jobs m) c = Some j \<Longrightarrow> job_target c m = or_target (jb_record j)"
  by (simp add: job_target_def)

lemma gated_simps [simp]: "\<not> gated Queued" "\<not> gated Checking" "\<not> gated Waiting" "gated (Gated b)" "gated (Draining b)" "gated Restarting"
  "gated ChildUp" "gated Verifying" "gated RollingBack"
  by (simp_all add: gated_def)

lemma replaced_simps [simp]: "\<not> replaced Queued" "\<not> replaced Checking" "\<not> replaced Waiting" "\<not> replaced (Gated b)" "\<not> replaced (Draining b)"
  "\<not> replaced Restarting" "replaced ChildUp" "replaced Verifying" "replaced RollingBack"
  by (simp_all add: replaced_def)

lemma replaced_gated: "replaced stg \<Longrightarrow> gated stg"
  by (auto simp: replaced_def)

text \<open>The gate is exclusive, and so is the replaced child.\<close>

lemma gate_exclusive:
  assumes "core_ok u m" and "map_of (sm_jobs m) c = Some j" and "gated (jb_stage j)" and "map_of (sm_jobs m) c' = Some i" and "gated (jb_stage i)"
  shows "c' = c"
proof -
  have "sm_gate m = Some c" "sm_gate m = Some c'" using assms unfolding core_ok_def jobs_ok_def job_ok_def by blast+
  then show ?thesis by simp
qed

lemma jobs_put:
  assumes "jobs_ok m" and "job_ok m c j"
  shows "jobs_ok (m\<lparr>sm_jobs := AList.update c j (sm_jobs m)\<rparr>)"
  using assms by (auto simp: jobs_ok_def job_ok_def update_conv')

lemma begin_inv:
  assumes "settings_inv u m" and "job_at c m = Some Queued"
  shows "settings_inv u (execute_begin c m)"
proof -
  obtain j where j: "map_of (sm_jobs m) c = Some j" "jb_stage j = Queued" using assms(2) by (auto simp: job_lookup)
  have k: "core_ok u m" "child_ok m" using assms(1) by (simp_all add: settings_inv_core)
  obtain r where r: "map_of (dk_operations (sm_state m)) c = Some r" "apply_pending r \<longleftrightarrow> jb_stage j \<noteq> RollingBack" "gated (jb_stage j) \<longleftrightarrow> sm_gate m = Some c"
    by (rule job_record [OF k(1) j(1)])
  let ?j = "\<lparr>jb_record = record_of c m, jb_previous = dk_applied (sm_state m), jb_stage = Checking\<rparr>"
  have "job_ok m c ?j" using r j by (simp add: job_ok_def record_of_def)
  then have "core_ok u (execute_begin c m)" using jobs_put k(1) by (simp add: core_ok_def execute_begin_def)
  moreover have "child_ok (execute_begin c m)" using k(2) j by (simp add: child_ok_def execute_begin_def update_conv') (metis option.inject replaced_simps(1))
  ultimately show ?thesis by (simp add: settings_inv_core)
qed

lemma fails_inv:
  assumes "settings_inv u m" and "map_of (sm_jobs m) c = Some j" and "\<not> replaced (jb_stage j)"
    and "validOperationPhase phase" and "identifierPattern reason" and "clock_text clk"
  shows "settings_inv u (job_fails c phase reason clk m)"
  using job_fails_core [of u m c j phase reason clk] child_ended [of m c j] assms by (simp add: settings_inv_core)

lemma goes_on_inv:
  assumes "settings_inv u m" and "map_of (sm_jobs m) c = Some j" and "jb_stage j \<notin> {Queued, Checking, RollingBack}" and "stg \<notin> {Queued, Checking, RollingBack}"
    and "gated stg \<longleftrightarrow> gated (jb_stage j)" and "\<not> replaced (jb_stage j)" and "\<not> replaced stg" and "validOperationPhase phase" and "clock_text clk"
  shows "settings_inv u (job_goes_on c phase stg clk m)"
proof -
  have k: "core_ok u m" "child_ok m" using assms(1) by (simp_all add: settings_inv_core)
  have "core_ok u (job_goes_on c phase stg clk m)"
    "moved c stg m (job_goes_on c phase stg clk m) \<or> ended c m (job_goes_on c phase stg clk m)"
    using job_goes_on_core [OF k(1) assms(2,8,9)] assms(3-5) by simp_all
  then show ?thesis using child_ended [OF k(2) assms(2,6)] child_moved [OF k(2) assms(2), of stg] assms(6,7) by (auto simp: settings_inv_core)
qed

text \<open>A move that changes no record.\<close>

lemma move_inv:
  assumes "settings_inv u m" and j: "map_of (sm_jobs m) c = Some j" and "jb_stage j \<notin> {Queued, RollingBack}" and "stg \<notin> {Queued, Checking, RollingBack}"
    and "gated stg \<longleftrightarrow> gated (jb_stage j)" and "replaced stg \<longleftrightarrow> replaced (jb_stage j)" and t: "if_model (pv_inference (or_target (jb_record j))) \<noteq> None"
  shows "settings_inv u (move_job c stg m)"
proof -
  have k: "core_ok u m" "child_ok m" using assms(1) by (simp_all add: settings_inv_core)
  obtain r where r: "map_of (dk_operations (sm_state m)) c = Some r" "apply_pending r \<longleftrightarrow> jb_stage j \<noteq> RollingBack"
    "jb_stage j \<noteq> Queued \<longrightarrow> or_target (jb_record j) = or_target r \<and> jb_previous j = dk_applied (sm_state m)" by (rule job_record [OF k(1) j])
  have "jobs_ok (move_job c stg m)"
    by (rule jobs_move [OF _ same_but_refl j r(1) r(1)]) (use k(1) r assms in \<open>auto simp: core_ok_def\<close>)
  then show ?thesis using k child_moved [OF k(2) j assms(6) moved_job [OF same_but_refl]] by (simp add: settings_inv_core core_ok_def)
qed

lemma target_model:
  assumes "core_ok u m" and "map_of (sm_jobs m) c = Some j" and "jb_stage j \<notin> {Queued, Checking}"
  shows "if_model (pv_inference (or_target (jb_record j))) \<noteq> None"
  by (rule job_record [OF assms(1,2)]) (use assms(3) in auto)

lemma preflight_inv:
  assumes "settings_inv u m" and "job_at c m = Some Checking" and "clock_text clk"
  shows "settings_inv u (execute_check c models clk m)"
proof -
  obtain j where j: "map_of (sm_jobs m) c = Some j" "jb_stage j = Checking" using assms(2) by (auto simp: job_lookup)
  show ?thesis
  proof (cases "validateRuntime models (job_target c m)")
    case None
    then show ?thesis using move_inv [OF assms(1) j(1), of Waiting] validateRuntime_model [OF None] j by (simp add: execute_check_def job_target_of)
  next
    case (Some reason)
    then show ?thesis using fails_inv [OF assms(1) j(1) _ _ validateRuntime_reason [OF Some] assms(3)] j by (simp add: execute_check_def)
  qed
qed

lemma gate_inv:
  assumes i: "settings_inv u m" and "job_at c m = Some Waiting" and g: "sm_gate m = None"
  shows "settings_inv u (execute_gate c busy m)"
proof -
  obtain j where j: "map_of (sm_jobs m) c = Some j" "jb_stage j = Waiting" using assms(2) by (auto simp: job_lookup)
  have k: "core_ok u m" "child_ok m" using i by (simp_all add: settings_inv_core)
  have others: "job_ok (execute_gate c busy m) c' i" if "map_of (sm_jobs (execute_gate c busy m)) c' = Some i" for c' i
  proof (cases "c' = c")
    case True
    then have "i = j\<lparr>jb_stage := Gated busy\<rparr>" "job_ok m c j" using that j k(1) by (simp_all add: execute_gate_def map_of_move core_ok_def jobs_ok_def)
    then show ?thesis using True j by (auto simp: job_ok_def execute_gate_def)
  next
    case False
    then have "job_ok m c' i" using that k(1) by (simp add: execute_gate_def map_of_move core_ok_def jobs_ok_def)
    then show ?thesis by (rule job_ok_frame) (use g False in \<open>auto simp: execute_gate_def\<close>)
  qed
  have "core_ok u (execute_gate c busy m)" using k(1) others j by (auto simp: core_ok_def jobs_ok_def execute_gate_def map_of_move)
  moreover have "child_ok (execute_gate c busy m)"
    by (rule child_moved [OF k(2) j(1), of "Gated busy"]) (simp_all add: j moved_def execute_gate_def map_of_move)
  ultimately show ?thesis by (simp add: settings_inv_core)
qed

lemma drain_inv:
  assumes "settings_inv u m" and "job_at c m = Some (Gated busy)" and "clock_text clk"
  shows "settings_inv u (execute_drain c busy models clk m)"
proof -
  obtain j where j: "map_of (sm_jobs m) c = Some j" "jb_stage j = Gated busy" using assms(2) by (auto simp: job_lookup)
  show ?thesis
  proof (cases "validateRuntime models (job_target c m)")
    case None
    then show ?thesis using goes_on_inv [OF assms(1) j(1), of "Draining busy"] assms(3) j by (simp add: execute_drain_def)
  next
    case (Some reason)
    then show ?thesis using fails_inv [OF assms(1) j(1) _ _ validateRuntime_reason [OF Some] assms(3)] j by (simp add: execute_drain_def)
  qed
qed

lemma wait_inv:
  assumes "settings_inv u m" and "job_at c m = Some (Draining True)" and "clock_text clk"
  shows "settings_inv u (execute_wait c probe clk m)"
proof -
  obtain j where j: "map_of (sm_jobs m) c = Some j" "jb_stage j = Draining True" using assms(2) by (auto simp: job_lookup)
  have t: "if_model (pv_inference (or_target (jb_record j))) \<noteq> None" using target_model [of u m c j] assms(1) j by (simp add: settings_inv_core)
  show ?thesis using fails_inv [OF assms(1) j(1)] move_inv [OF assms(1) j(1) _ _ _ _ t] j assms(3) by (cases probe) (simp_all add: execute_wait_def)
qed

lemma restart_inv:
  assumes "settings_inv u m" and "job_at c m = Some (Draining False)" and "clock_text clk"
  shows "settings_inv u (execute_restart c clk m)"
proof -
  obtain j where "map_of (sm_jobs m) c = Some j" "jb_stage j = Draining False" using assms(2) by (auto simp: job_lookup)
  then show ?thesis using goes_on_inv [OF assms(1), of c j Restarting] assms(3) by (simp add: execute_restart_def)
qed

lemma child_alone:
  assumes k: "core_ok u m" and j: "map_of (sm_jobs m) c = Some j" "gated (jb_stage j)" and e: "map_of (sm_jobs m') = (map_of (sm_jobs m))(c := None)"
    and r: "sm_adrift m' \<or> sm_worker m' = runtimeConfig (dk_applied (sm_state m'))"
  shows "child_ok m'"
proof -
  have "\<not> replaced (jb_stage i)" if "map_of (sm_jobs m') c' = Some i" for c' i
    using gate_exclusive [OF k j] that e replaced_gated by (auto split: if_splits)
  then show ?thesis using r by (auto simp: child_ok_def)
qed

lemma child_replaced:
  assumes k: "core_ok u m" and j: "map_of (sm_jobs m) c = Some j" "gated (jb_stage j)" and r: "replaced stg"
    and e: "\<And>c'. map_of (sm_jobs m') c' = (if c' = c then Some (j\<lparr>jb_stage := stg\<rparr>) else map_of (sm_jobs m) c')"
    and t: "sm_worker m' = runtimeConfig (or_target (jb_record j))"
  shows "child_ok m'"
proof -
  have "sm_worker m' = runtimeConfig (or_target (jb_record i))" if "map_of (sm_jobs m') c' = Some i" "replaced (jb_stage i)" for c' i
    using gate_exclusive [OF k j, of c' i] that replaced_gated by (cases "c' = c") (auto simp: e t)
  moreover have "map_of (sm_jobs m') c = Some (j\<lparr>jb_stage := stg\<rparr>)" by (simp add: e)
  ultimately show ?thesis using r unfolding child_ok_def by fastforce
qed

lemma core_child_free: "core_ok u (m\<lparr>sm_worker := x, sm_adrift := b\<rparr>) \<longleftrightarrow> core_ok u m" "core_ok u (m\<lparr>sm_worker := x\<rparr>) \<longleftrightarrow> core_ok u m"
  "core_ok u (m\<lparr>sm_adrift := b\<rparr>) \<longleftrightarrow> core_ok u m"
  by (simp_all add: core_ok_def jobs_ok_def job_ok_def)

lemma same_worker: "sm_worker m = x \<Longrightarrow> m\<lparr>sm_worker := x\<rparr> = m"
  by auto

lemma restarted_inv:
  assumes i: "settings_inv u m" and "job_at c m = Some Restarting" and "clock_text clk"
  shows "settings_inv u (execute_restarted c e clk m)"
proof -
  obtain j where j: "map_of (sm_jobs m) c = Some j" "jb_stage j = Restarting" using assms(2) by (auto simp: job_lookup)
  have k: "core_ok u m" using i by (simp add: settings_inv_core)
  obtain a w where r: "RestartSettings e (runtimeConfig (job_target c m)) (sm_worker m) = (a, w)" by force
  note w = restart_config [OF r]
  have failed: "settings_inv u ((job_fails c ''restarting'' reason clk m)\<lparr>sm_worker := sm_worker m\<rparr>)"
    if "reason \<in> {''native_restart_failed'', ''rollback_failed''}" for reason
  proof -
    have n: "settings_inv u (job_fails c ''restarting'' reason clk m)" using fails_inv [OF i j(1)] j assms(3) that by auto
    have "sm_worker (job_fails c ''restarting'' reason clk m) = sm_worker m"
      using job_fails_core [OF k j(1) _ _ assms(3), of "''restarting''" reason] j that by (auto simp: ended_def)
    then have "(job_fails c ''restarting'' reason clk m)\<lparr>sm_worker := sm_worker m\<rparr> = job_fails c ''restarting'' reason clk m" by (rule same_worker)
    then show ?thesis using n by simp
  qed
  show ?thesis
  proof (cases a)
    case Restarted
    obtain r where r': "map_of (dk_operations (sm_state m)) c = Some r" "apply_pending r \<longleftrightarrow> jb_stage j \<noteq> RollingBack"
      "jb_stage j \<noteq> Queued \<longrightarrow> or_target (jb_record j) = or_target r \<and> jb_previous j = dk_applied (sm_state m)" by (rule job_record [OF k j(1)])
    have t: "if_model (pv_inference (or_target (jb_record j))) \<noteq> None" using target_model [OF k j(1)] j by simp
    have "jobs_ok (move_job c ChildUp m)"
      by (rule jobs_move [OF _ same_but_refl j(1) r'(1) r'(1)]) (use k r' j t in \<open>auto simp: core_ok_def\<close>)
    moreover have eq: "execute_restarted c e clk m = (move_job c ChildUp m)\<lparr>sm_worker := runtimeConfig (job_target c m)\<rparr>"
      using w by (simp add: execute_restarted_def r Restarted)
    ultimately have "core_ok u (execute_restarted c e clk m)" using k by (simp add: core_child_free) (simp add: core_ok_def)
    moreover have "child_ok (execute_restarted c e clk m)"
      unfolding eq by (rule child_replaced [OF k j(1), of ChildUp]) (simp_all add: j map_of_move job_target_of)
    ultimately show ?thesis by (simp add: settings_inv_core)
  qed (use failed in \<open>simp_all add: execute_restarted_def r w\<close>)
qed

lemma verify_inv:
  assumes i: "settings_inv u m" and "job_at c m = Some ChildUp" and "clock_text clk"
  shows "settings_inv u (execute_verify c clk m)"
proof -
  obtain j where j: "map_of (sm_jobs m) c = Some j" "jb_stage j = ChildUp" using assms(2) by (auto simp: job_lookup)
  have k: "core_ok u m" "child_ok m" using i by (simp_all add: settings_inv_core)
  obtain ok m' where e: "updateOperation c ''pending'' ''verifying'' [] None clk m = (ok, m')"
    by (cases "updateOperation c ''pending'' ''verifying'' [] None clk m") auto
  have "core_ok u (execute_verify c clk m) \<and> moved c (if ok then Verifying else RollingBack) m (execute_verify c clk m)"
    using job_updated [OF k(1) j(1) _ assms(3) _ e, of "if ok then Verifying else RollingBack"] j by (simp add: execute_verify_def e)
  then show ?thesis using child_moved [OF k(2) j(1), of "if ok then Verifying else RollingBack"] j by (simp add: settings_inv_core)
qed

lemma rollback_inv:
  assumes i: "settings_inv u m" and "job_at c m = Some RollingBack" and "clock_text clk"
  shows "settings_inv u (execute_rollback c e clk m)"
proof -
  obtain j where j: "map_of (sm_jobs m) c = Some j" "jb_stage j = RollingBack" using assms(2) by (auto simp: job_lookup)
  have k: "core_ok u m" using i by (simp add: settings_inv_core)
  obtain r where "map_of (dk_operations (sm_state m)) c = Some r" and r: "jb_stage j \<noteq> Queued \<longrightarrow> or_target (jb_record j) = or_target r \<and> jb_previous j = dk_applied (sm_state m)" by (rule job_record [OF k j(1)])
  have p: "job_previous c m = dk_applied (sm_state m)" using r j by (simp add: job_previous_def)
  obtain a w where w: "RestartSettings e (runtimeConfig (job_previous c m)) (sm_worker m) = (a, w)" by force
  note f = job_fails_core [OF k j(1) _ _ assms(3), of "''verifying''" "if a = Restarted then ''settings_unavailable'' else ''rollback_failed''"]
  show ?thesis using f child_alone [OF k j(1)] j restart_config [OF w] w [unfolded p]
    by (simp add: execute_rollback_def Let_def settings_inv_core core_child_free ended_def p)
qed

text \<open>Completion: the only section that changes the applied snapshot; the job is then the only one.\<close>

lemma only_job:
  assumes "core_ok u m" and "map_of (sm_jobs m) c = Some j" and "gated (jb_stage j)" and "jb_stage j \<noteq> RollingBack" and "map_of (sm_jobs m) c' = Some i"
  shows "c' = c"
proof -
  obtain r where r: "map_of (dk_operations (sm_state m)) c = Some r" "apply_pending r \<longleftrightarrow> jb_stage j \<noteq> RollingBack" by (rule job_record [OF assms(1,2)])
  obtain r' where r': "map_of (dk_operations (sm_state m)) c' = Some r'" "apply_pending r' \<longleftrightarrow> jb_stage i \<noteq> RollingBack" by (rule job_record [OF assms(1,5)])
  show ?thesis
  proof (cases "jb_stage i = RollingBack")
    case True
    then show ?thesis using gate_exclusive [OF assms(1-3,5)] by simp
  next
    case False
    then show ?thesis using books_okD(8) [of u "sm_state m" c' r' c r] assms(1,4) r r' by (simp add: core_ok_def)
  qed
qed

lemma books_applied:
  assumes "books_ok u s" and "normal_snapshot u p" and "if_model (pv_inference p) \<noteq> None" and "1 \<le> n" and "n \<le> dk_draft_revision s"
  shows "books_ok u (with_applied (Some p) n s)"
  using assms by (simp add: books_ok_def with_applied_def)

lemma complete_inv:
  assumes i: "settings_inv u m" and "job_at c m = Some Verifying" and q: "clock_text clk"
  shows "settings_inv u (execute_complete c clk m)"
proof -
  obtain j where j: "map_of (sm_jobs m) c = Some j" "jb_stage j = Verifying" using assms(2) by (auto simp: job_lookup)
  have k: "core_ok u m" "child_ok m" using i by (simp_all add: settings_inv_core)
  have b: "books_ok u (sm_state m)" using k(1) by (simp add: core_ok_def)
  obtain r where r: "map_of (dk_operations (sm_state m)) c = Some r" "apply_pending r \<longleftrightarrow> jb_stage j \<noteq> RollingBack"
    "jb_stage j \<noteq> Queued \<longrightarrow> or_target (jb_record j) = or_target r \<and> jb_previous j = dk_applied (sm_state m)"
    "jb_stage j \<notin> {Queued, Checking} \<longrightarrow> if_model (pv_inference (or_target r)) \<noteq> None" "gated (jb_stage j) \<longleftrightarrow> sm_gate m = Some c"
    by (rule job_record [OF k(1) j(1)])
  let ?done = "with_applied (Some (or_target r)) (or_target_revision r) (with_record c (mark ''succeeded'' ''complete'' [] clk r) (sm_state m))"
  let ?lost = "with_record c (mark ''failed'' ''complete'' ''settings_unavailable'' clk r) (sm_state m)"
  have t: "job_target c m = or_target r" using j r by (simp add: job_target_of)
  obtain ok m' where e: "updateOperation c ''succeeded'' ''complete'' [] (Some (or_target r)) clk m = (ok, m')"
    by (cases "updateOperation c ''succeeded'' ''complete'' [] (Some (or_target r)) clk m") auto
  obtain f w where m': "m' = m\<lparr>sm_state := (if ok then ?done else ?lost), sm_file := f, sm_writes := w\<rparr>" and f: "f = sm_file m \<or> f = Decoded ?done"
    by (rule updateOperation_effect [OF e r(1)])
  have o: "record_ok u (dk_draft_revision (sm_state m)) c r" by (rule books_okD(7) [OF b r(1)])
  have d: "books_ok u ?done"
    using o r j by (intro books_applied books_with_mark [OF b r(1) _ _ _ q]) (auto simp: record_ok_def validOperation_def Let_def)
  have l: "books_ok u ?lost" by (rule books_with_mark [OF b r(1) _ _ _ q]) simp_all
  have fo: "file_ok u (sm_file m')" using f d k(1) by (auto simp: m' core_ok_def file_ok_def)
  show ?thesis
  proof (cases ok)
    case True
    have g: "gated (jb_stage j)" "jb_stage j \<noteq> RollingBack" using j by simp_all
    have n: "map_of (sm_jobs m) c' = None" if "c' \<noteq> c" for c' using only_job [OF k(1) j(1) g, of c'] that by (meson not_None_eq)
    have "jobs_ok (end_job c m')" using n r(5) j by (simp add: jobs_ok_def m' end_job_def delete_conv')
    then have "core_ok u (execute_complete c clk m)"
      using True d fo by (simp add: execute_complete_def t e core_child_free) (simp add: core_ok_def m')
    moreover have "sm_worker m = runtimeConfig (or_target r)" using k(2) j r(3) by (simp add: child_ok_def)
    then have "child_ok (execute_complete c clk m)"
      by (intro child_alone [OF k(1) j(1)]) (simp_all add: j execute_complete_def t e True, simp_all add: m' True with_applied_def)
    ultimately show ?thesis by (simp add: settings_inv_core)
  next
    case False
    have s: "same_but c m m'" using False by (simp add: same_but_def m' update_conv')
    have "jobs_ok (move_job c RollingBack m')"
      by (rule jobs_move [OF _ s j(1) r(1), where r' = "mark ''failed'' ''complete'' ''settings_unavailable'' clk r"]) (use k(1) r j False in \<open>auto simp: core_ok_def m' update_conv'\<close>)
    then show ?thesis using False l fo child_moved [OF k(2) j(1) _ moved_job [OF s]] j
      by (simp add: execute_complete_def t e settings_inv_core core_ok_def) (simp add: m')
  qed
qed

section \<open>Drafts, applies and opening\<close>

lemma record_ok_mono: "record_ok u d c r \<Longrightarrow> d \<le> d' \<Longrightarrow> record_ok u d' c r"
  by (simp add: record_ok_def)

lemma books_draft:
  assumes "books_ok u s" and "normal_snapshot u d"
  shows "books_ok u (s\<lparr>dk_draft := d, dk_draft_revision := dk_draft_revision s + 1\<rparr>)"
  using assms record_ok_mono [of u "dk_draft_revision s" _ _ "dk_draft_revision s + 1"] by (simp add: books_ok_def)

lemma draft_revert: "s\<lparr>dk_draft := d, dk_draft_revision := n, dk_draft := dk_draft s, dk_draft_revision := dk_draft_revision s\<rparr> = s"
  by simp

lemma inv_file:
  assumes "settings_inv u m" and "f = sm_file m \<or> (\<exists>s. f = Decoded s \<and> books_ok u s)"
  shows "settings_inv u (m\<lparr>sm_file := f, sm_writes := w\<rparr>)"
  using assms by (auto simp: settings_inv_def file_ok_def jobs_ok_def job_ok_def child_ok_def)

lemma inv_draft:
  assumes "settings_inv u m" and "normal_snapshot u d"
  shows "settings_inv u (m\<lparr>sm_state := (sm_state m)\<lparr>dk_draft := d, dk_draft_revision := dk_draft_revision (sm_state m) + 1\<rparr>\<rparr>)"
  using assms books_draft [of u "sm_state m" d] by (simp add: settings_inv_def jobs_ok_def job_ok_def child_ok_def)

lemma put_inv:
  assumes i: "settings_inv u m"
  shows "settings_inv u (snd (PutDraft u gone node rq m))"
proof (cases "\<exists>d. \<not> (gone \<or> node \<noteq> sm_node m) \<and> pr_expected rq = dk_draft_revision (sm_state m) \<and> validateDraft u (pr_draft rq) (dk_draft (sm_state m)) = Inr d")
  case True
  then obtain d where d: "node = sm_node m" "\<not> gone" "pr_expected rq = dk_draft_revision (sm_state m)" "validateDraft u (pr_draft rq) (dk_draft (sm_state m)) = Inr d" by auto
  let ?s = "(sm_state m)\<lparr>dk_draft := d, dk_draft_revision := dk_draft_revision (sm_state m) + 1\<rparr>"
  have n: "normal_snapshot u d" using validateDraft_normal [OF d(4)] i by (simp add: settings_inv_def books_ok_def normal_snapshot_def)
  have b: "books_ok u ?s" using books_draft n i by (simp add: settings_inv_def)
  obtain ok m' where e: "settings_persist (m\<lparr>sm_state := ?s\<rparr>) = (ok, m')" by (cases "settings_persist (m\<lparr>sm_state := ?s\<rparr>)") auto
  obtain f w where m': "m' = m\<lparr>sm_state := ?s, sm_file := f, sm_writes := w\<rparr>" and f: "f = sm_file m \<or> f = Decoded ?s"
    by (rule settings_persist_file [OF e]) simp
  have g: "f = sm_file m \<or> (\<exists>s. f = Decoded s \<and> books_ok u s)" using f b by auto
  show ?thesis using inv_file [OF inv_draft [OF i n], of f w] inv_file [OF i g, of w] g b by (simp add: PutDraft_def d e Let_def) (simp add: m')
next
  case False
  then show ?thesis using i by (auto simp: PutDraft_def split: sum.split)
qed

lemma new_record_ok:
  assumes "books_ok u s" and "identifierPattern (ar_command rq)" and "uuid4Pattern fresh" and "clock_text clk"
    and "ar_expected rq = dk_draft_revision s" and "ar_target rq = dk_draft_revision s"
  shows "record_ok u (dk_draft_revision s) (ar_command rq) (new_record fresh clk rq s)"
  using assms by (auto simp: record_ok_def new_record_def validOperation_def Let_def clock_text_def books_ok_def normal_snapshot_def)

lemma bind_inv: "settings_inv u m \<Longrightarrow> settings_inv u (BindRuntime m)"
  by (simp add: BindRuntime_def settings_inv_def jobs_ok_def job_ok_def child_ok_def)

text \<open>A command with no record has no job.\<close>

lemma no_record_no_job:
  assumes "settings_inv u m" and "map_of (dk_operations (sm_state m)) c = None"
  shows "map_of (sm_jobs m) c = None"
proof (rule ccontr)
  assume "map_of (sm_jobs m) c \<noteq> None"
  then obtain j where "job_ok m c j" using assms(1) by (auto simp: settings_inv_def jobs_ok_def)
  then show False using assms(2) by (simp add: job_ok_def)
qed

lemma apply_started_inv:
  assumes i: "settings_inv u m" and o: "map_of (dk_operations (sm_state m)) c = None" and p: "apply_pending r" and b: "books_ok u (with_record c r (sm_state m))"
  shows "settings_inv u (m\<lparr>sm_state := with_record c r (sm_state m), sm_file := Decoded (with_record c r (sm_state m)), sm_writes := w,
     sm_jobs := AList.update c \<lparr>jb_record = r, jb_previous = dk_applied (sm_state m), jb_stage = Queued\<rparr> (sm_jobs m)\<rparr>)"
proof -
  let ?m = "m\<lparr>sm_state := with_record c r (sm_state m), sm_file := Decoded (with_record c r (sm_state m)), sm_writes := w\<rparr>"
  let ?j = "\<lparr>jb_record = r, jb_previous = dk_applied (sm_state m), jb_stage = Queued\<rparr>"
  have n: "map_of (sm_jobs m) c = None" by (rule no_record_no_job [OF i o])
  have "sm_gate m \<noteq> Some c" using i n by (auto simp: settings_inv_def jobs_ok_def)
  then have "job_ok ?m c ?j" using p by (simp add: job_ok_def update_conv')
  moreover have "job_ok ?m c' i" if "map_of (sm_jobs m) c' = Some i" for c' i
    by (rule job_ok_frame [of m]) (use i n that in \<open>auto simp: settings_inv_def jobs_ok_def update_conv'\<close>)
  then have "jobs_ok ?m" using i by (simp add: settings_inv_def jobs_ok_def)
  ultimately have "jobs_ok (?m\<lparr>sm_jobs := AList.update c ?j (sm_jobs ?m)\<rparr>)" by (intro jobs_put) simp_all
  moreover have "child_ok (?m\<lparr>sm_jobs := AList.update c ?j (sm_jobs ?m)\<rparr>)"
    using i n unfolding settings_inv_def child_ok_def by (simp add: update_conv') (metis option.distinct(1))
  ultimately show ?thesis using b by (simp add: settings_inv_def file_ok_def)
qed

lemma apply_inv:
  assumes i: "settings_inv u m" and v: "clock_text clk" "uuid4Pattern fresh"
  shows "settings_inv u (snd (SettingsApply gone node rq fresh clk m))"
proof (cases "gone \<or> node \<noteq> sm_node m \<or> \<not> identifierPattern (ar_command rq) \<or> map_of (dk_operations (sm_state m)) (ar_command rq) \<noteq> None \<or>
    ar_expected rq \<noteq> dk_draft_revision (sm_state m) \<or> ar_target rq \<noteq> dk_draft_revision (sm_state m) \<or> \<not> sm_bound m \<or>
    list_ex (\<lambda>(c', r). apply_pending r) (dk_operations (sm_state m))")
  case True
  then have "snd (SettingsApply gone node rq fresh clk m) = m" 
    by (cases "map_of (dk_operations (sm_state m)) (ar_command rq)") (auto simp: SettingsApply_def Let_def)
  then show ?thesis using i by simp
next
  case False
  let ?c = "ar_command rq" and ?r = "new_record fresh clk rq (sm_state m)"
  let ?s = "with_record ?c ?r (sm_state m)"
  have o: "map_of (dk_operations (sm_state m)) ?c = None" using False by simp
  have b: "books_ok u (sm_state m)" using i by (simp add: settings_inv_def)
  have p: "apply_pending ?r" by (simp add: new_record_def apply_pending_def)
  have np: "\<not> apply_pending r'" if "map_of (dk_operations (sm_state m)) c' = Some r'" for c' r'
    using False map_of_SomeD [OF that] by (auto simp: list_ex_iff)
  have n: "books_ok u ?s"
    unfolding with_record_def by (rule books_set_record [OF b new_record_ok [OF b]]) (use False v np in auto)
  obtain ok m' where e: "settings_persist (set_record ?c ?r m) = (ok, m')" by (cases "settings_persist (set_record ?c ?r m)") auto
  obtain f w where m': "m' = (set_record ?c ?r m)\<lparr>sm_file := f, sm_writes := w\<rparr>"
    and f: "f = sm_file (set_record ?c ?r m) \<or> f = Decoded (sm_state (set_record ?c ?r m))" "ok \<longrightarrow> f = Decoded (sm_state (set_record ?c ?r m))"
    by (rule settings_persist_file [OF e])
  have sr: "set_record ?c ?r m = m\<lparr>sm_state := ?s\<rparr>" by (simp add: set_record_def with_record_def)
  show ?thesis
  proof (cases ok)
    case True
    then have "snd (SettingsApply gone node rq fresh clk m) = m\<lparr>sm_state := ?s, sm_file := Decoded ?s, sm_writes := w,
        sm_jobs := AList.update ?c \<lparr>jb_record = ?r, jb_previous = dk_applied (sm_state m), jb_stage = Queued\<rparr> (sm_jobs m)\<rparr>"
      using False f e by (simp add: SettingsApply_def Let_def o) (simp add: m' sr)
    then show ?thesis using apply_started_inv [OF i o p n] by simp
  next
    case lost: False
    have "AList.delete ?c (AList.update ?c ?r (dk_operations (sm_state m))) = dk_operations (sm_state m)"
      using o by (simp add: delete_update_same delete_idem map_of_eq_None_iff)
    then have "snd (SettingsApply gone node rq fresh clk m) = m\<lparr>sm_file := f, sm_writes := w\<rparr>"
      using False lost e by (simp add: SettingsApply_def Let_def o) (simp add: m' sr with_record_def)
    then show ?thesis using inv_file [OF i] f n by (auto simp: sr)
  qed
qed

lemma migrate_snapshot_normal: "normal_snapshot u s \<Longrightarrow> migrate_snapshot s = s"
  by (simp add: normal_snapshot_def migrate_snapshot_def migrate_normal)

lemma reopened_normal:
  assumes "books_ok u s"
  shows "reopened clk s = s\<lparr>dk_operations := map (\<lambda>(c, r). (c, interrupt clk r)) (dk_operations s)\<rparr>"
proof -
  have "r\<lparr>or_target := migrate_snapshot (or_target r)\<rparr> = r" if "(c, r) \<in> set (dk_operations s)" for c r
    using books_okD(7) [OF assms, of c r] books_okD(6) [OF assms] that by (simp add: map_of_is_SomeI record_ok_def migrate_snapshot_normal [of u])
  then have "map (\<lambda>(c, r). (c, interrupt clk (r\<lparr>or_target := migrate_snapshot (or_target r)\<rparr>))) (dk_operations s) = map (\<lambda>(c, r). (c, interrupt clk r)) (dk_operations s)"
    by (intro map_cong) auto
  then show ?thesis using books_okD(4,5) [OF assms] by (simp add: reopened_def migrate_snapshot_normal [of u])
qed

lemma interrupt_ok:
  assumes "record_ok u d c r" and "clock_text clk"
  shows "record_ok u d c (interrupt clk r) \<and> \<not> apply_pending (interrupt clk r)"
  using assms by (simp add: interrupt_def record_ok_def validOperation_def Let_def clock_text_def apply_pending_def)

lemma books_reopened:
  assumes "books_ok u s" and "clock_text clk"
  shows "books_ok u (reopened clk s)"
proof -
  have m: "map_of (dk_operations (reopened clk s)) c = map_option (interrupt clk) (map_of (dk_operations s) c)" for c
    by (simp add: reopened_normal [OF assms(1)] map_of_map)
  have d: "map fst (dk_operations (reopened clk s)) = map fst (dk_operations s)"
    by (simp add: reopened_normal [OF assms(1)] comp_def case_prod_beta')
  have "record_ok u (dk_draft_revision s) c r \<and> \<not> apply_pending r" if "map_of (dk_operations (reopened clk s)) c = Some r" for c r
    using that interrupt_ok [OF books_okD(7) [OF assms(1)] assms(2)] by (auto simp: m)
  moreover have "distinct (map fst (dk_operations (reopened clk s)))" unfolding d by (rule books_okD(6) [OF assms(1)])
  moreover have "dk_draft (reopened clk s) = dk_draft s" "dk_applied (reopened clk s) = dk_applied s"
    "dk_draft_revision (reopened clk s) = dk_draft_revision s" "dk_applied_revision (reopened clk s) = dk_applied_revision s"
    by (simp_all add: reopened_normal [OF assms(1)])
  ultimately show ?thesis using books_okD(1-5) [OF assms(1)] unfolding books_ok_def by metis
qed

lemma books_initial: "validText model 200 \<Longrightarrow> books_ok u (initial_state model)"
  by (simp add: books_ok_def initial_state_def initial_snapshot_def normal_snapshot_def validPrivateSnapshot_def)

lemma opened_inv:
  assumes "books_ok u s" and "settings_load u model clk len f = Some s" and "SettingsOpen u node version model source clk writes len f = Some m"
  shows "settings_inv u m \<and> sm_state m = s \<and> sm_jobs m = [] \<and> sm_file m = Decoded s"
proof -
  let ?m = "\<lparr>sm_node = node, sm_version = version, sm_source = source, sm_bound = False, sm_state = s, sm_jobs = [],
     sm_gate = None, sm_worker = runtimeConfig (dk_applied s), sm_adrift = False, sm_file = f, sm_writes = writes\<rparr>"
  have e: "settings_persist ?m = (True, m)" using assms(2,3) by (auto simp: SettingsOpen_def split: if_splits prod.splits)
  obtain g w where m: "m = ?m\<lparr>sm_file := g, sm_writes := w\<rparr>" and g: "True \<longrightarrow> g = Decoded (sm_state ?m)"
    by (rule settings_persist_file [OF e])
  show ?thesis using assms(1) g by (simp add: m settings_inv_def file_ok_def jobs_ok_def child_ok_def)
qed

lemmas section_inv = bind_inv put_inv apply_inv begin_inv preflight_inv gate_inv drain_inv wait_inv restart_inv restarted_inv verify_inv complete_inv rollback_inv

lemma settings_step_inv: "settings_step u m m' \<Longrightarrow> settings_inv u m \<Longrightarrow> settings_inv u m'"
  by (induction rule: settings_step.induct) (simp_all add: section_inv)

text \<open>The contract of an invariant: the first start, every section and every later start keep it.\<close>

locale settings_invariant =
  fixes u :: url_parser and model :: string and I :: "settings_manager \<Rightarrow> bool"
  assumes first_start: "clock_text clk \<Longrightarrow> SettingsOpen u node version model source clk writes len NoFile = Some m \<Longrightarrow> I m"
    and next_section: "I m \<Longrightarrow> settings_step u m m' \<Longrightarrow> I m'"
    and later_start: "I m \<Longrightarrow> clock_text clk \<Longrightarrow> SettingsOpen u node version later source clk writes len (sm_file m) = Some m' \<Longrightarrow> I m'"
begin

lemma reachable_holds: "settings_reachable u model m \<Longrightarrow> I m"
  by (induction rule: settings_reachable.induct) (blast intro: first_start next_section later_start)+

end

text \<open>
  The books are in order on a node whose initial model is a valid text. \<open>Open\<close> does not check that;
  what another initial model does is the last property.
\<close>

interpretation settings_books: settings_invariant u model "\<lambda>m. validText model 200 \<longrightarrow> settings_inv u m" for u model
proof unfold_locales
  show "validText model 200 \<longrightarrow> settings_inv u m" if "SettingsOpen u node version model source clk writes len NoFile = Some m"
    for clk node version source writes len m
    using opened_inv [OF books_initial [of model u], of model clk len NoFile] that by (simp add: settings_load_def)
  show "validText model 200 \<longrightarrow> settings_inv u m'" if "validText model 200 \<longrightarrow> settings_inv u m" "settings_step u m m'" for m m'
    using settings_step_inv [OF that(2)] that(1) by blast
  show "validText model 200 \<longrightarrow> settings_inv u m'" if i: "validText model 200 \<longrightarrow> settings_inv u m" and c: "clock_text clk"
    and o: "SettingsOpen u node version later source clk writes len (sm_file m) = Some m'" for m clk node version later source writes len m'
  proof
    assume "validText model 200"
    then obtain s where s: "sm_file m = Decoded s" "books_ok u s" using i by (auto simp: settings_inv_def file_ok_def)
    then have "settings_load u later clk len (sm_file m) = Some (reopened clk s)" using o by (auto simp: SettingsOpen_def settings_load_def split: if_splits)
    then show "settings_inv u m'" using opened_inv [OF books_reopened [OF s(2) c]] o by blast
  qed
qed

lemma reachable_books: "settings_reachable u model m \<Longrightarrow> validText model 200 \<Longrightarrow> settings_inv u m"
  using settings_books.reachable_holds by blast

section \<open>What a client sees\<close>

text \<open>A state with every token replaced by a mark that says only whether there is one.\<close>

definition redact :: "privateSnapshot \<Rightarrow> privateSnapshot" where
  "redact s = s\<lparr>pv_servers := map (\<lambda>x. x\<lparr>pm_token := (if pm_token x = [] then [] else ''*'')\<rparr>) (pv_servers s)\<rparr>"

definition redact_state :: "settings_manager \<Rightarrow> settings_manager" where
  "redact_state m = m\<lparr>sm_state := (sm_state m)\<lparr>dk_draft := redact (dk_draft (sm_state m)), dk_applied := redact (dk_applied (sm_state m)),
     dk_operations := map (\<lambda>(c, r). (c, r\<lparr>or_target := redact (or_target r)\<rparr>)) (dk_operations (sm_state m))\<rparr>\<rparr>"

lemma public_redact [simp]: "publicSnapshot (redact s) = publicSnapshot s"
  by (simp add: publicSnapshot_def redact_def publicServer_def)

lemma latest_redact: "latest_operation (map (\<lambda>(c, r). (c, r\<lparr>or_target := redact (or_target r)\<rparr>)) ops) = latest_operation ops"
proof -
  have "map (\<lambda>(c, r). or_operation r) (map (\<lambda>(c, r). (c, r\<lparr>or_target := redact (or_target r)\<rparr>)) ops) = map (\<lambda>(c, r). or_operation r) ops"
    by (induction ops) auto
  then show ?thesis unfolding latest_operation_def by (rule arg_cong)
qed

lemma answer_redact: "settings_answer x (redact_state m) = settings_answer x m"
  by (simp add: settings_answer_def redact_state_def latest_redact Let_def cong: option.case_cong)

lemma resend_public: "resend (publicSnapshot s) = \<lparr>ss_inference = pv_inference s,
    ss_document = \<lparr>md_schema = MCPDocumentSchemaID, md_servers = Some (map (\<lambda>x. (publicServer x)\<lparr>sv_auth := resend_auth (sv_auth (publicServer x))\<rparr>) (pv_servers s))\<rparr>, ss_servers = None\<rparr>"
  by (simp add: resend_def publicSnapshot_def comp_def)

lemma resent_server:
  assumes "validPrivateMCP u x" and "prior (pm_id x) = Some x" and "pm_id x \<notin> set seen"
  shows "draft_server u prior seen ((publicServer x)\<lparr>sv_auth := resend_auth (sv_auth (publicServer x))\<rparr>) = Some x"
  using assms by (simp add: draft_server_def publicServer_def resend_auth_def read_auth_def draft_secret_def validPrivateMCP_def)

lemma resent_servers:
  assumes "list_all (validPrivateMCP u) xs" and "\<And>x. x \<in> set xs \<Longrightarrow> prior (pm_id x) = Some x" and "distinct (map pm_id xs)" and "set (map pm_id xs) \<inter> set seen = {}"
  shows "draft_servers u prior seen (map (\<lambda>x. (publicServer x)\<lparr>sv_auth := resend_auth (sv_auth (publicServer x))\<rparr>) xs) = Some xs"
  using assms
proof (induction xs arbitrary: seen)
  case (Cons x xs)
  have i: "sv_id ((publicServer x)\<lparr>sv_auth := a\<rparr>) = pm_id x" for a by (simp add: publicServer_def)
  have "draft_servers u prior (pm_id x # seen) (map (\<lambda>x. (publicServer x)\<lparr>sv_auth := resend_auth (sv_auth (publicServer x))\<rparr>) xs) = Some xs"
    using Cons.prems by (intro Cons.IH) auto
  then show ?case using resent_server [of u x prior seen] Cons.prems by (simp add: i)
qed simp

lemma prior_lookup:
  assumes "distinct (map pm_id xs)" and "x \<in> set xs"
  shows "map_of (rev (map (\<lambda>p. (pm_id p, p)) xs)) (pm_id x) = Some x"
  by (rule map_of_is_SomeI) (use assms in \<open>auto simp: rev_map comp_def distinct_map\<close>)

lemma validText_mono: "validText t n \<Longrightarrow> n \<le> k \<Longrightarrow> validText t k"
  by (simp add: validText_def)

lemma speed_texts [simp]: "validText ''off'' 100" "validText ''on'' 100"
  by code_simp+

lemma resend_roundtrip:
  assumes "normal_snapshot u s"
  shows "validateDraft u (resend (publicSnapshot s)) s = Inr s"
proof -
  have v: "validPrivateSnapshot u s" "sorted (map pm_id (pv_servers s))" and sp: "if_speed (pv_inference s) \<in> {None, Some ''off'', Some ''on''}"
    using assms by (auto simp: normal_snapshot_def)
  have d: "draft_servers u (map_of (rev (map (\<lambda>p. (pm_id p, p)) (pv_servers s)))) []
      (map (\<lambda>x. (publicServer x)\<lparr>sv_auth := resend_auth (sv_auth (publicServer x))\<rparr>) (pv_servers s)) = Some (pv_servers s)"
    by (rule resent_servers) (use v(1) in \<open>auto simp: validPrivateSnapshot_def intro: prior_lookup\<close>)
  have "if_given (\<lambda>t. validText t 100) (if_speed (pv_inference s))" using sp by auto
  then show ?thesis using v valid_speed_normal [OF sp] migrate_normal [OF sp]
    by (simp add: validateDraft_def resend_public requested_servers_def Let_def d validPrivateSnapshot_def MCPDocumentSchemaID_def sort_key_id_if_sorted)
qed

section \<open>Properties\<close>


text \<open>
  C37: what the node shows can be sent back, and shows no token. On a node whose initial model is a valid
  text (trimmed, at most 200 bytes; \<open>Open\<close> does not check it), in every reachable state, the draft that
  the node shows, sent back unchanged as a new draft, is accepted (as far as the file can be written) and
  leaves the private draft, tokens included, as it was; and the answer would be the same if every token
  in the state were replaced by a mark.
\<close>

theorem shown_draft_roundtrip:
  assumes "settings_reachable u model m" and "validText model 200"
  shows "validateDraft u (resend (se_draft (settings_answer x m))) (dk_draft (sm_state m)) = Inr (dk_draft (sm_state m)) \<and>
    dk_draft (sm_state (snd (PutDraft u gone node \<lparr>pr_expected = se_draft_revision (settings_answer x m), pr_draft = resend (se_draft (settings_answer x m))\<rparr> m))) =
      dk_draft (sm_state m) \<and>
    settings_answer x (redact_state m) = settings_answer x m"
proof -
  have n: "normal_snapshot u (dk_draft (sm_state m))" using reachable_books [OF assms] by (simp add: settings_inv_def books_ok_def)
  have s: "se_draft (settings_answer x m) = publicSnapshot (dk_draft (sm_state m))" by (simp add: settings_answer_def Let_def)
  note v = resend_roundtrip [OF n]
  have "dk_draft (sm_state (snd (PutDraft u gone node \<lparr>pr_expected = e, pr_draft = resend (publicSnapshot (dk_draft (sm_state m)))\<rparr> m))) = dk_draft (sm_state m)" for e
    by (simp add: PutDraft_def v settings_persist_def Let_def split: list.split)
  then show ?thesis using v answer_redact by (simp add: s)
qed

text \<open>
  C38: the file can be opened again. On a node whose initial model at the first start was a valid text
  (trimmed, at most 200 bytes; \<open>Open\<close> does not check it), in every reachable state, the file holds a
  state that the next start accepts, as long as it has at most 4096 operations and its encoding at most
  one mebibyte; the start keeps both snapshots and both revisions, configures workers from the applied
  one, marks an operation that was pending as interrupted and leaves every other operation as it was.
\<close>

theorem settings_reopen_accepted:
  assumes "settings_reachable u model m" and "validText model 200" and "sm_file m = Decoded s" and "length (dk_operations s) \<le> 4096"
    and "len \<le> 2 ^ 20" and "clock_text clk" and "node \<noteq> []" and "later \<noteq> []"
  shows "\<exists>m'. SettingsOpen u node version later source clk (Written # writes) len (sm_file m) = Some m' \<and>
    dk_draft (sm_state m') = dk_draft s \<and> dk_applied (sm_state m') = dk_applied s \<and> dk_draft_revision (sm_state m') = dk_draft_revision s \<and>
    dk_applied_revision (sm_state m') = dk_applied_revision s \<and> sm_worker m' = runtimeConfig (dk_applied s) \<and>
    (\<forall>c r. map_of (dk_operations s) c = Some r \<longrightarrow> map_of (dk_operations (sm_state m')) c =
       Some (if apply_pending r then mark ''failed'' (ao_phase (or_operation r)) ''apply_interrupted'' clk r else r))"
proof -
  have b: "books_ok u s" using reachable_books [OF assms(1,2)] assms(3) by (simp add: settings_inv_def file_ok_def)
  have "list_all (validOperation u) (dk_operations s)"
    using books_okD(7) [OF b map_of_is_SomeI [OF books_okD(6) [OF b]]] by (auto simp: list_all_iff record_ok_def)
  then have v: "validDiskState u s" using books_okD(1-5) [OF b] assms(4) by (simp add: validDiskState_def maximumOperations_def normal_snapshot_def)
  have i: "interrupt clk r = (if apply_pending r then mark ''failed'' (ao_phase (or_operation r)) ''apply_interrupted'' clk r else r)" for r
    by (simp add: interrupt_def apply_pending_def mark_def)
  show ?thesis
    using assms(3,5,7,8) v
    by (simp add: SettingsOpen_def settings_load_def settings_persist_def reopened_normal [OF b] map_of_map i)
qed

text \<open>
  C39: an initial model that is not a valid text locks the node out. The first start accepts any
  non-empty initial model and saves it; when it is not trimmed or longer than 200 bytes, every later
  start refuses the file that the first start wrote, whatever model it is given.
\<close>

theorem initial_model_locks_out:
  assumes "SettingsOpen u node version model source clk writes len NoFile = Some m" and "\<not> validText model 200"
  shows "SettingsOpen u node' version' later source' clk' writes' len' (sm_file m) = None"
proof -
  obtain f w where "sm_file m = Decoded (initial_state model)"
    using assms(1) by (auto simp: SettingsOpen_def settings_load_def settings_persist_def split: if_splits list.splits)
  then show ?thesis using assms(2)
    by (simp add: SettingsOpen_def settings_load_def validDiskState_def validPrivateSnapshot_def initial_state_def initial_snapshot_def)
qed

text \<open>
  An apply has no bound of its own: with 4096 operations in the file one more is accepted and saved,
  and the next start refuses the file.
\<close>

lemma apply_locks_out:
  assumes "sm_state m = s" and "length (dk_operations s) = 4096" and "map_of (dk_operations s) (ar_command rq) = None" and "list_all (\<lambda>(c, r). \<not> apply_pending r) (dk_operations s)"
    and "identifierPattern (ar_command rq)" and "ar_expected rq = dk_draft_revision s" and "ar_target rq = dk_draft_revision s" and "sm_bound m"
    and "sm_writes m = Written # ws"
  shows "(\<exists>e. fst (SettingsApply False (sm_node m) rq fresh clk m) = Inr e) \<and>
    SettingsOpen u node version model source clk' writes len (sm_file (snd (SettingsApply False (sm_node m) rq fresh clk m))) = None"
proof -
  have n: "\<not> list_ex (\<lambda>(c, r). apply_pending r) (dk_operations s)" using assms(4) by (auto simp: list_all_iff list_ex_iff)
  have l: "length (AList.update k v ops) = Suc (length ops)" if "map_of ops k = None" for k and v :: operationRecord and ops
    using that by (induction ops) (auto split: if_splits)
  have e: "settings_persist (set_record (ar_command rq) r m) = (True, (set_record (ar_command rq) r m)\<lparr>sm_writes := ws,
      sm_file := Decoded (with_record (ar_command rq) r s)\<rparr>)" for r
    using assms(1,9) by (simp add: settings_persist_def set_record_def with_record_def)
  show ?thesis using assms n l [OF assms(3)]
    by (simp add: SettingsApply_def Let_def e SettingsOpen_def settings_load_def validDiskState_def maximumOperations_def)
qed

section \<open>A sample apply\<close>

definition sample_url :: url_parser where
  "sample_url s = (if take 7 s = ''http://'' then Some \<lparr>pu_scheme = ''http'', pu_host = drop 7 s, pu_user = False, pu_fragment = []\<rparr> else None)"

definition sample_time :: string where "sample_time = ''2024-05-01T10:00:00Z''"

definition sample_settings :: settings_manager where
  "sample_settings = the (SettingsOpen sample_url ''node'' ''1.0.31'' ''model-a'' True sample_time (replicate 7 Written) 0 NoFile)"

definition sample_server :: MCPServer where
  "sample_server = \<lparr>sv_id = ''search'', sv_name = ''Search'', sv_enabled = True, sv_transport = ''sse'', sv_url = ''http://tools'', sv_timeout = 30000,
     sv_auth = \<lparr>au_kind = ''bearer'', au_configured = False, au_action = ''replace'', au_secret = ''token''\<rparr>\<rparr>"

definition sample_put :: PutRequest where
  "sample_put = \<lparr>pr_expected = 1, pr_draft = \<lparr>ss_inference = \<lparr>if_model = Some ''model-b'', if_speed = Some ''true'', if_effort = None\<rparr>,
     ss_document = \<lparr>md_schema = MCPDocumentSchemaID, md_servers = Some [sample_server]\<rparr>, ss_servers = None\<rparr>\<rparr>"

definition sample_models :: "NativeModel list" where
  "sample_models = [\<lparr>nm_id = ''model-b'', nm_name = ''B'', nm_parameters = [\<lparr>np_id = ''fast'', np_values = [''false'', ''true'']\<rparr>],
     nm_variants = [\<lparr>nv_params = [''fast'' \<mapsto> ''false''], nv_default = True\<rparr>, \<lparr>nv_params = [''fast'' \<mapsto> ''true''], nv_default = False\<rparr>]\<rparr>]"

definition sample_fresh :: string where "sample_fresh = ''00000000-0000-4000-8000-000000000001''"

definition sample_drafted :: settings_manager where
  "sample_drafted = snd (PutDraft sample_url False ''node'' sample_put (BindRuntime sample_settings))"

definition sample_applying :: settings_manager where
  "sample_applying = snd (SettingsApply False ''node'' \<lparr>ar_command = ''apply-1'', ar_expected = 2, ar_target = 2\<rparr> sample_fresh sample_time sample_drafted)"






text \<open>The states of the sample, written out.\<close>

definition sample_draft :: privateSnapshot where
  "sample_draft = \<lparr>pv_servers = [\<lparr>pm_id = ''search'', pm_name = ''Search'', pm_enabled = True, pm_transport = ''sse'', pm_url = ''http://tools'',
     pm_timeout = 30000, pm_token = ''token''\<rparr>], pv_inference = \<lparr>if_model = Some ''model-b'', if_speed = Some ''on'', if_effort = None\<rparr>\<rparr>"

definition sample_record :: "string \<Rightarrow> string \<Rightarrow> operationRecord" where
  "sample_record status phase = \<lparr>or_operation = \<lparr>ao_id = sample_fresh, ao_command = ''apply-1'', ao_target = 2, ao_previous = 1, ao_status = status,
     ao_phase = phase, ao_reason = [], ao_created = sample_time, ao_updated = sample_time\<rparr>, or_expected = 2, or_target_revision = 2, or_target = sample_draft\<rparr>"

definition sample_books :: "(string \<times> operationRecord) list \<Rightarrow> diskState" where
  "sample_books ops = \<lparr>dk_draft_revision = 2, dk_applied_revision = 1, dk_draft = sample_draft, dk_applied = initial_snapshot ''model-a'', dk_operations = ops\<rparr>"

definition sample_state :: "nat \<Rightarrow> diskState \<Rightarrow> apply_stage option \<Rightarrow> privateSnapshot \<Rightarrow> settings_manager" where
  "sample_state k s stage child = \<lparr>sm_node = ''node'', sm_version = ''1.0.31'', sm_source = True, sm_bound = True, sm_state = s,
     sm_jobs = (case stage of None \<Rightarrow> [] | Some stg \<Rightarrow> [(''apply-1'', \<lparr>jb_record = sample_record ''pending'' ''preflight'',
       jb_previous = initial_snapshot ''model-a'', jb_stage = stg\<rparr>)]),
     sm_gate = (case stage of None \<Rightarrow> None | Some stg \<Rightarrow> if gated stg then Some ''apply-1'' else None),
     sm_worker = runtimeConfig child, sm_adrift = False, sm_file = Decoded s, sm_writes = replicate k Written\<rparr>"

lemma sample_facts: "clock_text sample_time" "uuid4Pattern sample_fresh" "validText ''model-a'' 200" "identifierPattern ''apply-1''"
  "validateRuntime (Some sample_models) sample_draft = None" "validateDraft sample_url (pr_draft sample_put) (initial_snapshot ''model-a'') = Inr sample_draft"
  by code_simp+

lemma sample_opened: "SettingsOpen sample_url ''node'' ''1.0.31'' ''model-a'' True sample_time (replicate 7 Written) 0 NoFile = Some sample_settings"
  by (simp add: sample_settings_def SettingsOpen_def settings_load_def settings_persist_def eval_nat_numeral)

lemma sample_drafted_eq: "sample_drafted = sample_state 5 (sample_books []) None (initial_snapshot ''model-a'')"
  using sample_facts(6)
  by (simp add: sample_drafted_def PutDraft_def sample_settings_def SettingsOpen_def settings_load_def settings_persist_def BindRuntime_def
      initial_state_def sample_put_def sample_state_def sample_books_def Let_def eval_nat_numeral)

lemma sample_applying_eq: "sample_applying = sample_state 4 (sample_books [(''apply-1'', sample_record ''pending'' ''preflight'')]) (Some Queued) (initial_snapshot ''model-a'')"
  using sample_facts(4)
  by (simp add: sample_applying_def sample_drafted_eq SettingsApply_def settings_persist_def sample_state_def sample_books_def new_record_def set_record_def
      sample_record_def Let_def eval_nat_numeral)











lemma sample_drafted_reachable: "settings_reachable sample_url ''model-a'' sample_drafted"
proof -
  have "settings_reachable sample_url ''model-a'' sample_settings"
    by (rule settings_first [OF sample_facts(1) sample_opened])
  then show ?thesis unfolding sample_drafted_def by (intro settings_next [OF settings_next [OF _ settings_bind] settings_put])
qed



theorem shown_draft_roundtrip_witness:
  "validateDraft sample_url (resend (se_draft (settings_answer None sample_drafted))) (dk_draft (sm_state sample_drafted)) = Inr (dk_draft (sm_state sample_drafted)) \<and>
   settings_answer None (redact_state sample_drafted) = settings_answer None sample_drafted \<and>
   map pm_token (pv_servers (dk_draft (sm_state sample_drafted))) = [''token'']"
proof -
  have "map pm_token (pv_servers (dk_draft (sm_state sample_drafted))) = [''token'']"
    by (simp add: sample_drafted_eq sample_state_def sample_books_def sample_draft_def)
  then show ?thesis using shown_draft_roundtrip [OF sample_drafted_reachable sample_facts(3)] by blast
qed

theorem settings_reopen_accepted_witness:
  "\<exists>m'. SettingsOpen sample_url ''node'' ''1.0.31'' ''model-a'' True sample_time [Written] 800 (sm_file sample_applying) = Some m' \<and>
     dk_applied_revision (sm_state m') = 1 \<and> dk_draft_revision (sm_state m') = 2 \<and>
     map_of (dk_operations (sm_state m')) ''apply-1'' = Some (mark ''failed'' ''preflight'' ''apply_interrupted'' sample_time (sample_record ''pending'' ''preflight''))"
proof -
  let ?s = "sample_books [(''apply-1'', sample_record ''pending'' ''preflight'')]"
  have f: "sm_file sample_applying = Decoded ?s" by (simp add: sample_applying_eq sample_state_def)
  have n: "length (dk_operations ?s) \<le> 4096" "map_of (dk_operations ?s) ''apply-1'' = Some (sample_record ''pending'' ''preflight'')" by (simp_all add: sample_books_def)
  have r: "settings_reachable sample_url ''model-a'' sample_applying"
    unfolding sample_applying_def by (rule settings_next [OF sample_drafted_reachable settings_apply]) (rule sample_facts)+
  obtain m' where m: "SettingsOpen sample_url ''node'' ''1.0.31'' ''model-a'' True sample_time [Written] 800 (sm_file sample_applying) = Some m'"
    "dk_applied_revision (sm_state m') = dk_applied_revision ?s" "dk_draft_revision (sm_state m') = dk_draft_revision ?s"
    "map_of (dk_operations (sm_state m')) ''apply-1'' = Some (if apply_pending (sample_record ''pending'' ''preflight'')
       then mark ''failed'' (ao_phase (or_operation (sample_record ''pending'' ''preflight''))) ''apply_interrupted'' sample_time (sample_record ''pending'' ''preflight'')
       else sample_record ''pending'' ''preflight'')"
    using settings_reopen_accepted [OF r sample_facts(3) f n(1) _ sample_facts(1), of 800 "''node''" "''model-a''" "''1.0.31''" True "[]"] n(2) by auto
  then show ?thesis by (simp add: sample_books_def sample_record_def apply_pending_def)
qed

theorem initial_model_locks_out_witness:
  "\<exists>m. SettingsOpen sample_url ''node'' ''1.0.31'' '' model-a'' True sample_time [Written] 0 NoFile = Some m \<and>
     SettingsOpen sample_url ''node'' ''1.0.31'' ''model-a'' True sample_time [Written] 800 (sm_file m) = None"
proof -
  have v: "\<not> validText '' model-a'' 200" by code_simp
  obtain m where "SettingsOpen sample_url ''node'' ''1.0.31'' '' model-a'' True sample_time [Written] 0 NoFile = Some m"
    by (simp add: SettingsOpen_def settings_load_def settings_persist_def)
  with initial_model_locks_out [OF this v] show ?thesis by blast
qed

end
