(* ===== verification/Spec2Isabelle.thy ===== *)
theory Spec2Isabelle
  imports System Pages Settings
begin

text \<open>
  The durable runtime of the harness node (\<open>github.com/boxvtk621/harness-cursor\<close>).

  \<^bold>\<open>The program.\<close> A node keeps dialogs, a queue of requests, at most one running attempt and an
  append-only event log in one SQLite database. Commands arrive as JSON documents, run in one
  transaction each and leave a durable receipt. A dispatcher turns the oldest queued request into an
  attempt; a worker hands control actions to an adapter that drives an external engine; what the
  adapter reports is projected into rows and events. An administrator may hold the node or a dialog,
  prove that it is quiescent, release it or delete a dialog. Clients read snapshots, pages and a
  stream of events.

  \<^bold>\<open>How it is modelled.\<close> A table row is a record, a table a list of rows, the database a record of
  tables with the \<open>node_state\<close> row. A transaction is a function from a \<open>txn\<close> (the database, the
  loaded state, the supply of fresh identities and the clock reading) to an error or a value with the
  new \<open>txn\<close>; an error rolls back. Everything outside (clock, identities, hash, disk, adapter
  answers, file publication) is an argument. An entry point is a function on the database that also
  takes the environment's answers, so that every failure of begin, commit and after commit is a
  branch. One JSON value stands for a document; \<open>Json\<close> relates values to bytes.

  \<^bold>\<open>Theories.\<close>
  \<^item> \<open>Prelude\<close>: the transaction monad, its weakest precondition \<open>wp\<close> and \<open>keeps\<close> (an invariant is kept),
    rows, and the collections \<open>keeps\<close>, \<open>frame_defs\<close> that carry the invariant proofs.
  \<^item> \<open>Wire\<close> (\<open>contracts/wire\<close>): the JSON type, every validator, the canonical form, the encoders.
    \<open>Json\<close> and \<open>Canonical\<close>: UTF-8, the JSON grammar, \<open>internal/strictjson\<close>, \<open>decodeObject\<close>; parsing what
    is printed, the canonical text as a normal form and a fixed point, enough parser steps.
  \<^item> \<open>Store\<close> (\<open>runtime/schema.go\<close>, \<open>sql.go\<close>, \<open>state.go\<close>): tables, constraints, quiescence triggers,
    transactions. \<open>Events\<close> (\<open>events.go\<close>): \<open>appendEvent\<close>. \<open>Frame\<close>: what every statement keeps, as the
    locale \<open>store_frame\<close> and its extensions, from which the whole-program invariants follow.
  \<^item> \<open>Commands\<close>, \<open>Submit\<close> (\<open>command.go\<close>, \<open>command_handlers.go\<close>, \<open>control_handlers.go\<close>): the ten handlers
    and \<open>SubmitCommand\<close>; idempotence, no effect without commit.
  \<^item> \<open>Barrier\<close>, \<open>Hold\<close> (\<open>contracts/barrier\<close>, \<open>hold.go\<close>): holds, proofs of quiescence, rejections.
    \<open>Fence\<close>: no start under a hold. \<open>LogicalDelete\<close> (\<open>logical_delete.go\<close>).
  \<^item> \<open>Dispatch\<close> (\<open>dispatch.go\<close>), \<open>Adapter\<close> (\<open>adapters/contract\<close>), \<open>Budget\<close> (\<open>output_budget.go\<close>), \<open>Attempt\<close>,
    \<open>Observe\<close>, \<open>Observe_Inv\<close> (\<open>observe.go\<close>), \<open>Actions\<close> (\<open>actions.go\<close>), \<open>Recovery\<close> (\<open>recovery.go\<close>,
    \<open>reconcile.go\<close>, \<open>stream_lifecycle.go\<close>): the life of an attempt.
  \<^item> \<open>System\<close>: the transition system \<open>node_step\<close> of the committing entry points in any order (all but
    \<open>StoreArtifact\<close> of \<open>artifact.go\<close>, which nothing in production calls, and the migration), the
    reachable databases, and the locale \<open>runtime_invariant\<close> that lifts an invariant kept by every
    transaction to all of them.
  \<^item> \<open>Read\<close> (\<open>read.go\<close>), \<open>Replay\<close> (\<open>replay.go\<close> and the event stream of \<open>api/server.go\<close>), \<open>Cursor\<close> and
    \<open>Pages\<close> (\<open>pages.go\<close>): the reads, each a function of one committed database.
  \<^item> \<open>ProviderAuth\<close> (\<open>providerauth/manager.go\<close>): the persisted login state machine, one function per critical
    section; readiness is sound and durable, receipts are bounded, settled operations are final, a
    repeated start is idempotent and opening fails closed.
  \<^item> \<open>Settings\<close> (\<open>nodesettings/manager.go\<close>): drafts, the catalogue and the job of an apply, section by
    section, with \<open>RestartSettings\<close> of \<open>adapters/cursor/managed.go\<close>; workers are built from the applied
    settings, a shown draft can be sent back and shows no token, the file can be opened again, all of it
    for an initial model that is a valid text, which \<open>Open\<close> does not check.
  \<^bold>\<open>Bounds.\<close> The JSON parser takes \<open>2 * length + 1\<close> steps, which \<open>parser_bound_suffices\<close> shows to be
  enough; nesting is limited to 10000 as in \<open>encoding/json\<close>. A walk over pages is given one page more
  than there are rows, and the completeness theorems show that this suffices. An event stream is run
  on a finite list of polls: a connection that is closed. Integers are \<open>int\<close>, with the bounds of the
  contract (\<open>2^53 - 1\<close>) and of \<open>strconv.ParseInt\<close> written out where the code checks them.

  \<^bold>\<open>Not modelled.\<close> SQLite itself, migration of old schema versions, file locking and the reserve file;
  publication of safe text and artifacts with fsync (its result is an argument of the observation);
  the path-reporting pre-validation of settings documents and the network probe of tool servers;
  the aggregated dialog view, the tool timeline and the history export, which read the same rows; HTTP
  routing and TLS; the Cursor adapter's external process, workers that authentication prepares and
  exchanges, the Linux tool sandbox, flags and log lines, which are process, network and file system
  I/O. The primary and foreign keys of the tables are SQLite's: the statements of \<open>Store\<close> fail where
  SQLite refuses them, so that the handlers' reactions are modelled; no property claims them.
\<close>

section \<open>Samples\<close>

lemma sample_created_ok: "events (snd sample_created) \<noteq> [] \<and> commands (snd sample_created) \<noteq> []"
  by code_simp

text \<open>A message enqueued in the new dialog, and its dispatch.\<close>

definition sample_ids :: "string list \<Rightarrow> io" where
  "sample_ids suffixes = sample_io\<lparr>io_ids := map (\<lambda>x. ''00000000-0000-4000-8000-0000000000'' @ x) suffixes\<rparr>"

definition sample_enqueue :: json where
  "sample_enqueue = JObj [(''protocolVersion'', JNum ''1''), (''schemaId'', JStr ''harness-wire-v2''),
     (''commandId'', JStr ''00000000-0000-4000-8000-0000000000c2''), (''kind'', JStr ''message.enqueue''),
     (''target'', JObj [(''nodeId'', JStr sample_node), (''dialogId'', JStr ''00000000-0000-4000-8000-0000000000a1'')]),
     (''expected'', JObj [(''dialogVersion'', JNum ''1'')]), (''payload'', JObj [(''text'', JStr ''hello'')])]"

definition sample_enqueued :: database where
  "sample_enqueued = snd (SubmitCommand sample_hash sample_config sample_trust (sample_ids [''b1'', ''b2'', ''b3'']) (Some sample_enqueue)
     (snd sample_created))"

definition sample_dio :: dispatch_io where
  "sample_dio = io.extend (sample_ids [''b5'']) \<lparr>dio_native_ready = True, dio_auth_ready = True, dio_auth_ready_again = True,
     dio_policy = (\<lambda>_. Some sample_policy), dio_after_intent = True\<rparr>"

definition sample_dispatching :: database where
  "sample_dispatching = snd (DispatchNext sample_hash sample_dio sample_enqueued)"

lemma sample_dispatching_reachable: "reachable sample_hash sample_config sample_dispatching"
  unfolding sample_dispatching_def sample_enqueued_def
  by (intro reach_step [OF _ step_dispatch] reach_step [OF _ step_submit] sample_created_reachable)

definition start_pending :: "database \<Rightarrow> bool" where
  "start_pending db = (case control_actions db of
      [k] \<Rightarrow> k_kind k = ActionDispatchStart \<and> k_status k = CPending \<and> start_read (k_attempt_id k) (begin_tx db [] []) \<noteq> None
    | _ \<Rightarrow> False)"

lemma sample_dispatching_ok: "start_pending sample_dispatching"
  by code_simp

section \<open>Every reachable database\<close>

text \<open>
  C3: in every database the node can reach the event log is gapless and well formed: its sequence
  numbers are exactly 1 to the node's event counter, in order, every row belongs to the node, and
  every row's JSON is a valid wire event that carries the row's own sequence number.
\<close>

theorem event_log_gapless:
  assumes "reachable H cfg db"
  shows "map e_seq (events db) = [1..LastEventSeq (node_state db)] \<and>
    list_all (\<lambda>e. e_node_id e = NodeID (node_state db) \<and> event_ok e) (events db)"
  using event_log.reachable_inv [OF new_volume_stores(1) assms] by (simp add: db_inv_def log_inv_def)

theorem event_log_gapless_witness:
  "events (snd sample_created) \<noteq> [] \<and>
     map e_seq (events (snd sample_created)) = [1..LastEventSeq (node_state (snd sample_created))]"
  using event_log_gapless [OF sample_created_reachable] sample_created_ok by auto

text \<open>
  C4: the event log is append-only: whatever transactions run, in whatever order and with whatever
  outcome, the events already in the log keep their content and their place, and only new ones
  follow.
\<close>

theorem event_log_append_only:
  assumes "node_steps H cfg db db'"
  shows "\<exists>new. map e_json (events db') = map e_json (events db) @ new"
  using assms by (rule log_grows)

theorem event_log_append_only_witness:
  "\<exists>new. map e_json (events (finishAction sample_io [] CUnknown (snd sample_created))) = map e_json (events (snd sample_created)) @ new"
  by (rule event_log_append_only [of sample_hash sample_config]) (rule steps_one [OF step_finish])

text \<open>
  C2: the execution slot is sound in every reachable database: the attempts that are dispatching,
  running, waiting, stopping or unknown are exactly the one that \<open>active_attempt_id\<close> names, and
  there is none when it is null. The slot is never lost, never doubly occupied and never left
  pointing at a finished attempt.
\<close>

theorem execution_slot_exclusive:
  assumes "reachable H cfg db"
  shows "map attempt_id (filter (\<lambda>a. is_active (a_state a)) (attempts db)) =
    (case ActiveAttemptID (node_state db) of None \<Rightarrow> [] | Some i \<Rightarrow> [i])"
  using slot_program.reachable_inv [OF new_volume_slot assms]
  by (simp add: db_inv_def slot_ok_def slot_keys_def slot_inv_def active_ids_def)

theorem execution_slot_exclusive_witness:
  "map attempt_id (filter (\<lambda>a. is_active (a_state a)) (attempts (snd sample_created))) =
     (case ActiveAttemptID (node_state (snd sample_created)) of None \<Rightarrow> [] | Some i \<Rightarrow> [i])"
  by (rule execution_slot_exclusive [OF sample_created_reachable])

text \<open>
  C1: no start under a hold. Whenever a dispatch control is pending or in flight and the worker
  would still read a start for its attempt, so that the adapter may be called, no administrative
  hold in force covers that attempt: a hold cannot slip in between the dispatch of a request and
  the adapter's start.
\<close>

theorem no_start_under_hold:
  assumes "reachable H cfg db" and "k \<in> set (control_actions db)" and "k_kind k = ActionDispatchStart"
    and "k_status k \<in> {CPending, CInflight}" and "start_read (k_attempt_id k) (begin_tx db [] []) = Some x"
  shows "\<exists>a. lookup_row attempt_id (k_attempt_id k) (attempts db) = Some a \<and> \<not> attempt_held (begin_tx db [] []) a"
proof -
  let ?t = "begin_tx db [] []"
  have "start_fence [] ?t" using fence_program.reachable_inv [OF new_volume_fence assms(1)] by (simp add: db_inv_def)
  moreover have "k \<in> set (control_actions ?t)" using assms(2) by (simp add: begin_tx_def database.defs)
  ultimately have "clear_start (k_attempt_id k) ?t"
    using assms(3,4) by (auto simp: start_fence_def list_all_iff starting_def open_control_def)
  then show ?thesis using assms(5) by (auto simp: clear_start_def start_read_def split: option.splits if_splits)
qed

theorem no_start_under_hold_witness:
  "\<exists>k a. k \<in> set (control_actions sample_dispatching) \<and> k_kind k = ActionDispatchStart \<and> k_status k = CPending \<and>
     lookup_row attempt_id (k_attempt_id k) (attempts sample_dispatching) = Some a \<and> \<not> attempt_held (begin_tx sample_dispatching [] []) a"
proof -
  obtain k x where k: "control_actions sample_dispatching = [k]" "k_kind k = ActionDispatchStart" "k_status k = CPending"
    "start_read (k_attempt_id k) (begin_tx sample_dispatching [] []) = Some x"
    using sample_dispatching_ok by (auto simp: start_pending_def split: list.splits)
  with no_start_under_hold [OF sample_dispatching_reachable, of k x] show ?thesis by auto
qed

text \<open>
  C5: the durable outcome of a command is unique and final. Once an identity has an outcome,
  accepted or rejected, every later database has exactly that outcome for it, with the same
  canonical command, digest and receipt.
\<close>

theorem command_outcome_final:
  assumes "reachable H cfg db" and "node_steps H cfg db db'" and "oc \<in> set (command_outcomes c (begin_tx db [] []))"
  shows "command_outcomes c (begin_tx db' [] []) = [oc]"
  using assms by (rule final_outcome)

theorem command_outcome_final_witness:
  "\<exists>c oc. oc \<in> set (command_outcomes c (begin_tx (snd sample_created) [] [])) \<and>
     command_outcomes c (begin_tx sample_dispatching [] []) = [oc]"
proof -
  obtain r where "r \<in> set (commands (snd sample_created))" using sample_created_ok by (metis last_in_set)
  then obtain oc where oc: "oc \<in> set (command_outcomes (command_id r) (begin_tx (snd sample_created) [] []))"
    by (auto simp: command_outcomes_def)
  have "node_steps sample_hash sample_config (snd sample_created) sample_dispatching"
    unfolding sample_dispatching_def sample_enqueued_def by (intro steps_then [OF _ step_dispatch] steps_one [OF step_submit])
  from command_outcome_final [OF sample_created_reachable this oc] oc show ?thesis by blast
qed

text \<open>
  C6: the action of a control runs to one outcome. A control that is acknowledged, rejected or
  unknown is never changed again, so a settled control is never claimed and executed a second time.
\<close>

theorem settled_control_final:
  assumes "node_steps H cfg db db'" and "k \<in> set (control_actions db)" and "k_status k \<in> {CAcknowledged, CRejected, CUnknown}"
  shows "k \<in> set (control_actions db')"
proof -
  have "db_inv (settled_kept (control_actions db)) db" by (simp add: db_inv_def settled_kept_def begin_tx_def database.defs)
  from settled.steps_inv [OF assms(1) this] assms(2,3) show ?thesis
    by (auto simp: db_inv_def settled_kept_def open_control_def begin_tx_def database.defs)
qed

definition sample_settled :: database where
  "sample_settled = sample_volume\<lparr>control_actions := [\<lparr>k_command_id = ''c'', k_kind = ActionCommand CommandAttemptStop,
     k_attempt_id = ''a'', k_message_id = None, k_actor_id = None, k_payload = emptyPayload, k_status = CUnknown\<rparr>]\<rparr>"

theorem settled_control_final_witness:
  "set (control_actions sample_settled) \<subseteq> set (control_actions (finishAction sample_io ''c'' CAcknowledged sample_settled))"
proof -
  have "node_steps sample_hash sample_config sample_settled (finishAction sample_io ''c'' CAcknowledged sample_settled)"
    by (rule steps_one [OF step_finish])
  from settled_control_final [OF this] show ?thesis by (simp add: sample_settled_def)
qed

end
